(* ===== verification/Prelude.thy ===== *)
theory Prelude
  imports Main "HOL-Library.Word" "HOL-Library.AList" "HOL-Library.Sublist"
begin

text \<open>
  What every theory of the development shares: bytes and strings, Go errors and
  panics as values, the collections of simplification rules, and generic lemmas on
  lists, options and association lists.

  A Go \<open>string\<close> and a Go \<open>[]byte\<close> are both lists of bytes here (\<open>char\<close> has exactly
  256 values). Where the code distinguishes a nil slice from an empty one, the model
  uses \<open>bytes option\<close>. A function that returns \<open>(T, error)\<close> returns \<open>gerr + T\<close>; a
  function that can panic returns an \<open>outcome\<close>.
\<close>

type_synonym bytes = string
type_synonym int64 = "64 word"
type_synonym uint64 = "64 word"

named_theorems world_simps \<open>frame and value equations of the operating-system calls\<close>
named_theorems header_simps \<open>reading a header after writing it\<close>
named_theorems flow_simps \<open>frame equations of the proxy state\<close>

section \<open>Errors and panics\<close>

text \<open>
  An error value. \<open>ENotExist\<close> is any error for which \<open>errors.Is(err, os.ErrNotExist)\<close>
  holds, \<open>ESentinel\<close> a package-level variable compared by identity, \<open>EMsg\<close> any other
  error, and \<open>EWrap s e\<close> the result of \<open>fmt.Errorf(s + "%w", e)\<close>.
\<close>

datatype gerr = ENotExist string | ESentinel string | EMsg string | EWrap string gerr

fun err_text :: "gerr \<Rightarrow> string" where
  "err_text (ENotExist s) = s"
| "err_text (ESentinel s) = s"
| "err_text (EMsg s) = s"
| "err_text (EWrap s e) = s @ err_text e"

datatype gpanic =
    NilDeref
  | IndexOutOfRange
  | TypeAssertion string
  | NilMapWrite
  | ClosedChannel
  | LogPanic string
  | HookPanic string

text \<open>How \<open>%v\<close> prints a recovered panic value (an index panic also prints the index).\<close>

fun panic_text :: "gpanic \<Rightarrow> string" where
  "panic_text NilDeref = ''runtime error: invalid memory address or nil pointer dereference''"
| "panic_text IndexOutOfRange = ''runtime error: index out of range''"
| "panic_text (TypeAssertion s) = ''interface conversion: '' @ s"
| "panic_text NilMapWrite = ''assignment to entry in nil map''"
| "panic_text ClosedChannel = ''close of closed channel''"
| "panic_text (LogPanic s) = s"
| "panic_text (HookPanic s) = s"

datatype 'a outcome = Ret 'a | Panicked gpanic

fun returned :: "'a outcome \<Rightarrow> bool" where
  "returned (Ret _) = True"
| "returned (Panicked _) = False"

lemma returned_iff: "returned r \<longleftrightarrow> (\<exists>x. r = Ret x)"
  by (cases r) auto

lemma not_returned_iff: "\<not> returned r \<longleftrightarrow> (\<exists>p. r = Panicked p)"
  by (cases r) auto

text \<open>Sequencing of steps that may panic: the first panic wins.\<close>

fun obind :: "'a outcome \<Rightarrow> ('a \<Rightarrow> 'b outcome) \<Rightarrow> 'b outcome" where
  "obind (Ret x) f = f x"
| "obind (Panicked p) f = Panicked p"

lemma obind_Ret_iff: "obind r f = Ret y \<longleftrightarrow> (\<exists>x. r = Ret x \<and> f x = Ret y)"
  by (cases r) auto

lemma obind_Panicked_iff:
  "obind r f = Panicked p \<longleftrightarrow> r = Panicked p \<or> (\<exists>x. r = Ret x \<and> f x = Panicked p)"
  by (cases r) auto

lemma returned_obind: "returned (obind r f) \<longleftrightarrow> (\<exists>x. r = Ret x \<and> returned (f x))"
  by (cases r) auto

fun is_err :: "'e + 'a \<Rightarrow> bool" where
  "is_err (Inl _) = True"
| "is_err (Inr _) = False"

lemma is_err_iff: "is_err r \<longleftrightarrow> (\<exists>e. r = Inl e)"
  by (cases r) auto

lemma not_is_err_iff: "\<not> is_err r \<longleftrightarrow> (\<exists>x. r = Inr x)"
  by (cases r) auto

text \<open>\<open>errors.Is(err, os.ErrNotExist)\<close>\<close>

fun is_not_exist :: "gerr \<Rightarrow> bool" where
  "is_not_exist (ENotExist _) = True"
| "is_not_exist (EWrap _ e) = is_not_exist e"
| "is_not_exist _ = False"

section \<open>Lists\<close>

lemma drop_nth_Cons: "drop i xs = y # ys \<Longrightarrow> i < length xs \<and> xs ! i = y"
  by (metis drop_eq_Nil2 hd_drop_conv_nth leI list.discI list.sel(1))

lemma find_Some_mem: "find P xs = Some x \<Longrightarrow> x \<in> set xs \<and> P x"
  by (auto simp: find_Some_iff)

lemma find_weaken:
  assumes "find P xs = Some x" and "\<And>y. P y \<Longrightarrow> Q y"
  shows "\<exists>y. find Q xs = Some y"
proof (cases "find Q xs")
  case None
  then show ?thesis
    using assms find_Some_mem [OF assms(1)] by (auto simp: find_None_iff)
qed auto

lemma filter_eq_snocD:
  "filter P (xs @ [x]) = (if P x then filter P xs @ [x] else filter P xs)"
  by simp

section \<open>Association lists\<close>

text \<open>
  A Go map whose iteration order matters is an association list with distinct keys,
  in the order in which \<open>range\<close> happens to visit it.
\<close>

definition wf_alist :: "('k \<times> 'v) list \<Rightarrow> bool" where
  "wf_alist m \<longleftrightarrow> distinct (map fst m)"

lemma wf_alist_Nil [simp]: "wf_alist []"
  by (simp add: wf_alist_def)

lemma wf_alist_update [simp]: "wf_alist m \<Longrightarrow> wf_alist (AList.update k v m)"
  by (simp add: wf_alist_def distinct_update)

lemma wf_alist_delete [simp]: "wf_alist m \<Longrightarrow> wf_alist (AList.delete k m)"
  by (simp add: wf_alist_def distinct_delete)

end
