(* ===== verification/Go_Strings.thy ===== *)
theory Go_Strings
  imports Prelude
begin

text \<open>
  The functions of Go's packages \<open>strings\<close>, \<open>bytes\<close>, \<open>strconv\<close> and
  \<open>path/filepath\<close> that the program calls, on byte strings: \<open>Contains\<close>,
  \<open>HasPrefix\<close>, \<open>HasSuffix\<close>, \<open>TrimSuffix\<close>, \<open>ReplaceAll\<close>, \<open>TrimSpace\<close>, \<open>Fields\<close>,
  \<open>EqualFold\<close>, \<open>Cut\<close>, \<open>Atoi\<close>, the decimal rendering of integers, \<open>filepath.Base\<close>,
  \<open>filepath.Clean\<close> and \<open>filepath.Join\<close> (with \<open>/\<close> as the separator). White space is
  that of Unicode, in UTF-8. Case folding is that of ASCII: on a byte outside ASCII, Go looks
  at the Unicode tables, which the program's own constants never need.
\<close>

section \<open>Searching\<close>

fun contains :: "string \<Rightarrow> string \<Rightarrow> bool" where
  "contains [] sub = (sub = [])"
| "contains (c # cs) sub = (prefix sub (c # cs) \<or> contains cs sub)"

lemma contains_iff: "contains s sub \<longleftrightarrow> (\<exists>ps ss. s = ps @ sub @ ss)"
proof (induction s)
  case Nil
  then show ?case by auto
next
  case (Cons c cs)
  show ?case
  proof
    assume "contains (c # cs) sub"
    then consider "prefix sub (c # cs)" | "contains cs sub" by auto
    then show "\<exists>ps ss. c # cs = ps @ sub @ ss"
    proof cases
      case 1
      then show ?thesis by (metis append_Nil prefix_def)
    next
      case 2
      with Cons.IH show ?thesis by (metis append_Cons)
    qed
  next
    assume "\<exists>ps ss. c # cs = ps @ sub @ ss"
    then obtain ps ss where eq: "c # cs = ps @ sub @ ss" by blast
    show "contains (c # cs) sub"
    proof (cases ps)
      case Nil
      with eq have "prefix sub (c # cs)" by (auto intro: prefixI)
      then show ?thesis by simp
    next
      case (Cons p ps')
      with eq have "cs = ps' @ sub @ ss" by simp
      with \<open>contains cs sub \<longleftrightarrow> (\<exists>ps ss. cs = ps @ sub @ ss)\<close> show ?thesis by auto
    qed
  qed
qed

lemma contains_refl [simp]: "contains s s"
  using contains_iff [of s s] by (metis append_Nil append_Nil2)

lemma contains_appendI1: "contains s sub \<Longrightarrow> contains (s @ t) sub"
  by (metis append.assoc contains_iff)

lemma contains_appendI2: "contains t sub \<Longrightarrow> contains (s @ t) sub"
  by (metis append.assoc contains_iff)

lemma contains_trans: "contains s t \<Longrightarrow> contains t u \<Longrightarrow> contains s u"
  by (metis append.assoc contains_iff)

definition has_prefix :: "string \<Rightarrow> string \<Rightarrow> bool" where
  "has_prefix s p = prefix p s"

definition has_suffix :: "string \<Rightarrow> string \<Rightarrow> bool" where
  "has_suffix s p = suffix p s"

lemma has_suffix_contains: "has_suffix s p \<Longrightarrow> contains s p"
  unfolding has_suffix_def suffix_def contains_iff by (metis append_Nil2)

definition trim_suffix :: "string \<Rightarrow> string \<Rightarrow> string" where
  "trim_suffix s p = (if has_suffix s p then take (length s - length p) s else s)"

lemma trim_suffix_append [simp]: "trim_suffix (s @ p) p = s"
  by (simp add: trim_suffix_def has_suffix_def suffix_def)

text \<open>\<open>strings.Cut(s, sep)\<close> for a separator of one byte: what follows its first occurrence.\<close>

fun cut_after :: "char \<Rightarrow> string \<Rightarrow> string option" where
  "cut_after sep [] = None"
| "cut_after sep (c # cs) = (if c = sep then Some cs else cut_after sep cs)"

section \<open>Replacing\<close>

text \<open>
  \<open>bytes.ReplaceAll(s, old, new)\<close>, for a non-empty \<open>old\<close> (the only use in the program):
  occurrences are replaced from the left and do not overlap.
\<close>

function replace_all :: "string \<Rightarrow> string \<Rightarrow> string \<Rightarrow> string" where
  "replace_all old new [] = []"
| "replace_all old new (c # cs) =
     (if old \<noteq> [] \<and> prefix old (c # cs)
      then new @ replace_all old new (drop (length old) (c # cs))
      else c # replace_all old new cs)"
  by pat_completeness auto
termination
  by (relation "measure (\<lambda>(old, new, s). length s)") auto

lemma replace_all_no_occurrence:
  "\<not> contains s old \<Longrightarrow> replace_all old new s = s"
  by (induction s) auto

lemma replace_all_at: "old \<noteq> [] \<Longrightarrow> replace_all old new (old @ s) = new @ replace_all old new s"
  by (cases old) auto

lemma replace_all_id: "replace_all old old s = s"
proof (induction s rule: length_induct)
  case (1 s)
  show ?case
  proof (cases s)
    case Nil
    then show ?thesis by simp
  next
    case (Cons c cs)
    with 1 have tail: "replace_all old old cs = cs" by simp
    have "replace_all old old u = u" if "old \<noteq> []" "s = old @ u" for u
      using 1 that by simp
    with Cons tail show ?thesis by (auto elim!: prefixE)
  qed
qed

section \<open>Decimal integers\<close>

definition digit_char :: "nat \<Rightarrow> char" where
  "digit_char d = char_of (48 + d)"

definition is_digit :: "char \<Rightarrow> bool" where
  "is_digit c \<longleftrightarrow> 48 \<le> (of_char c :: nat) \<and> (of_char c :: nat) \<le> 57"

definition digit_val :: "char \<Rightarrow> nat" where
  "digit_val c = of_char c - 48"

lemma is_digit_digit_char: "d < 10 \<Longrightarrow> is_digit (digit_char d)"
  by (simp add: is_digit_def digit_char_def)

lemma digit_val_digit_char: "d < 10 \<Longrightarrow> digit_val (digit_char d) = d"
  by (simp add: digit_val_def digit_char_def)

fun nat_str :: "nat \<Rightarrow> string" where
  "nat_str n = (if n < 10 then [digit_char n] else nat_str (n div 10) @ [digit_char (n mod 10)])"

declare nat_str.simps [simp del]

lemma nat_str_digits: "list_all is_digit (nat_str n)"
proof (induction n rule: nat_str.induct)
  case (1 n)
  then show ?case
    by (cases "n < 10") (simp_all add: nat_str.simps [of n] is_digit_digit_char)
qed

lemma nat_str_nonempty [simp]: "nat_str n \<noteq> []"
  by (subst nat_str.simps) simp

definition int_str :: "int \<Rightarrow> string" where
  "int_str i = (if i < 0 then CHR ''-'' # nat_str (nat (- i)) else nat_str (nat i))"

definition uint64_str :: "uint64 \<Rightarrow> string" where
  "uint64_str w = nat_str (unat w)"

definition digits_val :: "string \<Rightarrow> nat" where
  "digits_val s = foldl (\<lambda>a c. 10 * a + digit_val c) 0 s"

lemma digits_val_snoc: "digits_val (s @ [c]) = 10 * digits_val s + digit_val c"
  by (simp add: digits_val_def)

lemma digits_val_nat_str [simp]: "digits_val (nat_str n) = n"
proof (induction n rule: nat_str.induct)
  case (1 n)
  show ?case
  proof (cases "n < 10")
    case True
    then show ?thesis
      by (subst nat_str.simps) (simp add: digits_val_def digit_val_digit_char)
  next
    case False
    with 1 show ?thesis
      by (subst nat_str.simps) (simp add: digits_val_snoc digit_val_digit_char)
  qed
qed

lemma nat_str_inject: "nat_str m = nat_str n \<Longrightarrow> m = n"
  by (metis digits_val_nat_str)

lemma uint64_str_inject: "uint64_str v = uint64_str w \<Longrightarrow> v = w"
  unfolding uint64_str_def by (metis nat_str_inject unsigned_word_eqI)

text \<open>
  \<open>strconv.Atoi\<close> on a 64-bit platform: an optional sign, at least one digit, nothing
  else, and a value that fits an \<open>int\<close>. \<open>None\<close> is any of its errors.
\<close>

definition max_int :: int where
  "max_int = 9223372036854775807"

definition atoi :: "string \<Rightarrow> int option" where
  "atoi s =
     (let neg = (case s of c # _ \<Rightarrow> c = CHR ''-'' | [] \<Rightarrow> False);
          body = (case s of c # cs \<Rightarrow> if c = CHR ''-'' \<or> c = CHR ''+'' then cs else s | [] \<Rightarrow> s);
          v = int (digits_val body)
      in if body = [] \<or> \<not> list_all is_digit body then None
         else if neg then (if v \<le> max_int + 1 then Some (- v) else None)
         else if v \<le> max_int then Some v else None)"

lemma digit_not_sign: "is_digit c \<Longrightarrow> c \<noteq> CHR ''-'' \<and> c \<noteq> CHR ''+''"
  by (auto simp: is_digit_def)

lemma atoi_digits:
  assumes "list_all is_digit s" and "s \<noteq> []"
  shows "atoi s = (if int (digits_val s) \<le> max_int then Some (int (digits_val s)) else None)"
  using assms by (cases s) (auto simp: atoi_def Let_def dest: digit_not_sign)

lemma atoi_nat_str: "int n \<le> max_int \<Longrightarrow> atoi (nat_str n) = Some (int n)"
  by (simp add: atoi_digits nat_str_digits)

lemma atoi_first_digit_nonneg:
  assumes "is_digit c" and "atoi (c # cs) = Some i"
  shows "0 \<le> i"
  using assms by (auto simp: atoi_def Let_def dest: digit_not_sign split: if_splits)

lemma atoi_int_str:
  assumes "- max_int - 1 \<le> i" and "i \<le> max_int"
  shows "atoi (int_str i) = Some i"
proof (cases "i < 0")
  case True
  with assms show ?thesis
    by (simp add: atoi_def int_str_def Let_def nat_str_digits)
next
  case False
  with assms show ?thesis
    by (simp add: int_str_def atoi_nat_str)
qed

section \<open>White space\<close>

text \<open>
  The characters for which \<open>unicode.IsSpace\<close> holds, in UTF-8. The first byte of an encoding never
  occurs inside another character, so that looking for an encoding at a byte position and
  decoding characters, as \<open>TrimSpace\<close> and \<open>Fields\<close> do, find the same ones, in invalid text also.
\<close>

definition unicode_spaces :: "string list" where
  "unicode_spaces =
     [[CHR 0x09], [CHR 0x0A], [CHR 0x0B], [CHR 0x0C], [CHR 0x0D], '' '',
      [CHR 0xC2, CHR 0x85], [CHR 0xC2, CHR 0xA0], [CHR 0xE1, CHR 0x9A, CHR 0x80],
      [CHR 0xE2, CHR 0x80, CHR 0x80], [CHR 0xE2, CHR 0x80, CHR 0x81], [CHR 0xE2, CHR 0x80, CHR 0x82],
      [CHR 0xE2, CHR 0x80, CHR 0x83], [CHR 0xE2, CHR 0x80, CHR 0x84], [CHR 0xE2, CHR 0x80, CHR 0x85],
      [CHR 0xE2, CHR 0x80, CHR 0x86], [CHR 0xE2, CHR 0x80, CHR 0x87], [CHR 0xE2, CHR 0x80, CHR 0x88],
      [CHR 0xE2, CHR 0x80, CHR 0x89], [CHR 0xE2, CHR 0x80, CHR 0x8A], [CHR 0xE2, CHR 0x80, CHR 0xA8],
      [CHR 0xE2, CHR 0x80, CHR 0xA9], [CHR 0xE2, CHR 0x80, CHR 0xAF], [CHR 0xE2, CHR 0x81, CHR 0x9F],
      [CHR 0xE3, CHR 0x80, CHR 0x80]]"

text \<open>Remove the given pieces from the front, as long as there is one.\<close>

definition piece_at :: "string list \<Rightarrow> string \<Rightarrow> string option" where
  "piece_at es s = find (\<lambda>e. e \<noteq> [] \<and> prefix e s) es"

lemma piece_at_SomeD: "piece_at es s = Some e \<Longrightarrow> e \<in> set es \<and> e \<noteq> [] \<and> prefix e s"
  by (auto simp: piece_at_def find_Some_iff)

lemma piece_at_None_iff: "piece_at es s = None \<longleftrightarrow> (\<forall>e \<in> set es. e \<noteq> [] \<longrightarrow> \<not> prefix e s)"
  by (auto simp: piece_at_def find_None_iff)

function strip :: "string list \<Rightarrow> string \<Rightarrow> string" where
  "strip es s = (case piece_at es s of None \<Rightarrow> s | Some e \<Rightarrow> strip es (drop (length e) s))"
  by pat_completeness auto
termination
  by (relation "measure (length \<circ> snd)") (auto dest!: piece_at_SomeD elim!: prefixE)

declare strip.simps [simp del]

definition trim_space :: "string \<Rightarrow> string" where
  "trim_space s = rev (strip (map rev unicode_spaces) (rev (strip unicode_spaces s)))"

text \<open>\<open>strings.Fields\<close>: a word ends where white space starts.\<close>

fun word :: "string \<Rightarrow> string \<times> string" where
  "word [] = ([], [])"
| "word (c # cs) =
     (if piece_at unicode_spaces (c # cs) \<noteq> None then ([], c # cs)
      else (let (u, v) = word cs in (c # u, v)))"

lemma word_length: "length (snd (word s)) \<le> length s"
  by (induction s) (auto simp: Let_def split: prod.splits)

lemma strip_at_rest: "piece_at es (strip es s) = None"
  by (induction es s rule: strip.induct) (subst strip.simps, auto split: option.splits)

lemma strip_None: "piece_at es s = None \<Longrightarrow> strip es s = s"
  by (subst strip.simps) simp

lemma strip_length: "length (strip es s) \<le> length s"
proof (induction es s rule: strip.induct)
  case (1 es s)
  show ?case
  proof (cases "piece_at es s")
    case (Some e)
    with 1 [OF Some] show ?thesis by (subst strip.simps) simp
  qed (simp add: strip_None)
qed

function fields :: "string \<Rightarrow> string list" where
  "fields s =
     (let t = strip unicode_spaces s
      in if t = [] then [] else fst (word t) # fields (snd (word t)))"
  by pat_completeness auto
termination
proof (relation "measure length", goal_cases)
  case (2 s t)
  then obtain c cs where t: "t = c # cs" by (meson list.exhaust)
  with 2 strip_at_rest [of unicode_spaces s] have "piece_at unicode_spaces (c # cs) = None" by simp
  then have "length (snd (word t)) < length t"
    using word_length [of cs] by (auto simp: t Let_def split: prod.splits)
  with 2 strip_length [of unicode_spaces s] show ?case by simp
qed simp

declare fields.simps [simp del]

text \<open>White space only: a sequence of the characters above.\<close>

definition blank :: "string \<Rightarrow> bool" where
  "blank s \<longleftrightarrow> (\<exists>ws. set ws \<subseteq> set unicode_spaces \<and> s = concat ws)"

text \<open>Pieces of which none is a prefix of another are stripped one by one.\<close>

definition prefix_code :: "string list \<Rightarrow> bool" where
  "prefix_code es \<longleftrightarrow> list_all (\<lambda>e. e \<noteq> [] \<and> list_all (\<lambda>f. prefix e f \<longrightarrow> e = f) es) es"

lemma prefix_code_spaces: "prefix_code unicode_spaces" "prefix_code (map rev unicode_spaces)"
  by code_simp+

lemma strip_pieces: "\<exists>ws. set ws \<subseteq> set es \<and> s = concat ws @ strip es s"
proof (induction es s rule: strip.induct)
  case (1 es s)
  show ?case
  proof (cases "piece_at es s")
    case None
    then show ?thesis by (intro exI [of _ "[]"]) (simp add: strip_None)
  next
    case (Some e)
    with piece_at_SomeD [OF Some] obtain ss where s: "s = e @ ss" by (auto elim: prefixE)
    with 1 [OF Some] obtain ws where "set ws \<subseteq> set es" "ss = concat ws @ strip es ss" by auto
    with Some s piece_at_SomeD [OF Some] show ?thesis
      by (intro exI [of _ "e # ws"]) (subst strip.simps, simp)
  qed
qed

lemma strip_append:
  assumes "prefix_code es" and "set ws \<subseteq> set es"
  shows "strip es (concat ws @ s) = strip es s"
  using assms(2)
proof (induction ws)
  case (Cons w ws)
  then have w: "w \<in> set es" "w \<noteq> []" using assms(1) by (auto simp: prefix_code_def list_all_iff)
  obtain e where e: "piece_at es (w @ concat ws @ s) = Some e"
    using w by (cases "piece_at es (w @ concat ws @ s)") (auto simp: piece_at_None_iff)
  from piece_at_SomeD [OF e] have "e \<in> set es" "prefix e (w @ concat ws @ s)" by auto
  moreover from this have "prefix e w \<or> prefix w e"
    by (meson prefix_same_cases prefixI)
  ultimately have "e = w" using w(1) assms(1) by (auto simp: prefix_code_def list_all_iff)
  with e Cons show ?case by (subst strip.simps) simp
qed simp

lemma strip_Nil_iff: "prefix_code es \<Longrightarrow> strip es s = [] \<longleftrightarrow> (\<exists>ws. set ws \<subseteq> set es \<and> s = concat ws)"
proof
  assume "prefix_code es" "\<exists>ws. set ws \<subseteq> set es \<and> s = concat ws"
  then obtain ws where "set ws \<subseteq> set es" "s = concat ws" by auto
  with strip_append [OF \<open>prefix_code es\<close>, of ws "[]"] have "strip es s = strip es []" by simp
  also have "\<dots> = []" by (rule strip_None) (auto simp: piece_at_None_iff)
  finally show "strip es s = []" .
qed (metis append_Nil2 strip_pieces)

lemma fields_eq_Nil_iff: "fields s = [] \<longleftrightarrow> blank s"
  using strip_Nil_iff [OF prefix_code_spaces(1), of s]
  by (subst fields.simps) (simp add: Let_def blank_def)

lemma trim_space_part:
  obtains ws where "strip unicode_spaces s = trim_space s @ concat ws" "set ws \<subseteq> set unicode_spaces"
proof -
  obtain vs where vs: "set vs \<subseteq> set (map rev unicode_spaces)"
      "rev (strip unicode_spaces s) =
         concat vs @ strip (map rev unicode_spaces) (rev (strip unicode_spaces s))"
    using strip_pieces by blast
  from vs(2) have "strip unicode_spaces s = trim_space s @ concat (rev (map rev vs))"
    by (metis rev_append rev_concat rev_map rev_rev_ident trim_space_def)
  with vs(1) show thesis by (intro that [of "rev (map rev vs)"]) auto
qed

lemma trim_space_at_rest: "trim_space s \<noteq> [] \<Longrightarrow> piece_at unicode_spaces (trim_space s) = None"
  by (metis piece_at_None_iff prefix_prefix strip_at_rest trim_space_part)

lemma trim_space_Nil_iff: "trim_space s = [] \<longleftrightarrow> blank s"
proof
  assume e: "trim_space s = []"
  obtain ws where "strip unicode_spaces s = concat ws" "set ws \<subseteq> set unicode_spaces"
    using trim_space_part [of s] e by auto
  with strip_append [OF prefix_code_spaces(1), of ws "[]"] strip_at_rest [of unicode_spaces s]
  have "strip unicode_spaces s = strip unicode_spaces []" by (simp add: strip_None)
  then have "strip unicode_spaces s = []" by (simp add: strip_None piece_at_None_iff)
  then show "blank s" by (simp add: strip_Nil_iff [OF prefix_code_spaces(1)] blank_def)
next
  assume "blank s"
  then have "strip unicode_spaces s = []" by (simp add: strip_Nil_iff [OF prefix_code_spaces(1)] blank_def)
  then show "trim_space s = []" by (simp add: trim_space_def strip_None piece_at_None_iff)
qed

lemma trimmed_fields: "trim_space s \<noteq> [] \<Longrightarrow> fields (trim_space s) \<noteq> []"
  by (subst fields.simps) (simp add: strip_None trim_space_at_rest Let_def)

text \<open>Visible ASCII characters: no encoding of white space starts or ends with one.\<close>

definition visible :: "char \<Rightarrow> bool" where
  "visible c \<longleftrightarrow> 33 \<le> (of_char c :: nat) \<and> (of_char c :: nat) \<le> 126"

lemma is_digit_visible: "is_digit c \<Longrightarrow> visible c"
  by (auto simp: is_digit_def visible_def)

lemma spaces_invisible:
  "list_all (\<lambda>e. \<not> visible (hd e)) unicode_spaces" "list_all (\<lambda>e. \<not> visible (hd e)) (map rev unicode_spaces)"
  by code_simp+

lemma visible_no_piece:
  assumes "visible c"
  shows "piece_at unicode_spaces (c # cs) = None" "piece_at (map rev unicode_spaces) (c # cs) = None"
proof -
  have "\<not> prefix e (c # cs)" if "e \<noteq> []" "\<not> visible (hd e)" for e
    using that assms by (cases e) auto
  then show "piece_at unicode_spaces (c # cs) = None" "piece_at (map rev unicode_spaces) (c # cs) = None"
    using spaces_invisible unfolding piece_at_None_iff list_all_iff by blast+
qed

lemma strip_visible: "visible c \<Longrightarrow> strip unicode_spaces (c # cs) = c # cs"
  by (simp add: strip_None visible_no_piece)

lemma strip_space: "strip unicode_spaces (CHR '' '' # s) = strip unicode_spaces s"
  using strip_append [OF prefix_code_spaces(1), of "['' '']" s] by (simp add: unicode_spaces_def)

lemma trim_line:
  assumes "u \<noteq> []" and "visible (hd u)" and "visible (last u)"
  shows "trim_space (u @ [CHR 0x0A]) = u"
proof -
  have "strip unicode_spaces (u @ [CHR 0x0A]) = u @ [CHR 0x0A]"
    using assms by (cases u) (auto simp: strip_visible)
  moreover have "strip (map rev unicode_spaces) (CHR 0x0A # rev u) = strip (map rev unicode_spaces) (rev u)"
    using strip_append [OF prefix_code_spaces(2), of "[[CHR 0x0A]]" "rev u"] by (simp add: unicode_spaces_def)
  moreover have "strip (map rev unicode_spaces) (rev u) = rev u"
  proof -
    obtain us where u: "rev u = last u # us" using assms(1) by (metis hd_rev list.collapse rev_is_Nil_conv)
    show ?thesis unfolding u by (rule strip_None) (rule visible_no_piece(2) [OF assms(3)])
  qed
  ultimately show ?thesis by (simp add: trim_space_def)
qed

lemma word_visible: "list_all visible u \<Longrightarrow> word u = (u, [])"
  by (induction u) (auto simp: visible_no_piece)

lemma word_visible_space: "list_all visible u \<Longrightarrow> word (u @ CHR '' '' # v) = (u, CHR '' '' # v)"
  by (induction u) (auto simp: visible_no_piece piece_at_None_iff unicode_spaces_def [symmetric],
      auto simp: unicode_spaces_def)

lemma fields_one:
  assumes "u \<noteq> []" and "list_all visible u"
  shows "fields u = [u]"
proof -
  have "strip unicode_spaces u = u" using assms by (cases u) (auto simp: strip_visible)
  moreover have "fields [] = []" by (subst fields.simps) (simp add: strip_None piece_at_None_iff)
  ultimately show ?thesis using assms by (subst fields.simps) (simp add: word_visible Let_def)
qed

lemma fields_two:
  assumes "u \<noteq> []" and "list_all visible u" and "v \<noteq> []" and "list_all visible v"
  shows "fields (u @ CHR '' '' # v) = [u, v]"
proof -
  have "strip unicode_spaces (u @ CHR '' '' # v) = u @ CHR '' '' # v"
    using assms by (cases u) (auto simp: strip_visible)
  moreover have "fields (CHR '' '' # v) = fields v"
    by (subst (1 2) fields.simps) (simp add: strip_space)
  ultimately show ?thesis using assms fields_one [OF assms(3,4)]
    by (subst fields.simps) (simp add: word_visible_space Let_def)
qed

section \<open>Case folding\<close>

definition lower_char :: "char \<Rightarrow> char" where
  "lower_char c = (let n = (of_char c :: nat) in if 65 \<le> n \<and> n \<le> 90 then char_of (n + 32) else c)"

definition upper_char :: "char \<Rightarrow> char" where
  "upper_char c = (let n = (of_char c :: nat) in if 97 \<le> n \<and> n \<le> 122 then char_of (n - 32) else c)"

definition equal_fold :: "string \<Rightarrow> string \<Rightarrow> bool" where
  "equal_fold s t \<longleftrightarrow> map lower_char s = map lower_char t"

section \<open>Paths\<close>

fun split_on :: "char \<Rightarrow> string \<Rightarrow> string list" where
  "split_on sep [] = [[]]"
| "split_on sep (c # cs) =
     (if c = sep then [] # split_on sep cs
      else (case split_on sep cs of p # ps \<Rightarrow> (c # p) # ps | [] \<Rightarrow> [[c]]))"

fun join_with :: "string \<Rightarrow> string list \<Rightarrow> string" where
  "join_with sep [] = []"
| "join_with sep [p] = p"
| "join_with sep (p # q # ps) = p @ sep @ join_with sep (q # ps)"

definition is_abs :: "string \<Rightarrow> bool" where
  "is_abs p \<longleftrightarrow> has_prefix p ''/''"

text \<open>
  \<open>filepath.Clean\<close>: drop empty and \<open>.\<close> elements, let \<open>..\<close> cancel the element before it
  (or vanish at the root), and write \<open>.\<close> for the empty path. \<open>clean_step\<close> keeps the
  elements seen so far in reverse.
\<close>

fun clean_step :: "bool \<Rightarrow> string list \<Rightarrow> string \<Rightarrow> string list" where
  "clean_step rooted out e =
     (if e = [] \<or> e = ''.'' then out
      else if e = ''..'' then
        (case out of
           [] \<Rightarrow> if rooted then [] else [''..'']
         | o1 # os \<Rightarrow> if o1 = ''..'' then ''..'' # out else os)
      else e # out)"

definition path_clean :: "string \<Rightarrow> string" where
  "path_clean p =
     (let rooted = is_abs p;
          es = rev (foldl (clean_step rooted) [] (split_on (CHR ''/'') p));
          body = join_with ''/'' es
      in if rooted then CHR ''/'' # body else if body = [] then ''.'' else body)"

definition path_join :: "string \<Rightarrow> string \<Rightarrow> string" where
  "path_join a b =
     (if a = [] \<and> b = [] then []
      else if a = [] then path_clean b
      else path_clean (a @ ''/'' @ b))"

text \<open>\<open>filepath.Base\<close>: the last element, after trailing slashes are removed.\<close>

definition path_base :: "string \<Rightarrow> string" where
  "path_base p =
     (if p = [] then ''.''
      else let q = rev (dropWhile (\<lambda>c. c = CHR ''/'') (rev p))
           in if q = [] then ''/''
              else rev (takeWhile (\<lambda>c. c \<noteq> CHR ''/'') (rev q)))"

lemma path_base_nonempty: "path_base p \<noteq> []"
proof (cases "dropWhile (\<lambda>c. c = CHR ''/'') (rev p)")
  case Nil
  then show ?thesis by (simp add: path_base_def)
next
  case (Cons c cs)
  then have "c \<noteq> CHR ''/''"
    using hd_dropWhile [of "\<lambda>c. c = CHR ''/''" "rev p"] by simp
  with Cons show ?thesis by (simp add: path_base_def Let_def)
qed

lemma path_base_no_slash: "path_base p \<noteq> ''/'' \<Longrightarrow> CHR ''/'' \<notin> set (path_base p)"
  by (auto simp: path_base_def Let_def dest: set_takeWhileD split: if_splits)

end
