(* ===== verification/Go_Http.thy ===== *)
theory Go_Http
  imports Go_Strings
begin

text \<open>
  The parts of Go's \<open>io\<close> and \<open>net/http\<close> that the program relies on: readers as byte
  streams, and \<open>http.Header\<close> with its canonical keys. A header is an association list
  with distinct keys, in the order in which \<open>range\<close> visits the map. The locale
  \<open>header_store\<close> states what a client of a header may rely on; it is interpreted on
  the model of \<open>http.Header\<close>.
\<close>

section \<open>Readers\<close>

text \<open>
  An \<open>io.Reader\<close> is the bytes it still delivers and how it ends: \<open>None\<close> for \<open>io.EOF\<close>,
  \<open>Some e\<close> for the error that a read after the last byte returns.
\<close>

record reader =
  rdata :: bytes
  rend :: "gerr option"

definition bytes_reader :: "bytes \<Rightarrow> reader" where
  "bytes_reader b = \<lparr>rdata = b, rend = None\<rparr>"

text \<open>\<open>io.ReadAll\<close> and \<open>io.Copy\<close> into a buffer: everything, or the error at the end.\<close>

definition read_all :: "reader \<Rightarrow> gerr + bytes" where
  "read_all r = (case rend r of None \<Rightarrow> Inr (rdata r) | Some e \<Rightarrow> Inl e)"

text \<open>
  \<open>io.LimitReader(r, n)\<close> and what is left in \<open>r\<close> once it has been read to its end. Once
  the limit is reached, \<open>r\<close> is not read again, so its own end is not seen.
\<close>

definition limit_reader :: "reader \<Rightarrow> int \<Rightarrow> reader" where
  "limit_reader r n =
     (if int (length (rdata r)) < n then r else \<lparr>rdata = take (nat n) (rdata r), rend = None\<rparr>)"

definition after_limit :: "reader \<Rightarrow> int \<Rightarrow> reader" where
  "after_limit r n = r\<lparr>rdata := drop (nat n) (rdata r)\<rparr>"

definition multi_reader :: "reader \<Rightarrow> reader \<Rightarrow> reader" where
  "multi_reader a b =
     (case rend a of None \<Rightarrow> \<lparr>rdata = rdata a @ rdata b, rend = rend b\<rparr> | Some _ \<Rightarrow> a)"

lemma rdata_bytes_reader [simp]: "rdata (bytes_reader b) = b" "rend (bytes_reader b) = None"
  by (simp_all add: bytes_reader_def)

lemma read_all_bytes_reader [simp]: "read_all (bytes_reader b) = Inr b"
  by (simp add: read_all_def bytes_reader_def)

lemma rejoin_after_limit:
  "multi_reader (bytes_reader (take (nat n) (rdata r))) (after_limit r n) = r"
  by (simp add: multi_reader_def bytes_reader_def after_limit_def)

section \<open>Headers\<close>

type_synonym header = "(string \<times> string list) list"

definition is_alnum :: "char \<Rightarrow> bool" where
  "is_alnum c \<longleftrightarrow>
     (let n = (of_char c :: nat)
      in (48 \<le> n \<and> n \<le> 57) \<or> (65 \<le> n \<and> n \<le> 90) \<or> (97 \<le> n \<and> n \<le> 122))"

definition token_char :: "char \<Rightarrow> bool" where
  "token_char c \<longleftrightarrow> is_alnum c \<or> List.member (''!#$%&*+-.^_|~'' @ [CHR 0x27, CHR 0x60]) c"

text \<open>
  \<open>textproto.CanonicalMIMEHeaderKey\<close>: upper case at the start and after each hyphen, lower
  case elsewhere; a key with a byte that no token has is left alone.
\<close>

fun canon :: "bool \<Rightarrow> string \<Rightarrow> string" where
  "canon up [] = []"
| "canon up (c # cs) = (if up then upper_char c else lower_char c) # canon (c = CHR ''-'') cs"

definition canonical_key :: "string \<Rightarrow> string" where
  "canonical_key k = (if list_all token_char k then canon True k else k)"

definition hvalues :: "header \<Rightarrow> string \<Rightarrow> string list" where
  "hvalues h k = (case map_of h (canonical_key k) of None \<Rightarrow> [] | Some vs \<Rightarrow> vs)"

definition hget :: "header \<Rightarrow> string \<Rightarrow> string" where
  "hget h k = (case hvalues h k of [] \<Rightarrow> [] | v # _ \<Rightarrow> v)"

definition hset :: "header \<Rightarrow> string \<Rightarrow> string \<Rightarrow> header" where
  "hset h k v = AList.update (canonical_key k) [v] h"

definition hadd :: "header \<Rightarrow> string \<Rightarrow> string \<Rightarrow> header" where
  "hadd h k v = AList.update (canonical_key k) (hvalues h k @ [v]) h"

definition hdel :: "header \<Rightarrow> string \<Rightarrow> header" where
  "hdel h k = AList.delete (canonical_key k) h"

definition same_key :: "string \<Rightarrow> string \<Rightarrow> bool" where
  "same_key j k \<longleftrightarrow> canonical_key j = canonical_key k"

text \<open>What a client may rely on: a key reads as it was last written, other keys are untouched.\<close>

locale header_store =
  fixes get :: "'h \<Rightarrow> string \<Rightarrow> string"
    and set1 :: "'h \<Rightarrow> string \<Rightarrow> string \<Rightarrow> 'h"
    and del :: "'h \<Rightarrow> string \<Rightarrow> 'h"
    and eqv :: "string \<Rightarrow> string \<Rightarrow> bool"
  assumes get_set: "eqv j k \<Longrightarrow> get (set1 h j v) k = v"
    and get_set_other: "\<not> eqv j k \<Longrightarrow> get (set1 h j v) k = get h k"
    and get_del: "eqv j k \<Longrightarrow> get (del h j) k = []"
    and get_del_other: "\<not> eqv j k \<Longrightarrow> get (del h j) k = get h k"
begin

lemma get_set_cases: "get (set1 h j v) k = (if eqv j k then v else get h k)"
  by (simp add: get_set get_set_other)

lemma get_del_cases: "get (del h j) k = (if eqv j k then [] else get h k)"
  by (simp add: get_del get_del_other)

text \<open>Drop one key, set a second, drop a third, as a body rewrite does.\<close>

lemma get_rewritten:
  "get (del (set1 (del h a) b v) c) k =
     (if eqv c k then [] else if eqv b k then v else if eqv a k then [] else get h k)"
  by (simp add: get_set_cases get_del_cases)

end

interpretation http_hdr: header_store hget hset hdel same_key
proof unfold_locales
  fix j k v and h :: header
  show "same_key j k \<Longrightarrow> hget (hset h j v) k = v"
    by (simp add: hget_def hset_def hvalues_def same_key_def update_conv')
  show "\<not> same_key j k \<Longrightarrow> hget (hset h j v) k = hget h k"
    by (simp add: hget_def hset_def hvalues_def same_key_def update_conv')
  show "same_key j k \<Longrightarrow> hget (hdel h j) k = []"
    by (simp add: hget_def hdel_def hvalues_def same_key_def delete_conv')
  show "\<not> same_key j k \<Longrightarrow> hget (hdel h j) k = hget h k"
    by (simp add: hget_def hdel_def hvalues_def same_key_def delete_conv')
qed

lemmas [header_simps] = http_hdr.get_set_cases http_hdr.get_del_cases

lemma hvalues_hadd:
  "hvalues (hadd h j v) k = (if same_key j k then hvalues h k @ [v] else hvalues h k)"
  by (auto simp: hvalues_def hadd_def same_key_def update_conv')

text \<open>The loop that copies one header onto another with \<open>Add\<close>, as the proxy does.\<close>

fun add_values :: "header \<Rightarrow> string \<Rightarrow> string list \<Rightarrow> header" where
  "add_values h k [] = h"
| "add_values h k (v # vs) = add_values (hadd h k v) k vs"

fun add_headers :: "header \<Rightarrow> header \<Rightarrow> header" where
  "add_headers h [] = h"
| "add_headers h ((k, vs) # rest) = add_headers (add_values h k vs) rest"

text \<open>A header whose keys are canonical and distinct, as every header read from the wire is.\<close>

definition canonical_header :: "header \<Rightarrow> bool" where
  "canonical_header h \<longleftrightarrow> wf_alist h \<and> (\<forall>(k, vs) \<in> set h. canonical_key k = k)"

lemma same_key_sym: "same_key j k \<longleftrightarrow> same_key k j"
  by (auto simp: same_key_def)

lemma same_key_refl [simp]: "same_key k k"
  by (simp add: same_key_def)

lemma hvalues_add_values:
  "hvalues (add_values h j vs) k = (if same_key j k then hvalues h k @ vs else hvalues h k)"
  by (induction h j vs rule: add_values.induct) (auto simp: hvalues_hadd)

lemma hvalues_add_headers:
  "hvalues (add_headers h src) k =
     hvalues h k @ concat (map snd (filter (\<lambda>(j, vs). same_key j k) src))"
  by (induction h src rule: add_headers.induct) (auto simp: hvalues_add_values)

lemma filter_same_key_canonical:
  assumes "canonical_header src"
  shows "concat (map snd (filter (\<lambda>(j, vs). same_key j k) src)) = hvalues src k"
  using assms
proof (induction src)
  case Nil
  then show ?case by (simp add: hvalues_def)
next
  case (Cons e src)
  obtain j vs where e: "e = (j, vs)" by force
  from Cons.prems have tl: "canonical_header src"
    and cj: "canonical_key j = j" and fresh: "j \<notin> fst ` set src"
    by (auto simp: canonical_header_def wf_alist_def e)
  show ?case
  proof (cases "j = canonical_key k")
    case True
    have "filter (\<lambda>(i, vs). same_key i k) src = []"
      using tl fresh True by (force simp: filter_empty_conv same_key_def canonical_header_def)
    with True cj show ?thesis by (simp add: e same_key_def hvalues_def)
  next
    case False
    with Cons.IH [OF tl] cj show ?thesis by (simp add: e same_key_def hvalues_def)
  qed
qed

lemma hvalues_add_headers_canonical:
  "canonical_header src \<Longrightarrow> hvalues (add_headers h src) k = hvalues h k @ hvalues src k"
  by (simp add: hvalues_add_headers filter_same_key_canonical)

text \<open>Two headers with the same values, in the same order, under every name.\<close>

definition same_values :: "header \<Rightarrow> header \<Rightarrow> bool" where
  "same_values h g \<longleftrightarrow> (\<forall>k. hvalues h k = hvalues g k)"

lemma same_values_copied: "canonical_header h \<Longrightarrow> same_values (add_headers [] h) h"
  by (simp add: same_values_def hvalues_add_headers_canonical) (simp add: hvalues_def)

section \<open>Requests and responses\<close>

record http_request =
  hq_method :: string
  hq_url :: string
  hq_header :: header
  hq_body :: reader

record http_response =
  hp_status :: int
  hp_status_text :: string
  hp_header :: header
  hp_close :: bool
  hp_body :: reader

end
