(* ===== verification/Go_World.thy ===== *)
theory Go_World
  imports Go_Http
begin

text \<open>
  The operating system as the program sees it: files, open handles, the terminal and the
  network. Every call to the system consults a fault schedule (\<open>fault\<close>, indexed by a
  clock that each call advances), so that a theorem holds for every pattern of failing
  calls. Code that is not in the repository (the plist library, the zip and gzip
  decoders applied to bytes from the network, the servers) is a field of \<open>env\<close>.

  The locale \<open>file_store\<close> is the contract of the file operations when no call fails; the
  replace-by-rename argument is proved in it once.
\<close>

section \<open>Archives\<close>

text \<open>
  A zip entry is its name and either the raw header and compressed bytes it had in the
  archive it was read from, or the data that was written to it after \<open>Writer.Create\<close>, or
  what is left when copying its data failed half way.
\<close>

datatype zpayload = RawEntry string bytes | FreshEntry bytes | TornEntry

record zentry =
  zname :: string
  zpayload :: zpayload

text \<open>
  The content of a file: bytes, an archive that \<open>zip.Writer.Close\<close> completed, or an
  archive whose central directory is missing because that call failed.
\<close>

datatype content = Bytes bytes | Zipped "zentry list" | TornZip

datatype node = DirNode | FileNode content

section \<open>Metadata\<close>

text \<open>
  A value of a property list, by the dynamic Go type the plist library gives it in an
  \<open>interface{}\<close>.
\<close>

datatype pval =
    PString string
  | PUInt uint64
  | PInt int64
  | PReal string
  | PBool bool
  | PData bytes
  | PDate string
  | PArray "pval list"
  | PDict "(string \<times> pval) list"

section \<open>The world\<close>

record world =
  nodes :: "string \<Rightarrow> node option"
  handles :: "string list"
  stdout :: "string list"
  tick :: nat

record env =
  fault :: "nat \<Rightarrow> (string \<times> nat) option"
  respond :: "nat \<Rightarrow> http_request \<Rightarrow> gerr + http_response"
  bad_request :: "string \<Rightarrow> string \<Rightarrow> gerr option"
  gunzip :: "bytes \<Rightarrow> gerr + bytes"
  parse_zip :: "bytes \<Rightarrow> gerr + zentry list"
  inflate :: "string \<Rightarrow> bytes \<Rightarrow> gerr + bytes"

definition sys :: "env \<Rightarrow> world \<Rightarrow> (gerr \<times> nat) option \<times> world" where
  "sys E w = (map_option (map_prod EMsg id) (fault E (tick w)), w\<lparr>tick := Suc (tick w)\<rparr>)"

definition print :: "string \<Rightarrow> world \<Rightarrow> world" where
  "print s w = w\<lparr>stdout := stdout w @ [s]\<rparr>"

definition println :: "string \<Rightarrow> world \<Rightarrow> world" where
  "println s = print (s @ [CHR 0x0A])"

definition os_stat :: "env \<Rightarrow> string \<Rightarrow> world \<Rightarrow> (gerr + node) \<times> world" where
  "os_stat E p w =
     (case sys E w of
        (Some (e, _), w1) \<Rightarrow> (Inl e, w1)
      | (None, w1) \<Rightarrow> (case nodes w1 p of None \<Rightarrow> Inl (ENotExist p) | Some n \<Rightarrow> Inr n, w1))"

text \<open>\<open>os.Create\<close>: truncate or make the file and open a handle on it.\<close>

definition os_create :: "env \<Rightarrow> string \<Rightarrow> world \<Rightarrow> gerr option \<times> world" where
  "os_create E p w =
     (case sys E w of
        (Some (e, _), w1) \<Rightarrow> (Some e, w1)
      | (None, w1) \<Rightarrow>
          if nodes w1 p = Some DirNode then (Some (EMsg ''is a directory''), w1)
          else (None, w1\<lparr>nodes := (nodes w1)(p \<mapsto> FileNode (Bytes [])), handles := p # handles w1\<rparr>))"

definition close_handle :: "string \<Rightarrow> world \<Rightarrow> world" where
  "close_handle p w = w\<lparr>handles := remove1 p (handles w)\<rparr>"

text \<open>
  Writing to an open file. A failing write has stored a prefix of the data: the second
  component of the fault says how many bytes.
\<close>

definition append_bytes :: "string \<Rightarrow> bytes \<Rightarrow> world \<Rightarrow> world" where
  "append_bytes p d w =
     (case nodes w p of
        Some (FileNode (Bytes b)) \<Rightarrow> w\<lparr>nodes := (nodes w)(p \<mapsto> FileNode (Bytes (b @ d)))\<rparr>
      | _ \<Rightarrow> w)"

definition file_write :: "env \<Rightarrow> string \<Rightarrow> bytes \<Rightarrow> world \<Rightarrow> gerr option \<times> world" where
  "file_write E p d w =
     (case sys E w of
        (Some (e, k), w1) \<Rightarrow> (Some e, append_bytes p (take k d) w1)
      | (None, w1) \<Rightarrow> (None, append_bytes p d w1))"

definition os_read_file :: "env \<Rightarrow> string \<Rightarrow> world \<Rightarrow> (gerr + content) \<times> world" where
  "os_read_file E p w =
     (case sys E w of
        (Some (e, _), w1) \<Rightarrow> (Inl e, w1)
      | (None, w1) \<Rightarrow>
          (case nodes w1 p of
             None \<Rightarrow> Inl (ENotExist p)
           | Some DirNode \<Rightarrow> Inl (EMsg ''is a directory'')
           | Some (FileNode c) \<Rightarrow> Inr c, w1))"

text \<open>\<open>os.WriteFile\<close>: create, write, close.\<close>

definition os_write_file :: "env \<Rightarrow> string \<Rightarrow> bytes \<Rightarrow> world \<Rightarrow> gerr option \<times> world" where
  "os_write_file E p d w =
     (case os_create E p w of
        (Some e, w1) \<Rightarrow> (Some e, w1)
      | (None, w1) \<Rightarrow> (case file_write E p d w1 of (r, w2) \<Rightarrow> (r, close_handle p w2)))"

definition os_mkdir_all :: "env \<Rightarrow> string \<Rightarrow> world \<Rightarrow> gerr option \<times> world" where
  "os_mkdir_all E p w =
     (case sys E w of
        (Some (e, _), w1) \<Rightarrow> (Some e, w1)
      | (None, w1) \<Rightarrow>
          (case nodes w1 p of
             Some (FileNode _) \<Rightarrow> (Some (EMsg ''not a directory''), w1)
           | _ \<Rightarrow> (None, w1\<lparr>nodes := (nodes w1)(p \<mapsto> DirNode)\<rparr>)))"

definition os_remove :: "env \<Rightarrow> string \<Rightarrow> world \<Rightarrow> gerr option \<times> world" where
  "os_remove E p w =
     (case sys E w of
        (Some (e, _), w1) \<Rightarrow> (Some e, w1)
      | (None, w1) \<Rightarrow>
          (case nodes w1 p of
             None \<Rightarrow> (Some (ENotExist p), w1)
           | Some _ \<Rightarrow> (None, w1\<lparr>nodes := (nodes w1)(p := None)\<rparr>)))"

definition os_rename :: "env \<Rightarrow> string \<Rightarrow> string \<Rightarrow> world \<Rightarrow> gerr option \<times> world" where
  "os_rename E old new w =
     (case sys E w of
        (Some (e, _), w1) \<Rightarrow> (Some e, w1)
      | (None, w1) \<Rightarrow>
          (case nodes w1 old of
             None \<Rightarrow> (Some (ENotExist old), w1)
           | Some n \<Rightarrow> (None, w1\<lparr>nodes := (nodes w1)(old := None, new \<mapsto> n)\<rparr>)))"

text \<open>\<open>http.Client.Do\<close>: one request to the network.\<close>

definition client_do :: "env \<Rightarrow> http_request \<Rightarrow> world \<Rightarrow> (gerr + http_response) \<times> world" where
  "client_do E q w = (respond E (tick w) q, w\<lparr>tick := Suc (tick w)\<rparr>)"

text \<open>\<open>http.NewRequest\<close>: the method and the URL are parsed, the header starts empty.\<close>

definition new_request :: "env \<Rightarrow> string \<Rightarrow> string \<Rightarrow> reader \<Rightarrow> gerr + http_request" where
  "new_request E m u b =
     (case bad_request E m u of
        Some e \<Rightarrow> Inl e
      | None \<Rightarrow> Inr \<lparr>hq_method = m, hq_url = u, hq_header = [], hq_body = b\<rparr>)"

section \<open>Frame equations\<close>

lemma sys_world [world_simps]:
  "nodes (snd (sys E w)) = nodes w" "handles (snd (sys E w)) = handles w"
  "stdout (snd (sys E w)) = stdout w" "tick (snd (sys E w)) = Suc (tick w)"
  by (simp_all add: sys_def)

lemma print_world [world_simps]:
  "nodes (print s w) = nodes w" "handles (print s w) = handles w"
  "stdout (print s w) = stdout w @ [s]" "tick (print s w) = tick w"
  by (simp_all add: print_def)

lemma println_world [simp]:
  "nodes (println s w) = nodes w" "handles (println s w) = handles w" "tick (println s w) = tick w"
  by (simp_all add: println_def world_simps)

lemma close_handle_world [world_simps]:
  "nodes (close_handle p w) = nodes w" "stdout (close_handle p w) = stdout w"
  "tick (close_handle p w) = tick w" "handles (close_handle p w) = remove1 p (handles w)"
  by (simp_all add: close_handle_def)

lemma append_bytes_world [world_simps]:
  "handles (append_bytes p d w) = handles w" "stdout (append_bytes p d w) = stdout w"
  "tick (append_bytes p d w) = tick w"
  "q \<noteq> p \<Longrightarrow> nodes (append_bytes p d w) q = nodes w q"
  by (auto simp: append_bytes_def split: option.splits node.splits content.splits)

lemma client_do_world [world_simps]:
  "nodes (snd (client_do E q w)) = nodes w" "handles (snd (client_do E q w)) = handles w"
  "stdout (snd (client_do E q w)) = stdout w"
  by (simp_all add: client_do_def)

lemma os_stat_world [world_simps]:
  "nodes (snd (os_stat E p w)) = nodes w" "handles (snd (os_stat E p w)) = handles w"
  "stdout (snd (os_stat E p w)) = stdout w"
  by (simp_all add: os_stat_def sys_def split: option.splits prod.splits)

lemma os_read_file_world [world_simps]:
  "nodes (snd (os_read_file E p w)) = nodes w" "handles (snd (os_read_file E p w)) = handles w"
  "stdout (snd (os_read_file E p w)) = stdout w"
  by (simp_all add: os_read_file_def sys_def split: option.splits prod.splits node.splits)

lemma os_create_world [world_simps]:
  "stdout (snd (os_create E p w)) = stdout w"
  "q \<noteq> p \<Longrightarrow> nodes (snd (os_create E p w)) q = nodes w q"
  "handles (snd (os_create E p w)) = (if fst (os_create E p w) = None then [p] else []) @ handles w"
  by (auto simp: os_create_def sys_def split: option.splits prod.splits)

lemma os_create_NoneD:
  "os_create E p w = (None, w1) \<Longrightarrow>
     nodes w1 = (nodes w)(p \<mapsto> FileNode (Bytes [])) \<and> handles w1 = p # handles w \<and>
     stdout w1 = stdout w"
  by (auto simp: os_create_def sys_def split: option.splits prod.splits if_splits)

lemma os_create_SomeD:
  "os_create E p w = (Some e, w1) \<Longrightarrow>
     nodes w1 = nodes w \<and> handles w1 = handles w \<and> stdout w1 = stdout w"
  by (auto simp: os_create_def sys_def split: option.splits prod.splits if_splits)

lemma file_write_world [world_simps]:
  "handles (snd (file_write E p d w)) = handles w"
  "stdout (snd (file_write E p d w)) = stdout w"
  "q \<noteq> p \<Longrightarrow> nodes (snd (file_write E p d w)) q = nodes w q"
  by (auto simp: file_write_def sys_def append_bytes_def
      split: option.splits prod.splits node.splits content.splits)

lemma file_write_ok:
  assumes "nodes w p = Some (FileNode (Bytes b))" and "file_write E p d w = (None, w1)"
  shows "nodes w1 = (nodes w)(p \<mapsto> FileNode (Bytes (b @ d))) \<and> handles w1 = handles w"
  using assms by (auto simp: file_write_def sys_def append_bytes_def split: option.splits prod.splits)

lemma os_mkdir_all_world [world_simps]:
  "handles (snd (os_mkdir_all E p w)) = handles w"
  "stdout (snd (os_mkdir_all E p w)) = stdout w"
  "q \<noteq> p \<Longrightarrow> nodes (snd (os_mkdir_all E p w)) q = nodes w q"
  by (auto simp: os_mkdir_all_def sys_def split: option.splits prod.splits node.splits)

lemma os_remove_world [world_simps]:
  "handles (snd (os_remove E p w)) = handles w"
  "stdout (snd (os_remove E p w)) = stdout w"
  "q \<noteq> p \<Longrightarrow> nodes (snd (os_remove E p w)) q = nodes w q"
  by (auto simp: os_remove_def sys_def split: option.splits prod.splits)

lemma os_remove_NoneD:
  "os_remove E p w = (None, w1) \<Longrightarrow> nodes w1 = (nodes w)(p := None) \<and> handles w1 = handles w"
  by (auto simp: os_remove_def sys_def split: option.splits prod.splits)

lemma os_remove_SomeD:
  "os_remove E p w = (Some e, w1) \<Longrightarrow> nodes w1 = nodes w \<and> handles w1 = handles w"
  by (auto simp: os_remove_def sys_def split: option.splits prod.splits)

lemma os_rename_world [world_simps]:
  "handles (snd (os_rename E p q w)) = handles w"
  "stdout (snd (os_rename E p q w)) = stdout w"
  by (auto simp: os_rename_def sys_def split: option.splits prod.splits)

lemma os_rename_NoneD:
  "os_rename E old new w = (None, w1) \<Longrightarrow>
     (\<exists>n. nodes w old = Some n \<and> nodes w1 = (nodes w)(old := None, new \<mapsto> n))"
  by (auto simp: os_rename_def sys_def split: option.splits prod.splits)

lemma os_rename_SomeD:
  "os_rename E old new w = (Some e, w1) \<Longrightarrow> nodes w1 = nodes w"
  by (auto simp: os_rename_def sys_def split: option.splits prod.splits)

lemma os_write_file_world [world_simps]:
  "handles (snd (os_write_file E p d w)) = handles w"
  "stdout (snd (os_write_file E p d w)) = stdout w"
  "q \<noteq> p \<Longrightarrow> nodes (snd (os_write_file E p d w)) q = nodes w q"
proof -
  obtain r wa where a: "os_create E p w = (r, wa)" by force
  have "handles (snd (os_write_file E p d w)) = handles w \<and>
    stdout (snd (os_write_file E p d w)) = stdout w \<and>
    (q \<noteq> p \<longrightarrow> nodes (snd (os_write_file E p d w)) q = nodes w q)" for q
  proof (cases r)
    case (Some e)
    with a os_create_SomeD [of E p w e wa] show ?thesis by (simp add: os_write_file_def)
  next
    case None
    obtain r2 wb where b: "file_write E p d wa = (r2, wb)" by force
    from file_write_world(1,2) [of E p d wa] file_write_world(3) [of q p E d wa] b have "handles wb = handles wa" "stdout wb = stdout wa"
      "q \<noteq> p \<Longrightarrow> nodes wb q = nodes wa q" by simp_all
    with a b None os_create_NoneD [of E p w wa] show ?thesis
      by (simp add: os_write_file_def world_simps)
  qed
  then show "handles (snd (os_write_file E p d w)) = handles w"
    "stdout (snd (os_write_file E p d w)) = stdout w"
    "q \<noteq> p \<Longrightarrow> nodes (snd (os_write_file E p d w)) q = nodes w q" by auto
qed

lemma os_write_file_NoneD:
  assumes "os_write_file E p d w = (None, w1)"
  shows "nodes w1 = (nodes w)(p \<mapsto> FileNode (Bytes d))"
proof -
  from assms obtain wa where a: "os_create E p w = (None, wa)"
    by (auto simp: os_write_file_def split: option.splits prod.splits)
  with assms obtain wb where b: "file_write E p d wa = (None, wb)" and w1: "w1 = close_handle p wb"
    by (auto simp: os_write_file_def split: prod.splits)
  have "nodes wa p = Some (FileNode (Bytes []))" using os_create_NoneD [OF a] by simp
  from file_write_ok [OF this b] os_create_NoneD [OF a] w1 show ?thesis
    by (simp add: close_handle_def)
qed

section \<open>The file contract\<close>

text \<open>
  What a client of the file operations relies on while no call fails: a path holds what was
  last stored or renamed onto it, and no other path changes.
\<close>

locale file_store =
  fixes look :: "'w \<Rightarrow> string \<Rightarrow> node option"
    and remove :: "string \<Rightarrow> 'w \<Rightarrow> 'w option"
    and rename :: "string \<Rightarrow> string \<Rightarrow> 'w \<Rightarrow> 'w option"
  assumes remove_look: "remove p w = Some w1 \<Longrightarrow> look w1 = (look w)(p := None)"
    and rename_look:
      "rename p q w = Some w1 \<Longrightarrow> \<exists>n. look w p = Some n \<and> look w1 = (look w)(p := None, q \<mapsto> n)"
begin

text \<open>Replacing a file by a temporary one: remove it, rename the other onto it.\<close>

lemma replace_by_rename:
  assumes "p \<noteq> t" and "remove p w = Some w1" and "rename t p w1 = Some w2"
  shows "look w2 p = look w t \<and> look w2 t = None \<and> (\<forall>q. q \<noteq> p \<and> q \<noteq> t \<longrightarrow> look w2 q = look w q)"
proof -
  from rename_look [OF assms(3)] obtain n where
    n: "look w1 t = Some n" and w2: "look w2 = (look w1)(t := None, p \<mapsto> n)" by blast
  with remove_look [OF assms(2)] assms(1) show ?thesis by auto
qed

lemma replace_by_rename_source:
  "p \<noteq> t \<Longrightarrow> remove p w = Some w1 \<Longrightarrow> rename t p w1 = Some w2 \<Longrightarrow> look w t \<noteq> None"
  using remove_look [of p w w1] rename_look [of t p w1 w2] by auto

end

definition try_remove :: "env \<Rightarrow> string \<Rightarrow> world \<Rightarrow> world option" where
  "try_remove E p w = (case os_remove E p w of (None, w1) \<Rightarrow> Some w1 | (Some _, _) \<Rightarrow> None)"

definition try_rename :: "env \<Rightarrow> string \<Rightarrow> string \<Rightarrow> world \<Rightarrow> world option" where
  "try_rename E p q w = (case os_rename E p q w of (None, w1) \<Rightarrow> Some w1 | (Some _, _) \<Rightarrow> None)"

interpretation os_files: file_store nodes "try_remove E" "try_rename E" for E
proof unfold_locales
  show "try_remove E p w = Some w1 \<Longrightarrow> nodes w1 = (nodes w)(p := None)" for p w w1
    by (auto simp: try_remove_def split: prod.splits option.splits dest: os_remove_NoneD)
  show "try_rename E p q w = Some w1 \<Longrightarrow>
      \<exists>n. nodes w p = Some n \<and> nodes w1 = (nodes w)(p := None, q \<mapsto> n)" for p q w w1
    by (auto simp: try_rename_def split: prod.splits option.splits dest: os_rename_NoneD)
qed

end
