(* ===== verification/Util.thy ===== *)
theory Util
  imports Go_World
begin

text \<open>
  \<open>ipaversionlib/util.go\<close>: the integer helpers, \<open>fileExists\<close>, the progress counter and
  \<open>DownloadFile\<close>. The lemmas say what a download leaves on disk on each path: a handle is
  never left open, no file but the target changes, and a nil error means that the whole
  body of a 200 response was stored.
\<close>

definition min_go :: "int \<Rightarrow> int \<Rightarrow> int" where
  "min_go x y = (if x < y then x else y)"

definition max_go :: "int \<Rightarrow> int \<Rightarrow> int" where
  "max_go x y = (if x > y then x else y)"

lemma min_go_min [simp]: "min_go x y = min x y"
  by (simp add: min_go_def)

lemma max_go_max [simp]: "max_go x y = max x y"
  by (simp add: max_go_def)

text \<open>\<open>os.Stat\<close> without an error, an error that says the file is missing, any other error.\<close>

definition fileExists :: "env \<Rightarrow> string \<Rightarrow> world \<Rightarrow> (gerr + bool) \<times> world" where
  "fileExists E filename w =
     (case os_stat E filename w of
        (Inr _, w1) \<Rightarrow> (Inr True, w1)
      | (Inl err, w1) \<Rightarrow> (if is_not_exist err then Inr False else Inl err, w1))"

lemma fileExists_world [world_simps]:
  "nodes (snd (fileExists E p w)) = nodes w" "handles (snd (fileExists E p w)) = handles w"
  "stdout (snd (fileExists E p w)) = stdout w"
  using os_stat_world [of E p w] by (auto simp: fileExists_def split: prod.splits sum.splits)

lemma fileExists_Inr:
  "fileExists E p w = (Inr b, w1) \<Longrightarrow> b \<longleftrightarrow> nodes w p \<noteq> None"
  by (auto simp: fileExists_def os_stat_def sys_def split: prod.splits sum.splits option.splits if_splits)

section \<open>The progress counter\<close>

record WriteCounter =
  Total :: int
  Count :: int

definition NewWriteCounter :: "int \<Rightarrow> WriteCounter" where
  "NewWriteCounter len = \<lparr>Total = len, Count = 0\<rparr>"

text \<open>\<open>PrintProgress\<close> ends its line when everything has arrived.\<close>

definition ends_line :: "WriteCounter \<Rightarrow> bool" where
  "ends_line wc \<longleftrightarrow> Count wc = Total wc"

definition counter_write :: "WriteCounter \<Rightarrow> bytes \<Rightarrow> (int \<times> bool) \<times> WriteCounter" where
  "counter_write wc p =
     (let n = int (length p); wc1 = wc\<lparr>Count := Count wc + n\<rparr>
      in ((n, ends_line wc1), wc1))"

fun counter_writes :: "WriteCounter \<Rightarrow> bytes list \<Rightarrow> bool list \<times> WriteCounter" where
  "counter_writes wc [] = ([], wc)"
| "counter_writes wc (p # ps) =
     (case counter_write wc p of
        ((_, b), wc1) \<Rightarrow> (case counter_writes wc1 ps of (bs, wc2) \<Rightarrow> (b # bs, wc2)))"

lemma counter_writes_Cons:
  "counter_writes wc (p # ps) =
     (let wc1 = wc\<lparr>Count := Count wc + int (length p)\<rparr>
      in (ends_line wc1 # fst (counter_writes wc1 ps), snd (counter_writes wc1 ps)))"
  by (simp add: counter_write_def Let_def split: prod.splits)

declare counter_writes.simps(2) [simp del]

lemma counter_writes_Count:
  "Count (snd (counter_writes wc ps)) = Count wc + int (length (concat ps)) \<and>
   Total (snd (counter_writes wc ps)) = Total wc"
  by (induction ps arbitrary: wc) (simp_all add: counter_writes_Cons Let_def)

lemma counter_writes_last:
  "ps \<noteq> [] \<Longrightarrow> last (fst (counter_writes wc ps)) = ends_line (snd (counter_writes wc ps))"
proof (induction ps arbitrary: wc)
  case (Cons p ps)
  have "fst (counter_writes wc1 ps) = [] \<longleftrightarrow> ps = []" for wc1
    by (cases ps) (simp_all add: counter_writes_Cons Let_def)
  with Cons.IH [of "wc\<lparr>Count := Count wc + int (length p)\<rparr>"] show ?case
    by (cases "ps = []") (simp_all add: counter_writes_Cons [of wc] Let_def)
qed simp

section \<open>Downloading a file\<close>

definition DefaultUserAgent :: string where
  "DefaultUserAgent = ''Mozilla/5.0 (Linux; Android 6.0; Nexus 5 Build/MRA58N) AppleWebKit/537.36 (KHTML, like Gecko) Chrome/94.0.4606.61 Mobile Safari/537.36''"

text \<open>\<open>io.Copy(out, io.TeeReader(resp.Body, counter))\<close>.\<close>

definition copy_to_file :: "env \<Rightarrow> string \<Rightarrow> reader \<Rightarrow> world \<Rightarrow> gerr option \<times> world" where
  "copy_to_file E path body w =
     (case file_write E path (rdata body) w of
        (Some e, w1) \<Rightarrow> (Some e, w1)
      | (None, w1) \<Rightarrow> (rend body, w1))"

text \<open>
  The body of \<open>DownloadFile\<close> between \<open>os.Create\<close> and the deferred \<open>out.Close()\<close>.
\<close>

definition fetch_into :: "env \<Rightarrow> string \<Rightarrow> string \<Rightarrow> string \<Rightarrow> world \<Rightarrow> gerr option \<times> world" where
  "fetch_into E url path userAgent w =
     (case new_request E ''GET'' url (bytes_reader []) of
        Inl e \<Rightarrow> (Some e, w)
      | Inr req \<Rightarrow>
          (case client_do E (req\<lparr>hq_header := hset (hq_header req) ''User-Agent'' userAgent\<rparr>) w of
             (Inl e, w1) \<Rightarrow> (Some e, w1)
           | (Inr resp, w1) \<Rightarrow>
               (case atoi (hget (hp_header resp) ''Content-Length'') of
                  None \<Rightarrow> (Some (EMsg ''strconv.Atoi''), w1)
                | Some len \<Rightarrow>
                    if hp_status resp \<noteq> 200
                    then (Some (EMsg (''bad status: '' @ hp_status_text resp)), w1)
                    else copy_to_file E path (hp_body resp) w1)))"

definition DownloadFile :: "env \<Rightarrow> string \<Rightarrow> string \<Rightarrow> string \<Rightarrow> world \<Rightarrow> gerr option \<times> world" where
  "DownloadFile E url path userAgent w =
     (let ua = (if userAgent = [] then DefaultUserAgent else userAgent)
      in case os_create E path w of
           (Some e, w1) \<Rightarrow> (Some e, w1)
         | (None, w1) \<Rightarrow>
             (case fetch_into E url path ua w1 of (r, w2) \<Rightarrow> (r, close_handle path w2)))"

text \<open>The request that \<open>DownloadFile\<close> sends.\<close>

definition download_request :: "string \<Rightarrow> string \<Rightarrow> http_request" where
  "download_request url userAgent =
     \<lparr>hq_method = ''GET'', hq_url = url,
      hq_header = hset [] ''User-Agent'' (if userAgent = [] then DefaultUserAgent else userAgent),
      hq_body = bytes_reader []\<rparr>"

lemma copy_to_file_world [world_simps]:
  "handles (snd (copy_to_file E p b w)) = handles w"
  "stdout (snd (copy_to_file E p b w)) = stdout w"
  "q \<noteq> p \<Longrightarrow> nodes (snd (copy_to_file E p b w)) q = nodes w q"
  using file_write_world(1,2) [of E p "rdata b" w] file_write_world(3) [of q p E "rdata b" w]
  by (auto simp: copy_to_file_def split: prod.splits option.splits)

lemma fetch_into_world [world_simps]:
  "handles (snd (fetch_into E u p a w)) = handles w"
  "stdout (snd (fetch_into E u p a w)) = stdout w"
  "q \<noteq> p \<Longrightarrow> nodes (snd (fetch_into E u p a w)) q = nodes w q"
  by (auto simp: fetch_into_def client_do_def world_simps split: sum.splits prod.splits option.splits)

lemma DownloadFile_world [world_simps]:
  "handles (snd (DownloadFile E u p a w)) = handles w"
  "stdout (snd (DownloadFile E u p a w)) = stdout w"
  "q \<noteq> p \<Longrightarrow> nodes (snd (DownloadFile E u p a w)) q = nodes w q"
proof -
  obtain r wa where a: "os_create E p w = (r, wa)" by force
  let ?ua = "if a = [] then DefaultUserAgent else a"
  obtain r2 wb where b: "fetch_into E u p ?ua wa = (r2, wb)" by force
  have "handles wb = handles wa" "stdout wb = stdout wa"
    and n: "q \<noteq> p \<Longrightarrow> nodes wb q = nodes wa q" for q
    using fetch_into_world(1,2) [of E u p ?ua wa] fetch_into_world(3) [of q p E u ?ua wa] b
    by simp_all
  then show "handles (snd (DownloadFile E u p a w)) = handles w"
    "stdout (snd (DownloadFile E u p a w)) = stdout w"
    "q \<noteq> p \<Longrightarrow> nodes (snd (DownloadFile E u p a w)) q = nodes w q"
    using a b os_create_NoneD [of E p w wa] os_create_SomeD [of E p w _ wa]
    by (cases r; simp add: DownloadFile_def world_simps)+
qed

text \<open>What a nil error of \<open>DownloadFile\<close> says about the response and the file.\<close>

lemma DownloadFile_NoneD:
  assumes "DownloadFile E url path ua w = (None, w1)"
  shows "\<exists>t resp len.
    respond E t (download_request url ua) = Inr resp \<and> hp_status resp = 200 \<and>
    atoi (hget (hp_header resp) ''Content-Length'') = Some len \<and>
    rend (hp_body resp) = None \<and>
    nodes w1 = (nodes w)(path \<mapsto> FileNode (Bytes (rdata (hp_body resp))))"
proof -
  from assms obtain wa where a: "os_create E path w = (None, wa)"
    by (auto simp: DownloadFile_def Let_def split: prod.splits option.splits)
  let ?ua = "if ua = [] then DefaultUserAgent else ua"
  from assms a obtain wb where b: "fetch_into E url path ?ua wa = (None, wb)"
    and w1: "w1 = close_handle path wb"
    by (auto simp: DownloadFile_def Let_def split: prod.splits)
  from b obtain resp len where
    resp: "respond E (tick wa) (download_request url ua) = Inr resp" "hp_status resp = 200"
      "atoi (hget (hp_header resp) ''Content-Length'') = Some len"
    and c: "copy_to_file E path (hp_body resp) (wa\<lparr>tick := Suc (tick wa)\<rparr>) = (None, wb)"
    by (auto simp: fetch_into_def new_request_def client_do_def download_request_def
        split: sum.splits prod.splits option.splits if_splits)
  from c have f: "file_write E path (rdata (hp_body resp)) (wa\<lparr>tick := Suc (tick wa)\<rparr>) = (None, wb)"
    and e: "rend (hp_body resp) = None"
    by (auto simp: copy_to_file_def split: prod.splits option.splits)
  from os_create_NoneD [OF a] file_write_ok [OF _ f, of "[]"] w1
  have "nodes w1 = (nodes w)(path \<mapsto> FileNode (Bytes (rdata (hp_body resp))))"
    by (simp add: close_handle_def)
  with resp e show ?thesis by blast
qed

end
