(* ===== verification/App_Info.thy ===== *)
theory App_Info
  imports Util
begin

text \<open>
  \<open>ipaversionlib/appstore_download.go\<close> and the first half of \<open>ipaversionlib/app.go\<close>: the
  shape of a purchase response, the choice of its item, and \<open>GetAppInfo\<close>, which reads the
  item's metadata with unchecked type assertions. The plist library is a parameter
  (\<open>plist_lib\<close>). The lemmas say exactly which responses give an error, which give a panic,
  and what a successful result contains.
\<close>

record Sinf =
  sinf_id :: int
  sinf_data :: bytes

record DownloadItemResult =
  MD5 :: string
  URL :: string
  ArtworkURL :: string
  Sinfs :: "Sinf list"
  Metadata :: "(string \<times> pval) list"

record DownloadResult =
  FailureType :: string
  CustomerMessage :: string
  Items :: "DownloadItemResult list"

text \<open>The entry points of \<open>howett.net/plist\<close> the program calls, one per target type.\<close>

record plist_lib =
  unmarshal_download :: "bytes \<Rightarrow> gerr + DownloadResult"
  unmarshal_manifest :: "bytes \<Rightarrow> gerr + string list"
  unmarshal_info :: "bytes \<Rightarrow> gerr + string"
  marshal_metadata :: "(string \<times> pval) list \<Rightarrow> gerr + bytes"

definition GetDownloadItemResult :: "plist_lib \<Rightarrow> bytes \<Rightarrow> gerr + DownloadItemResult" where
  "GetDownloadItemResult L data =
     (case unmarshal_download L data of
        Inl err \<Rightarrow> Inl err
      | Inr result \<Rightarrow>
          if FailureType result \<noteq> []
          then Inl (EMsg (''failureType: '' @ FailureType result @ '', customerMessage: '' @
                          CustomerMessage result))
          else (case Items result of
                  [] \<Rightarrow> Inl (EMsg ''no items in the result'')
                | item # _ \<Rightarrow> Inr item))"

record AppInfo =
  Item :: DownloadItemResult
  Data :: bytes
  BundleDisplayName :: string
  BundleShortVersionString :: string
  SoftwareVersionExternalIdentifier :: uint64
  SoftwareVersionExternalIdentifiers :: "uint64 list"
  ItemName :: string
  ArtistName :: string

section \<open>Type assertions\<close>

text \<open>
  \<open>x.(T)\<close> without the comma-ok form panics unless the dynamic type is \<open>T\<close>; a missing key
  reads as a nil interface, which has no dynamic type.
\<close>

fun as_string :: "string \<Rightarrow> pval option \<Rightarrow> string outcome" where
  "as_string what (Some (PString s)) = Ret s"
| "as_string what _ = Panicked (TypeAssertion what)"

fun as_uint64 :: "string \<Rightarrow> pval option \<Rightarrow> uint64 outcome" where
  "as_uint64 what (Some (PUInt n)) = Ret n"
| "as_uint64 what _ = Panicked (TypeAssertion what)"

fun as_array :: "string \<Rightarrow> pval option \<Rightarrow> pval list outcome" where
  "as_array what (Some (PArray vs)) = Ret vs"
| "as_array what _ = Panicked (TypeAssertion what)"

text \<open>The loop that converts the version identifiers.\<close>

fun version_ids :: "pval list \<Rightarrow> uint64 list outcome" where
  "version_ids [] = Ret []"
| "version_ids (v # vs) =
     obind (as_uint64 ''tmpID'' (Some v)) (\<lambda>n. obind (version_ids vs) (\<lambda>ns. Ret (n # ns)))"

definition GetAppInfo :: "plist_lib \<Rightarrow> bytes \<Rightarrow> (gerr + AppInfo) outcome" where
  "GetAppInfo L data =
     (case GetDownloadItemResult L data of
        Inl err \<Rightarrow> Ret (Inl err)
      | Inr item \<Rightarrow>
          (let metadata = map_of (Metadata item)
           in obind (as_array ''softwareVersionExternalIdentifiers''
                       (metadata ''softwareVersionExternalIdentifiers'')) (\<lambda>tmpIDs.
              obind (version_ids tmpIDs) (\<lambda>versionIDs.
              obind (as_string ''bundleDisplayName'' (metadata ''bundleDisplayName'')) (\<lambda>disp.
              obind (as_string ''bundleShortVersionString''
                       (metadata ''bundleShortVersionString'')) (\<lambda>vers.
              obind (as_uint64 ''softwareVersionExternalIdentifier''
                       (metadata ''softwareVersionExternalIdentifier'')) (\<lambda>vid.
              obind (as_string ''itemName'' (metadata ''itemName'')) (\<lambda>name.
              obind (as_string ''artistName'' (metadata ''artistName'')) (\<lambda>artist.
                Ret (Inr \<lparr>Item = item, Data = data, BundleDisplayName = disp,
                          BundleShortVersionString = vers,
                          SoftwareVersionExternalIdentifier = vid,
                          SoftwareVersionExternalIdentifiers = versionIDs,
                          ItemName = name, ArtistName = artist\<rparr>))))))))))"

section \<open>Which responses are accepted\<close>

lemma as_string_Ret: "as_string what v = Ret s \<longleftrightarrow> v = Some (PString s)"
  by (cases "(what, v)" rule: as_string.cases) auto

lemma as_uint64_Ret: "as_uint64 what v = Ret n \<longleftrightarrow> v = Some (PUInt n)"
  by (cases "(what, v)" rule: as_uint64.cases) auto

lemma as_array_Ret: "as_array what v = Ret vs \<longleftrightarrow> v = Some (PArray vs)"
  by (cases "(what, v)" rule: as_array.cases) auto

lemma version_ids_Ret: "version_ids vs = Ret ns \<longleftrightarrow> vs = map PUInt ns"
proof (induction vs arbitrary: ns)
  case (Cons v vs)
  show ?case by (cases ns) (auto simp: obind_Ret_iff as_uint64_Ret Cons.IH)
qed auto

lemmas assertion_Ret = as_string_Ret as_uint64_Ret as_array_Ret version_ids_Ret

text \<open>The metadata that \<open>GetAppInfo\<close> can read, and the result it gives for them.\<close>

definition app_fields :: "DownloadItemResult \<Rightarrow> AppInfo \<Rightarrow> bool" where
  "app_fields item a \<longleftrightarrow>
     (let m = map_of (Metadata item)
      in m ''softwareVersionExternalIdentifiers'' =
           Some (PArray (map PUInt (SoftwareVersionExternalIdentifiers a))) \<and>
         m ''bundleDisplayName'' = Some (PString (BundleDisplayName a)) \<and>
         m ''bundleShortVersionString'' = Some (PString (BundleShortVersionString a)) \<and>
         m ''softwareVersionExternalIdentifier'' =
           Some (PUInt (SoftwareVersionExternalIdentifier a)) \<and>
         m ''itemName'' = Some (PString (ItemName a)) \<and>
         m ''artistName'' = Some (PString (ArtistName a)))"

lemma GetAppInfo_Inr_iff:
  "GetAppInfo L data = Ret (Inr a) \<longleftrightarrow>
     (\<exists>item. GetDownloadItemResult L data = Inr item \<and> Item a = item \<and> Data a = data \<and>
             app_fields item a)"
  by (cases a) (auto simp: GetAppInfo_def app_fields_def Let_def obind_Ret_iff assertion_Ret
      split: sum.splits)

lemma GetAppInfo_Inl_iff:
  "GetAppInfo L data = Ret (Inl e) \<longleftrightarrow> GetDownloadItemResult L data = Inl e"
  by (auto simp: GetAppInfo_def Let_def obind_Ret_iff split: sum.splits)

lemma GetAppInfo_returned_iff:
  "returned (GetAppInfo L data) \<longleftrightarrow>
     (\<forall>item. GetDownloadItemResult L data = Inr item \<longrightarrow> (\<exists>a. app_fields item a))"
proof (cases "GetDownloadItemResult L data")
  case (Inl e)
  then show ?thesis by (simp add: GetAppInfo_def)
next
  case (Inr item)
  have "returned (GetAppInfo L data) \<longleftrightarrow> (\<exists>a. GetAppInfo L data = Ret (Inr a))"
  proof
    assume "returned (GetAppInfo L data)"
    then obtain r where r: "GetAppInfo L data = Ret r" by (auto simp: returned_iff)
    with Inr show "\<exists>a. GetAppInfo L data = Ret (Inr a)"
      using GetAppInfo_Inl_iff [of L data] by (cases r) auto
  qed (auto simp: returned_iff)
  also have "\<dots> \<longleftrightarrow> (\<exists>a. app_fields item a)"
  proof
    assume "\<exists>a. app_fields item a"
    then obtain a where "app_fields item a" by blast
    then have "app_fields item (a\<lparr>Item := item, Data := data\<rparr>)"
      by (simp add: app_fields_def)
    with Inr show "\<exists>a. GetAppInfo L data = Ret (Inr a)"
      unfolding GetAppInfo_Inr_iff by (metis AppInfo.select_convs(1,2) AppInfo.surjective AppInfo.update_convs(1,2))
  qed (auto simp: GetAppInfo_Inr_iff Inr)
  finally show ?thesis using Inr by simp
qed

lemma GetDownloadItemResult_Inr_iff:
  "GetDownloadItemResult L data = Inr item \<longleftrightarrow>
     (\<exists>r rest. unmarshal_download L data = Inr r \<and> FailureType r = [] \<and> Items r = item # rest)"
  by (auto simp: GetDownloadItemResult_def split: sum.splits list.splits if_splits)

lemma GetAppInfo_panic: "GetAppInfo L data = Panicked p \<Longrightarrow> \<exists>s. p = TypeAssertion s"
proof -
  have "as_string what v = Panicked p \<Longrightarrow> \<exists>s. p = TypeAssertion s" for what v
    by (cases "(what, v)" rule: as_string.cases) auto
  moreover have "as_uint64 what v = Panicked p \<Longrightarrow> \<exists>s. p = TypeAssertion s" for what v
    by (cases "(what, v)" rule: as_uint64.cases) auto
  moreover have "as_array what v = Panicked p \<Longrightarrow> \<exists>s. p = TypeAssertion s" for what v
    by (cases "(what, v)" rule: as_array.cases) auto
  moreover have "version_ids vs = Panicked p \<Longrightarrow> \<exists>s. p = TypeAssertion s" for vs
    using calculation(2) by (induction vs) (auto simp: obind_Panicked_iff)
  ultimately show "GetAppInfo L data = Panicked p \<Longrightarrow> \<exists>s. p = TypeAssertion s"
    by (simp add: GetAppInfo_def Let_def obind_Panicked_iff split: sum.splits) blast
qed

text \<open>
  C24: \<open>GetAppInfo\<close> returns an error exactly when the response has no usable item, an
  \<open>AppInfo\<close> with the item, the raw response and the six metadata fields exactly when each
  field is there with its type, and otherwise panics on a type assertion, although it can
  report errors.
\<close>

theorem GetAppInfo_classified:
  "(case GetAppInfo L data of
      Ret (Inl e) \<Rightarrow> GetDownloadItemResult L data = Inl e
    | Ret (Inr a) \<Rightarrow> GetDownloadItemResult L data = Inr (Item a) \<and> Data a = data \<and> app_fields (Item a) a
    | Panicked p \<Rightarrow> (\<exists>s. p = TypeAssertion s) \<and>
        (\<exists>item. GetDownloadItemResult L data = Inr item \<and> \<not> (\<exists>a. app_fields item a)))"
  using GetAppInfo_Inl_iff [of L data] GetAppInfo_Inr_iff [of L data]
    GetAppInfo_returned_iff [of L data] GetAppInfo_panic [of L data]
  by (cases "GetAppInfo L data") (auto split: sum.splits)

text \<open>
  A response as the store sends it, for the closed instances of the development: one item
  with all the metadata the program reads, and one with \<open>itemName\<close> missing.
\<close>

definition sample_metadata :: "(string \<times> pval) list" where
  "sample_metadata =
     [(''softwareVersionExternalIdentifiers'', PArray [PUInt 842023522, PUInt 842552350]),
      (''bundleDisplayName'', PString ''Opera''),
      (''bundleShortVersionString'', PString ''3.0.4''),
      (''softwareVersionExternalIdentifier'', PUInt 842552350),
      (''itemName'', PString ''Opera Browser''), (''artistName'', PString ''Opera AS'')]"

definition sample_item :: "(string \<times> pval) list \<Rightarrow> Sinf list \<Rightarrow> DownloadItemResult" where
  "sample_item md sinfs =
     \<lparr>MD5 = [], URL = ''https://a/b.ipa'', ArtworkURL = [], Sinfs = sinfs, Metadata = md\<rparr>"

definition sample_lib :: "DownloadItemResult list \<Rightarrow> plist_lib" where
  "sample_lib items =
     \<lparr>unmarshal_download = (\<lambda>d. Inr \<lparr>FailureType = [], CustomerMessage = [], Items = items\<rparr>),
      unmarshal_manifest = (\<lambda>d. Inr [''SC_Info/Foo.sinf'']),
      unmarshal_info = (\<lambda>d. Inr d),
      marshal_metadata = (\<lambda>m. Inr ''<plist/>'')\<rparr>"

end
