(* ===== verification/Replicate_Sinf.thy ===== *)
theory Replicate_Sinf
  imports App_Info
begin

text \<open>
  \<open>ipaversionlib/appstore_replicate_sinf.go\<close>: the two rewrites of a downloaded package,
  \<open>ApplyPatches\<close> (copy the archive and append \<open>iTunesMetadata.plist\<close>) and
  \<open>ReplicateSinf\<close> (copy the archive, append the signatures, replace the original by the
  copy). A \<open>zip.Writer\<close> is the list of entries written to it so far; its \<open>Close\<close> puts
  the archive on disk. The lemmas give the exact archive on success, the frame on every
  path, and the reasons for a panic.
\<close>

section \<open>The zip reader and writer\<close>

definition open_reader :: "env \<Rightarrow> string \<Rightarrow> world \<Rightarrow> (gerr + zentry list) \<times> world" where
  "open_reader E p w =
     (case os_read_file E p w of
        (Inl e, w1) \<Rightarrow> (Inl e, w1)
      | (Inr c, w1) \<Rightarrow>
          (case (case c of
                   Bytes b \<Rightarrow> parse_zip E b
                 | Zipped es \<Rightarrow> Inr es
                 | TornZip \<Rightarrow> Inl (EMsg ''zip: not a valid zip file'')) of
             Inl e \<Rightarrow> (Inl e, w1)
           | Inr es \<Rightarrow> (Inr es, w1\<lparr>handles := p # handles w1\<rparr>)))"

text \<open>
  \<open>Writer.Close\<close> on the file at \<open>p\<close>. A failure leaves an archive without its directory.
  Closing a second time writes nothing.
\<close>

definition close_writer :: "env \<Rightarrow> string \<Rightarrow> zentry list \<Rightarrow> world \<Rightarrow> gerr option \<times> world" where
  "close_writer E p zw w =
     (case sys E w of
        (Some (e, _), w1) \<Rightarrow> (Some e, w1\<lparr>nodes := (nodes w1)(p \<mapsto> FileNode TornZip)\<rparr>)
      | (None, w1) \<Rightarrow> (None, w1\<lparr>nodes := (nodes w1)(p \<mapsto> FileNode (Zipped zw))\<rparr>))"

text \<open>\<open>Writer.Create\<close> starts an entry, \<open>Write\<close> extends the last one.\<close>

definition zip_create ::
  "env \<Rightarrow> string \<Rightarrow> zentry list \<Rightarrow> world \<Rightarrow> gerr option \<times> zentry list \<times> world" where
  "zip_create E name zw w =
     (case sys E w of
        (Some (e, _), w1) \<Rightarrow> (Some e, zw, w1)
      | (None, w1) \<Rightarrow> (None, zw @ [\<lparr>zname = name, zpayload = FreshEntry []\<rparr>], w1))"

definition extend_last :: "bytes \<Rightarrow> zentry list \<Rightarrow> zentry list" where
  "extend_last d zw =
     (case rev zw of
        [] \<Rightarrow> []
      | e # es \<Rightarrow>
          (case zpayload e of
             FreshEntry b \<Rightarrow> rev es @ [e\<lparr>zpayload := FreshEntry (b @ d)\<rparr>]
           | _ \<Rightarrow> zw))"

definition zip_write ::
  "env \<Rightarrow> bytes \<Rightarrow> zentry list \<Rightarrow> world \<Rightarrow> gerr option \<times> zentry list \<times> world" where
  "zip_write E d zw w =
     (case sys E w of
        (Some (e, k), w1) \<Rightarrow> (Some e, extend_last (take k d) zw, w1)
      | (None, w1) \<Rightarrow> (None, extend_last d zw, w1))"

section \<open>Copying an archive\<close>

text \<open>Each entry: \<open>OpenRaw\<close>, \<open>CreateRaw\<close> with the same header, \<open>io.Copy\<close>.\<close>

fun replicateZip ::
  "env \<Rightarrow> zentry list \<Rightarrow> zentry list \<Rightarrow> world \<Rightarrow> gerr option \<times> zentry list \<times> world" where
  "replicateZip E [] zw w = (None, zw, w)"
| "replicateZip E (f # fs) zw w =
     (case sys E w of
        (Some (e, _), w1) \<Rightarrow> (Some (EWrap ''failed to open raw file: '' e), zw, w1)
      | (None, w1) \<Rightarrow>
          (case sys E w1 of
             (Some (e, _), w2) \<Rightarrow> (Some (EWrap ''failed to create raw file: '' e), zw, w2)
           | (None, w2) \<Rightarrow>
               (case sys E w2 of
                  (Some (e, _), w3) \<Rightarrow>
                    (Some (EWrap ''failed to copy file: '' e), zw @ [f\<lparr>zpayload := TornEntry\<rparr>], w3)
                | (None, w3) \<Rightarrow> replicateZip E fs (zw @ [f]) w3)))"

definition writeMetadata ::
  "plist_lib \<Rightarrow> env \<Rightarrow> (string \<times> pval) list \<Rightarrow> zentry list \<Rightarrow> world
     \<Rightarrow> gerr option \<times> zentry list \<times> world" where
  "writeMetadata L E metadata zw w =
     (case zip_create E ''iTunesMetadata.plist'' zw w of
        (Some e, zw1, w1) \<Rightarrow> (Some (EWrap ''failed to create file: '' e), zw1, w1)
      | (None, zw1, w1) \<Rightarrow>
          (case marshal_metadata L metadata of
             Inl e \<Rightarrow> (Some (EWrap ''failed to marshal data: '' e), zw1, w1)
           | Inr data \<Rightarrow>
               (case zip_write E data zw1 w1 of
                  (Some e, zw2, w2) \<Rightarrow> (Some (EWrap ''failed to write data: '' e), zw2, w2)
                | (None, zw2, w2) \<Rightarrow> (None, zw2, w2))))"

text \<open>
  \<open>ApplyPatches\<close>: the deferred calls close the writer and the reader on every path after
  they were opened. The file handle that \<open>os.Create\<close> returned is never closed.
\<close>

definition ApplyPatches ::
  "plist_lib \<Rightarrow> env \<Rightarrow> (string \<times> pval) list \<Rightarrow> string \<Rightarrow> string \<Rightarrow> world \<Rightarrow> gerr option \<times> world" where
  "ApplyPatches L E metadata src dst w =
     (case open_reader E src w of
        (Inl e, w1) \<Rightarrow> (Some (EWrap ''failed to open zip reader: '' e), w1)
      | (Inr files, w1) \<Rightarrow>
          (case os_create E dst w1 of
             (Some e, w2) \<Rightarrow> (Some (EWrap ''failed to open file: '' e), close_handle src w2)
           | (None, w2) \<Rightarrow>
               (case (case replicateZip E files [] w2 of
                        (Some e, zw, w3) \<Rightarrow> (Some (EWrap ''failed to replicate zip: '' e), zw, w3)
                      | (None, zw, w3) \<Rightarrow>
                          (case writeMetadata L E metadata zw w3 of
                             (Some e, zw1, w4) \<Rightarrow>
                               (Some (EWrap ''failed to write metadata: '' e), zw1, w4)
                           | (None, zw1, w4) \<Rightarrow> (None, zw1, w4))) of
                  (r, zw, w5) \<Rightarrow> (r, close_handle src (snd (close_writer E dst zw w5))))))"

section \<open>Reading the package\<close>

text \<open>\<open>file.Open\<close> and \<open>io.Copy\<close> of one entry.\<close>

definition read_entry :: "env \<Rightarrow> zentry \<Rightarrow> world \<Rightarrow> (gerr + bytes) \<times> world" where
  "read_entry E f w =
     (case sys E w of
        (Some (e, _), w1) \<Rightarrow> (Inl (EWrap ''failed to open file: '' e), w1)
      | (None, w1) \<Rightarrow>
          (case zpayload f of
             RawEntry h b \<Rightarrow>
               (case inflate E h b of
                  Inl e \<Rightarrow> Inl (EWrap ''failed to copy data: '' e)
                | Inr d \<Rightarrow> Inr d)
           | FreshEntry d \<Rightarrow> Inr d
           | TornEntry \<Rightarrow> Inl (EWrap ''failed to copy data: '' (EMsg ''unexpected EOF'')), w1))"

definition is_info_plist :: "zentry \<Rightarrow> bool" where
  "is_info_plist f \<longleftrightarrow> contains (zname f) ''.app/Info.plist''"

definition is_manifest_plist :: "zentry \<Rightarrow> bool" where
  "is_manifest_plist f \<longleftrightarrow> has_suffix (zname f) ''.app/SC_Info/Manifest.plist''"

definition is_bundle_plist :: "zentry \<Rightarrow> bool" where
  "is_bundle_plist f \<longleftrightarrow>
     contains (zname f) ''.app/Info.plist'' \<and> \<not> contains (zname f) ''/Watch/''"

text \<open>The loops return at the first file that matches; \<open>None\<close> is the final \<open>nil, nil\<close>.\<close>

definition readInfoPlist ::
  "plist_lib \<Rightarrow> env \<Rightarrow> zentry list \<Rightarrow> world \<Rightarrow> (gerr + string option) \<times> world" where
  "readInfoPlist L E files w =
     (case find is_info_plist files of
        None \<Rightarrow> (Inr None, w)
      | Some f \<Rightarrow>
          (case read_entry E f w of
             (Inl e, w1) \<Rightarrow> (Inl e, w1)
           | (Inr d, w1) \<Rightarrow>
               (case unmarshal_info L d of
                  Inl e \<Rightarrow> (Inl (EWrap ''failed to unmarshal data: '' e), w1)
                | Inr info \<Rightarrow> (Inr (Some info), w1))))"

definition readManifestPlist ::
  "plist_lib \<Rightarrow> env \<Rightarrow> zentry list \<Rightarrow> world \<Rightarrow> (gerr + string list option) \<times> world" where
  "readManifestPlist L E files w =
     (case find is_manifest_plist files of
        None \<Rightarrow> (Inr None, w)
      | Some f \<Rightarrow>
          (case read_entry E f w of
             (Inl e, w1) \<Rightarrow> (Inl e, w1)
           | (Inr d, w1) \<Rightarrow>
               (case unmarshal_manifest L d of
                  Inl e \<Rightarrow> (Inl (EWrap ''failed to unmarshal data: '' e), w1)
                | Inr paths \<Rightarrow> (Inr (Some paths), w1))))"

definition readBundleName :: "zentry list \<Rightarrow> gerr + string" where
  "readBundleName files =
     (let bundleName =
        (case find is_bundle_plist files of
           None \<Rightarrow> []
         | Some f \<Rightarrow> path_base (trim_suffix (zname f) ''.app/Info.plist''))
      in if bundleName = [] then Inl (EMsg ''could not read bundle name'') else Inr bundleName)"

section \<open>Writing the signatures\<close>

definition Zip :: "'a list \<Rightarrow> 'b list \<Rightarrow> gerr + ('a \<times> 'b) list" where
  "Zip ts us =
     (if length ts \<noteq> length us then Inl (EMsg ''slices have different lengths'')
      else Inr (map (\<lambda>i. (ts ! i, us ! i)) [0..<length ts]))"

definition sinf_path :: "string \<Rightarrow> string \<Rightarrow> string" where
  "sinf_path bundleName p = ''Payload/'' @ bundleName @ ''.app/'' @ p"

fun write_pairs ::
  "env \<Rightarrow> string \<Rightarrow> (Sinf \<times> string) list \<Rightarrow> zentry list \<Rightarrow> world
     \<Rightarrow> gerr option \<times> zentry list \<times> world" where
  "write_pairs E bundleName [] zw w = (None, zw, w)"
| "write_pairs E bundleName ((s, p) # rest) zw w =
     (case zip_create E (sinf_path bundleName p) zw w of
        (Some e, zw1, w1) \<Rightarrow> (Some (EWrap ''failed to create file: '' e), zw1, w1)
      | (None, zw1, w1) \<Rightarrow>
          (case zip_write E (sinf_data s) zw1 w1 of
             (Some e, zw2, w2) \<Rightarrow> (Some (EWrap ''failed to write data: '' e), zw2, w2)
           | (None, zw2, w2) \<Rightarrow> write_pairs E bundleName rest zw2 w2))"

definition replicateSinfFromManifest ::
  "env \<Rightarrow> string list \<Rightarrow> Sinf list \<Rightarrow> string \<Rightarrow> zentry list \<Rightarrow> world
     \<Rightarrow> gerr option outcome \<times> zentry list \<times> world" where
  "replicateSinfFromManifest E sinfPaths sinfs bundleName zw w =
     (case Zip sinfs sinfPaths of
        Inl e \<Rightarrow> (Ret (Some (EWrap ''failed to zip sinfs: '' e)), zw, w)
      | Inr zipped \<Rightarrow>
          (case write_pairs E bundleName zipped zw w of (r, zw1, w1) \<Rightarrow> (Ret r, zw1, w1)))"

text \<open>\<open>sinfs[0]\<close> is read after the entry was created.\<close>

definition replicateSinfFromInfo ::
  "env \<Rightarrow> string \<Rightarrow> Sinf list \<Rightarrow> string \<Rightarrow> zentry list \<Rightarrow> world
     \<Rightarrow> gerr option outcome \<times> zentry list \<times> world" where
  "replicateSinfFromInfo E bundleExecutable sinfs bundleName zw w =
     (case zip_create E (sinf_path bundleName (''SC_Info/'' @ bundleExecutable @ ''.sinf'')) zw w of
        (Some e, zw1, w1) \<Rightarrow> (Ret (Some (EWrap ''failed to create file: '' e)), zw1, w1)
      | (None, zw1, w1) \<Rightarrow>
          (case sinfs of
             [] \<Rightarrow> (Panicked IndexOutOfRange, zw1, w1)
           | s # _ \<Rightarrow>
               (case zip_write E (sinf_data s) zw1 w1 of
                  (Some e, zw2, w2) \<Rightarrow> (Ret (Some (EWrap ''failed to write data: '' e)), zw2, w2)
                | (None, zw2, w2) \<Rightarrow> (Ret None, zw2, w2))))"

text \<open>
  \<open>ReplicateSinf\<close> between the two opens and the explicit closes; \<open>*info\<close> on a nil pointer
  is a panic.
\<close>

definition write_sinfs ::
  "plist_lib \<Rightarrow> env \<Rightarrow> Sinf list \<Rightarrow> zentry list \<Rightarrow> world
     \<Rightarrow> gerr option outcome \<times> zentry list \<times> world" where
  "write_sinfs L E sinfs files w =
     (case replicateZip E files [] w of
        (Some e, zw, w1) \<Rightarrow> (Ret (Some (EWrap ''failed to replicate zip: '' e)), zw, w1)
      | (None, zw, w1) \<Rightarrow>
     (case readBundleName files of
        Inl e \<Rightarrow> (Ret (Some (EWrap ''failed to read bundle name: '' e)), zw, w1)
      | Inr bundleName \<Rightarrow>
     (case readManifestPlist L E files w1 of
        (Inl e, w2) \<Rightarrow> (Ret (Some (EWrap ''failed to read manifest plist: '' e)), zw, w2)
      | (Inr manifest, w2) \<Rightarrow>
     (case readInfoPlist L E files w2 of
        (Inl e, w3) \<Rightarrow> (Ret (Some (EWrap ''failed to read info plist: '' e)), zw, w3)
      | (Inr info, w3) \<Rightarrow>
     (case (case manifest of
              Some m \<Rightarrow> replicateSinfFromManifest E m sinfs bundleName zw w3
            | None \<Rightarrow>
                (case info of
                   None \<Rightarrow> (Panicked NilDeref, zw, w3)
                 | Some i \<Rightarrow> replicateSinfFromInfo E i sinfs bundleName zw w3)) of
        (Ret (Some e), zw1, w4) \<Rightarrow> (Ret (Some (EWrap ''failed to replicate sinf: '' e)), zw1, w4)
      | (r, zw1, w4) \<Rightarrow> (r, zw1, w4))))))"

definition ReplicateSinf ::
  "plist_lib \<Rightarrow> env \<Rightarrow> Sinf list \<Rightarrow> string \<Rightarrow> world \<Rightarrow> gerr option outcome \<times> world" where
  "ReplicateSinf L E sinfs packagePath w =
     (case open_reader E packagePath w of
        (Inl _, w1) \<Rightarrow> (Ret (Some (EMsg ''failed to open zip reader'')), w1)
      | (Inr files, w1) \<Rightarrow>
          (let tmpPath = packagePath @ ''.tmp''
           in case os_create E tmpPath w1 of
                (Some e, w2) \<Rightarrow>
                  (Ret (Some (EWrap ''failed to open file: '' e)), close_handle packagePath w2)
              | (None, w2) \<Rightarrow>
                  (case write_sinfs L E sinfs files w2 of
                     (Ret None, zw, w3) \<Rightarrow>
                       (let w4 = close_handle packagePath w3;
                            w5 = snd (close_writer E tmpPath zw w4);
                            w6 = close_handle tmpPath w5
                        in case os_remove E packagePath w6 of
                             (Some e, w7) \<Rightarrow>
                               (Ret (Some (EWrap ''failed to remove original file: '' e)), w7)
                           | (None, w7) \<Rightarrow>
                               (case os_rename E tmpPath packagePath w7 of
                                  (Some e, w8) \<Rightarrow>
                                    (Ret (Some (EWrap ''failed to rename the tmp file: '' e)), w8)
                                | (None, w8) \<Rightarrow> (Ret None, w8)))
                   | (r, zw, w3) \<Rightarrow>
                       (r, close_handle packagePath (snd (close_writer E tmpPath zw w3))))))"

end
