(* ===== verification/Sinf_Lemmas.thy ===== *)
theory Sinf_Lemmas
  imports Replicate_Sinf
begin

text \<open>
  Correctness of the package rewrites of \<open>Replicate_Sinf\<close>. The specification
  \<open>expected_sinfs\<close> says which entries a package should gain, as a function of the archive
  alone; the operations are shown to append exactly these on success, to leave every file
  but the ones they own untouched, and to panic only for a package without a manifest when
  there is no signature to store.
\<close>

section \<open>Frames\<close>

lemma open_reader_world [world_simps]:
  "nodes (snd (open_reader E p w)) = nodes w" "stdout (snd (open_reader E p w)) = stdout w"
  using os_read_file_world [of E p w]
  by (auto simp: open_reader_def split: prod.splits sum.splits content.splits)

lemma open_reader_handles:
  "handles (snd (open_reader E p w)) =
     (if is_err (fst (open_reader E p w)) then handles w else p # handles w)"
  using os_read_file_world [of E p w]
  by (auto simp: open_reader_def split: prod.splits sum.splits content.splits)

lemma open_reader_Inr:
  assumes "open_reader E p w = (Inr es, w1)"
  shows "nodes w1 = nodes w \<and> stdout w1 = stdout w \<and> handles w1 = p # handles w"
  using open_reader_world [of E p w] open_reader_handles [of E p w] assms by simp

lemma open_reader_Inl:
  assumes "open_reader E p w = (Inl e, w1)"
  shows "nodes w1 = nodes w \<and> stdout w1 = stdout w \<and> handles w1 = handles w"
  using open_reader_world [of E p w] open_reader_handles [of E p w] assms by simp

text \<open>What the reader sees in a file, for an environment that does not fail.\<close>

definition archive_at :: "env \<Rightarrow> world \<Rightarrow> string \<Rightarrow> zentry list option" where
  "archive_at E w p =
     (case nodes w p of
        Some (FileNode (Bytes b)) \<Rightarrow> (case parse_zip E b of Inr es \<Rightarrow> Some es | Inl _ \<Rightarrow> None)
      | Some (FileNode (Zipped es)) \<Rightarrow> Some es
      | _ \<Rightarrow> None)"

lemma archive_at_println [simp]: "archive_at E (println s w) p = archive_at E w p"
  by (simp add: archive_at_def)

lemma open_reader_archive:
  "open_reader E p w = (Inr es, w1) \<Longrightarrow> archive_at E w p = Some es"
  by (auto simp: open_reader_def archive_at_def os_read_file_def sys_def
      split: prod.splits option.splits node.splits content.splits sum.splits)

lemma close_writer_world [world_simps]:
  "handles (snd (close_writer E p zw w)) = handles w"
  "stdout (snd (close_writer E p zw w)) = stdout w"
  "q \<noteq> p \<Longrightarrow> nodes (snd (close_writer E p zw w)) q = nodes w q"
  "nodes (snd (close_writer E p zw w)) p =
     Some (FileNode (if fault E (tick w) = None then Zipped zw else TornZip))"
  by (auto simp: close_writer_def sys_def split: option.splits prod.splits)

lemma close_writer_nodes:
  "nodes (snd (close_writer E p zw w)) =
     (nodes w)(p \<mapsto> FileNode (if fault E (tick w) = None then Zipped zw else TornZip))"
  by (auto simp: close_writer_def sys_def split: option.splits prod.splits)

lemma close_writer_tick [simp]: "tick (snd (close_writer E p zw w)) = Suc (tick w)"
  by (auto simp: close_writer_def sys_def split: option.splits prod.splits)

text \<open>Two worlds that differ in the clock only.\<close>

definition same_disk :: "world \<Rightarrow> world \<Rightarrow> bool" where
  "same_disk w v \<longleftrightarrow> nodes w = nodes v \<and> handles w = handles v \<and> stdout w = stdout v"

lemma same_disk_refl [simp]: "same_disk w w"
  by (simp add: same_disk_def)

lemma same_disk_trans: "same_disk u v \<Longrightarrow> same_disk v w \<Longrightarrow> same_disk u w"
  by (simp add: same_disk_def)

lemma sys_same_disk: "sys E w = (r, w1) \<Longrightarrow> same_disk w1 w"
  by (auto simp: sys_def same_disk_def)

lemma zip_create_same_disk: "zip_create E n zw w = (r, zw1, w1) \<Longrightarrow> same_disk w1 w"
  by (auto simp: zip_create_def split: prod.splits option.splits dest: sys_same_disk)

lemma zip_write_same_disk: "zip_write E d zw w = (r, zw1, w1) \<Longrightarrow> same_disk w1 w"
  by (auto simp: zip_write_def split: prod.splits option.splits dest: sys_same_disk)

lemma read_entry_same_disk: "read_entry E f w = (r, w1) \<Longrightarrow> same_disk w1 w"
  by (auto simp: read_entry_def split: prod.splits option.splits dest: sys_same_disk)

lemma readInfoPlist_same_disk: "readInfoPlist L E fs w = (r, w1) \<Longrightarrow> same_disk w1 w"
  by (auto simp: readInfoPlist_def split: prod.splits option.splits sum.splits
      dest: read_entry_same_disk)

lemma readManifestPlist_same_disk: "readManifestPlist L E fs w = (r, w1) \<Longrightarrow> same_disk w1 w"
  by (auto simp: readManifestPlist_def split: prod.splits option.splits sum.splits
      dest: read_entry_same_disk)

lemma replicateZip_same_disk: "replicateZip E fs zw w = (r, zw1, w1) \<Longrightarrow> same_disk w1 w"
proof (induction E fs zw w arbitrary: r zw1 w1 rule: replicateZip.induct)
  case (2 E f fs zw w)
  obtain ra wa where a: "sys E w = (ra, wa)" by force
  obtain rb wb where b: "sys E wa = (rb, wb)" by force
  obtain rc wc where c: "sys E wb = (rc, wc)" by force
  from a b c have sd: "same_disk wa w" "same_disk wb w" "same_disk wc w"
    by (metis sys_same_disk same_disk_trans)+
  show ?case
  proof (cases "ra = None \<and> rb = None \<and> rc = None")
    case True
    with 2 a b c have "same_disk w1 wc" by auto
    with sd show ?thesis by (blast intro: same_disk_trans)
  next
    case False
    with 2 a b c sd show ?thesis by (auto split: option.splits)
  qed
qed auto

lemma write_pairs_same_disk: "write_pairs E b ps zw w = (r, zw1, w1) \<Longrightarrow> same_disk w1 w"
proof (induction E b ps zw w arbitrary: r zw1 w1 rule: write_pairs.induct)
  case (2 E b s p rest zw w)
  obtain ra za wa where a: "zip_create E (sinf_path b p) zw w = (ra, za, wa)"
    by (metis prod.exhaust)
  obtain rb zb wb where bb: "zip_write E (sinf_data s) za wa = (rb, zb, wb)"
    by (metis prod.exhaust)
  have sd: "same_disk wa w" "same_disk wb w"
    using zip_create_same_disk [OF a] zip_write_same_disk [OF bb] same_disk_trans by blast+
  show ?case
  proof (cases "ra = None \<and> rb = None")
    case True
    with 2 a bb have "same_disk w1 wb" by auto
    with sd show ?thesis by (blast intro: same_disk_trans)
  next
    case False
    with 2 a bb sd show ?thesis by (auto split: option.splits)
  qed
qed auto

lemma writeMetadata_same_disk: "writeMetadata L E md zw w = (r, zw1, w1) \<Longrightarrow> same_disk w1 w"
  by (auto simp: writeMetadata_def split: prod.splits option.splits sum.splits
      dest!: zip_create_same_disk zip_write_same_disk intro: same_disk_trans)

lemma replicateSinfFromManifest_same_disk:
  "replicateSinfFromManifest E m s b zw w = (r, zw1, w1) \<Longrightarrow> same_disk w1 w"
  by (auto simp: replicateSinfFromManifest_def split: prod.splits sum.splits
      dest: write_pairs_same_disk)

lemma replicateSinfFromInfo_same_disk:
  "replicateSinfFromInfo E i s b zw w = (r, zw1, w1) \<Longrightarrow> same_disk w1 w"
  by (auto simp: replicateSinfFromInfo_def split: prod.splits option.splits list.splits
      dest!: zip_create_same_disk zip_write_same_disk intro: same_disk_trans)

lemmas zip_step_same_disk =
  replicateZip_same_disk readManifestPlist_same_disk readInfoPlist_same_disk
  replicateSinfFromManifest_same_disk replicateSinfFromInfo_same_disk

section \<open>What is written\<close>

lemma extend_last_snoc [simp]:
  "extend_last d (zw @ [\<lparr>zname = n, zpayload = FreshEntry b\<rparr>]) =
     zw @ [\<lparr>zname = n, zpayload = FreshEntry (b @ d)\<rparr>]"
  by (simp add: extend_last_def)

lemma zip_create_None:
  "zip_create E n zw w = (None, zw1, w1) \<Longrightarrow>
     zw1 = zw @ [\<lparr>zname = n, zpayload = FreshEntry []\<rparr>]"
  by (auto simp: zip_create_def split: prod.splits option.splits)

lemma zip_write_None: "zip_write E d zw w = (None, zw1, w1) \<Longrightarrow> zw1 = extend_last d zw"
  by (auto simp: zip_write_def split: prod.splits option.splits)

lemma replicateZip_None: "replicateZip E fs zw w = (None, zw1, w1) \<Longrightarrow> zw1 = zw @ fs"
  by (induction E fs zw w arbitrary: zw1 w1 rule: replicateZip.induct)
    (auto split: prod.splits option.splits)

lemma writeMetadata_None:
  assumes "writeMetadata L E md zw w = (None, zw1, w1)"
  shows "\<exists>data. marshal_metadata L md = Inr data \<and>
    zw1 = zw @ [\<lparr>zname = ''iTunesMetadata.plist'', zpayload = FreshEntry data\<rparr>]"
  using assms
  by (auto simp: writeMetadata_def split: prod.splits option.splits sum.splits
      dest!: zip_create_None zip_write_None)

definition sinf_entry :: "string \<Rightarrow> Sinf \<Rightarrow> string \<Rightarrow> zentry" where
  "sinf_entry bundleName s p =
     \<lparr>zname = sinf_path bundleName p, zpayload = FreshEntry (sinf_data s)\<rparr>"

lemma write_pairs_None:
  "write_pairs E b ps zw w = (None, zw1, w1) \<Longrightarrow>
     zw1 = zw @ map (\<lambda>(s, p). sinf_entry b s p) ps"
proof (induction ps arbitrary: zw w)
  case (Cons sp rest)
  obtain s p where sp: "sp = (s, p)" by force
  with Cons.prems obtain za wa zb wb where a: "zip_create E (sinf_path b p) zw w = (None, za, wa)"
    and bb: "zip_write E (sinf_data s) za wa = (None, zb, wb)"
    and rest: "write_pairs E b rest zb wb = (None, zw1, w1)"
    by (auto split: prod.splits option.splits)
  have "zb = zw @ [sinf_entry b s p]"
    using zip_create_None [OF a] zip_write_None [OF bb] by (simp add: sinf_entry_def)
  with Cons.IH [OF rest] sp show ?case by simp
qed simp

lemma Zip_Inr_iff: "Zip ts us = Inr ps \<longleftrightarrow> length ts = length us \<and> ps = zip ts us"
proof (cases "length ts = length us")
  case True
  have "map (\<lambda>i. (ts ! i, us ! i)) [0..<length ts] = zip ts us"
    using True by (intro nth_equalityI) simp_all
  with True show ?thesis by (auto simp: Zip_def)
qed (simp add: Zip_def)

section \<open>Reading the package\<close>

definition decoded :: "env \<Rightarrow> zentry \<Rightarrow> gerr + bytes" where
  "decoded E f =
     (case zpayload f of
        RawEntry h b \<Rightarrow> inflate E h b
      | FreshEntry d \<Rightarrow> Inr d
      | TornEntry \<Rightarrow> Inl (EMsg ''unexpected EOF''))"

definition plist_of ::
  "(bytes \<Rightarrow> gerr + 'a) \<Rightarrow> env \<Rightarrow> (zentry \<Rightarrow> bool) \<Rightarrow> zentry list \<Rightarrow> gerr + 'a option" where
  "plist_of unmarshal E P files =
     (case find P files of
        None \<Rightarrow> Inr None
      | Some f \<Rightarrow>
          (case decoded E f of
             Inl e \<Rightarrow> Inl e
           | Inr d \<Rightarrow> (case unmarshal d of Inl e \<Rightarrow> Inl e | Inr x \<Rightarrow> Inr (Some x))))"

lemma read_entry_Inr: "read_entry E f w = (Inr d, w1) \<Longrightarrow> decoded E f = Inr d"
  by (auto simp: read_entry_def decoded_def split: prod.splits option.splits zpayload.splits sum.splits)

lemma readManifestPlist_Inr:
  "readManifestPlist L E fs w = (Inr m, w1) \<Longrightarrow>
     plist_of (unmarshal_manifest L) E is_manifest_plist fs = Inr m"
  by (auto simp: readManifestPlist_def plist_of_def split: prod.splits option.splits sum.splits
      dest: read_entry_Inr)

lemma readInfoPlist_Inr:
  "readInfoPlist L E fs w = (Inr i, w1) \<Longrightarrow>
     plist_of (unmarshal_info L) E is_info_plist fs = Inr i"
  by (auto simp: readInfoPlist_def plist_of_def split: prod.splits option.splits sum.splits
      dest: read_entry_Inr)

lemma readBundleName_Inr_iff:
  "readBundleName files = Inr b \<longleftrightarrow>
     (\<exists>f. find is_bundle_plist files = Some f \<and>
          b = path_base (trim_suffix (zname f) ''.app/Info.plist''))"
  by (auto simp: readBundleName_def Let_def path_base_nonempty split: option.splits)

text \<open>The file that gives the bundle its name is one that \<open>readInfoPlist\<close> would take.\<close>

lemma readBundleName_has_info:
  assumes "readBundleName files = Inr b"
  shows "\<exists>f. find is_info_plist files = Some f"
proof -
  from assms obtain f where "find is_bundle_plist files = Some f"
    by (auto simp: readBundleName_Inr_iff)
  then show ?thesis
    by (rule find_weaken) (simp add: is_bundle_plist_def is_info_plist_def)
qed

lemma info_of_bundle:
  assumes "readBundleName files = Inr b"
    and "plist_of unm E is_info_plist files = Inr i"
  shows "\<exists>x. i = Some x"
  using readBundleName_has_info [OF assms(1)] assms(2)
  by (auto simp: plist_of_def split: sum.splits)

section \<open>The expected signatures\<close>

definition expected_sinfs ::
  "plist_lib \<Rightarrow> env \<Rightarrow> Sinf list \<Rightarrow> zentry list \<Rightarrow> zentry list option" where
  "expected_sinfs L E sinfs files =
     (case (readBundleName files,
            plist_of (unmarshal_manifest L) E is_manifest_plist files,
            plist_of (unmarshal_info L) E is_info_plist files) of
        (Inr b, Inr (Some paths), Inr _) \<Rightarrow>
          if length sinfs = length paths then Some (map2 (sinf_entry b) sinfs paths) else None
      | (Inr b, Inr None, Inr (Some exe)) \<Rightarrow>
          (case sinfs of
             [] \<Rightarrow> None
           | s # _ \<Rightarrow> Some [sinf_entry b s (''SC_Info/'' @ exe @ ''.sinf'')])
      | _ \<Rightarrow> None)"

text \<open>The steps of \<open>write_sinfs\<close>, once the copy and the three reads have succeeded.\<close>

lemma write_sinfs_reads:
  assumes "write_sinfs L E sinfs files w = (r, zw, w1)" and "\<nexists>e. r = Ret (Some e)"
  obtains b m i w3 where
    "readBundleName files = Inr b"
    "plist_of (unmarshal_manifest L) E is_manifest_plist files = Inr m"
    "plist_of (unmarshal_info L) E is_info_plist files = Inr (Some i)"
    "same_disk w3 w"
    "(case m of
        Some ps \<Rightarrow> replicateSinfFromManifest E ps sinfs b files w3
      | None \<Rightarrow> replicateSinfFromInfo E i sinfs b files w3) = (r, zw, w1)"
proof -
  from assms obtain wa where a: "replicateZip E files [] w = (None, files, wa)"
    by (auto simp: write_sinfs_def split: prod.splits option.splits dest: replicateZip_None)
  with assms obtain b where b: "readBundleName files = Inr b"
    by (auto simp: write_sinfs_def split: sum.splits)
  from a b assms obtain m wb where m: "readManifestPlist L E files wa = (Inr m, wb)"
    by (auto simp: write_sinfs_def split: prod.splits sum.splits)
  from a b m assms obtain i' wc where i': "readInfoPlist L E files wb = (Inr i', wc)"
    by (auto simp: write_sinfs_def split: prod.splits sum.splits)
  from info_of_bundle [OF b readInfoPlist_Inr [OF i']] obtain i where i: "i' = Some i" by blast
  have "same_disk wc w"
    using replicateZip_same_disk [OF a] readManifestPlist_same_disk [OF m]
      readInfoPlist_same_disk [OF i'] same_disk_trans by blast
  moreover have "(case m of
      Some ps \<Rightarrow> replicateSinfFromManifest E ps sinfs b files wc
    | None \<Rightarrow> replicateSinfFromInfo E i sinfs b files wc) = (r, zw, w1)"
    using assms a b m i' i
    by (cases m) (auto simp: write_sinfs_def split: prod.splits outcome.splits option.splits)
  ultimately show thesis
    using that b readManifestPlist_Inr [OF m] readInfoPlist_Inr [OF i'] i by blast
qed

lemma write_sinfs_None:
  assumes "write_sinfs L E sinfs files w = (Ret None, zw, w1)"
  shows "\<exists>extra. expected_sinfs L E sinfs files = Some extra \<and> zw = files @ extra"
proof -
  from assms obtain b m i w3 where
    h: "readBundleName files = Inr b"
      "plist_of (unmarshal_manifest L) E is_manifest_plist files = Inr m"
      "plist_of (unmarshal_info L) E is_info_plist files = Inr (Some i)"
    and c: "(case m of
        Some ps \<Rightarrow> replicateSinfFromManifest E ps sinfs b files w3
      | None \<Rightarrow> replicateSinfFromInfo E i sinfs b files w3) = (Ret None, zw, w1)"
    by (rule write_sinfs_reads) auto
  show ?thesis
  proof (cases m)
    case None
    with c obtain s rest za wa where "sinfs = s # rest"
      and "zip_create E (sinf_path b (''SC_Info/'' @ i @ ''.sinf'')) files w3 = (None, za, wa)"
      and "zip_write E (sinf_data s) za wa = (None, zw, w1)"
      by (auto simp: replicateSinfFromInfo_def split: prod.splits option.splits list.splits)
    with None h show ?thesis
      by (auto simp: expected_sinfs_def sinf_entry_def dest!: zip_create_None zip_write_None)
  next
    case (Some ps)
    with c have "length sinfs = length ps"
      and "write_pairs E b (zip sinfs ps) files w3 = (None, zw, w1)"
      by (auto simp: replicateSinfFromManifest_def Zip_Inr_iff split: prod.splits sum.splits)
    with Some h show ?thesis
      by (auto simp: expected_sinfs_def dest: write_pairs_None)
  qed
qed

lemma write_sinfs_Panicked:
  assumes "write_sinfs L E sinfs files w = (Panicked p, zw, w1)"
  shows "p = IndexOutOfRange \<and> sinfs = [] \<and> find is_manifest_plist files = None"
proof -
  from assms obtain b m i w3 where
    m: "plist_of (unmarshal_manifest L) E is_manifest_plist files = Inr m"
    and c: "(case m of
        Some ps \<Rightarrow> replicateSinfFromManifest E ps sinfs b files w3
      | None \<Rightarrow> replicateSinfFromInfo E i sinfs b files w3) = (Panicked p, zw, w1)"
    by (rule write_sinfs_reads) auto
  show ?thesis
  proof (cases m)
    case None
    with c m show ?thesis
      by (auto simp: replicateSinfFromInfo_def plist_of_def
          split: prod.splits option.splits list.splits sum.splits)
  next
    case (Some ps)
    with c show ?thesis
      by (auto simp: replicateSinfFromManifest_def split: prod.splits sum.splits)
  qed
qed

lemma write_sinfs_same_disk:
  assumes "write_sinfs L E sinfs files w = (r, zw, w1)"
  shows "same_disk w1 w"
  using assms unfolding write_sinfs_def
  by (auto split: prod.splits option.splits sum.splits outcome.splits dest!: zip_step_same_disk
      intro: same_disk_trans)

end
