(* ===== verification/Sinf_Props.thy ===== *)
theory Sinf_Props
  imports Sinf_Lemmas
begin

text \<open>
  The properties of the package rewrites: what \<open>ApplyPatches\<close> and \<open>ReplicateSinf\<close> leave
  on disk on success and on failure, when they succeed, and when they panic.
\<close>

section \<open>Runs without faults\<close>

definition no_faults :: "env \<Rightarrow> bool" where
  "no_faults E \<longleftrightarrow> fault E = (\<lambda>_. None)"

lemma sys_no_faults: "no_faults E \<Longrightarrow> sys E w = (None, w\<lparr>tick := Suc (tick w)\<rparr>)"
  by (simp add: sys_def no_faults_def)

lemma replicateZip_no_faults:
  "no_faults E \<Longrightarrow> fst (replicateZip E fs zw w) = None"
  by (induction E fs zw w rule: replicateZip.induct) (simp_all add: sys_no_faults)

lemma write_pairs_no_faults:
  assumes "no_faults E"
  shows "fst (write_pairs E b ps zw w) = None"
proof (induction ps arbitrary: zw w)
  case (Cons sp ps)
  then show ?case
    by (cases sp) (simp add: zip_create_def zip_write_def sys_no_faults [OF assms])
qed simp

lemma read_entry_no_faults:
  "no_faults E \<Longrightarrow> decoded E f = Inr d \<Longrightarrow> \<exists>w1. read_entry E f w = (Inr d, w1)"
  by (auto simp: read_entry_def decoded_def sys_no_faults split: zpayload.splits sum.splits)

lemma readManifestPlist_no_faults:
  assumes "no_faults E" and "plist_of (unmarshal_manifest L) E is_manifest_plist fs = Inr m"
  shows "\<exists>w1. readManifestPlist L E fs w = (Inr m, w1)"
  using assms read_entry_no_faults [OF assms(1), of _ _ w]
  by (fastforce simp: readManifestPlist_def plist_of_def split: option.splits sum.splits prod.splits)

lemma readInfoPlist_no_faults:
  assumes "no_faults E" and "plist_of (unmarshal_info L) E is_info_plist fs = Inr i"
  shows "\<exists>w1. readInfoPlist L E fs w = (Inr i, w1)"
  using assms read_entry_no_faults [OF assms(1), of _ _ w]
  by (fastforce simp: readInfoPlist_def plist_of_def split: option.splits sum.splits prod.splits)

lemma write_sinfs_no_faults:
  assumes E: "no_faults E" and x: "expected_sinfs L E sinfs files = Some extra"
  shows "\<exists>zw w1. write_sinfs L E sinfs files w = (Ret None, zw, w1)"
proof -
  obtain wa where a: "replicateZip E files [] w = (None, files, wa)"
    using replicateZip_no_faults [OF E, of files "[]" w] replicateZip_None
    by (metis append_Nil prod.collapse)
  from x obtain b m i where b: "readBundleName files = Inr b"
    and m: "plist_of (unmarshal_manifest L) E is_manifest_plist files = Inr m"
    and i: "plist_of (unmarshal_info L) E is_info_plist files = Inr (Some i)"
    using info_of_bundle by (fastforce simp: expected_sinfs_def split: sum.splits option.splits)
  obtain wb where wb: "readManifestPlist L E files wa = (Inr m, wb)"
    using readManifestPlist_no_faults [OF E m] by blast
  obtain wc where wc: "readInfoPlist L E files wb = (Inr (Some i), wc)"
    using readInfoPlist_no_faults [OF E i] by blast
  show ?thesis
  proof (cases m)
    case None
    with x b m i obtain s rest where "sinfs = s # rest"
      by (auto simp: expected_sinfs_def split: list.splits)
    with a b wb wc None show ?thesis
      by (simp add: write_sinfs_def replicateSinfFromInfo_def zip_create_def zip_write_def
          sys_no_faults [OF E])
  next
    case (Some ps)
    with x b m i have "length sinfs = length ps"
      by (auto simp: expected_sinfs_def split: if_splits)
    then have z: "Zip sinfs ps = Inr (zip sinfs ps)" by (simp add: Zip_Inr_iff)
    obtain zw wd where "write_pairs E b (zip sinfs ps) files wc = (None, zw, wd)"
      using write_pairs_no_faults [OF E, of b "zip sinfs ps" files wc] by (metis prod.collapse)
    with a b wb wc z Some show ?thesis
      by (simp add: write_sinfs_def replicateSinfFromManifest_def)
  qed
qed

section \<open>Replacing the package\<close>

lemma tmp_path_neq [simp]: "p @ ''.tmp'' \<noteq> p" "p \<noteq> p @ ''.tmp''"
  by simp_all

lemma os_remove_tick [simp]: "tick (snd (os_remove E p w)) = Suc (tick w)"
  by (auto simp: os_remove_def sys_def split: option.splits prod.splits)

lemma os_rename_tick [simp]: "tick (snd (os_rename E p q w)) = Suc (tick w)"
  by (auto simp: os_rename_def sys_def split: option.splits prod.splits)

text \<open>
  The run of \<open>ReplicateSinf\<close> up to the explicit closes: the archive is open, the
  temporary file is created, the entries are collected.
\<close>

lemma ReplicateSinf_started [consumes 1, case_names not_open written]:
  assumes "ReplicateSinf L E sinfs pkg w = (r, w1)"
  obtains e where "r = Ret (Some e)" "nodes w1 = nodes w"
  | files w3 zw rs where
      "archive_at E w pkg = Some files"
      "nodes w3 = (nodes w)(pkg @ ''.tmp'' \<mapsto> FileNode (Bytes []))"
      "handles w3 = (pkg @ ''.tmp'') # pkg # handles w"
      "\<exists>w2. write_sinfs L E sinfs files w2 = (rs, zw, w3)"
      "rs \<noteq> Ret None \<Longrightarrow>
         r = rs \<and> w1 = close_handle pkg (snd (close_writer E (pkg @ ''.tmp'') zw w3))"
      "rs = Ret None \<Longrightarrow>
         (let w6 = close_handle (pkg @ ''.tmp'')
                     (snd (close_writer E (pkg @ ''.tmp'') zw (close_handle pkg w3)))
          in (r, w1) =
             (case os_remove E pkg w6 of
                (Some e, w7) \<Rightarrow> (Ret (Some (EWrap ''failed to remove original file: '' e)), w7)
              | (None, w7) \<Rightarrow>
                  (case os_rename E (pkg @ ''.tmp'') pkg w7 of
                     (Some e, w8) \<Rightarrow> (Ret (Some (EWrap ''failed to rename the tmp file: '' e)), w8)
                   | (None, w8) \<Rightarrow> (Ret None, w8))))"
proof -
  obtain o1 wa where a: "open_reader E pkg w = (o1, wa)" by force
  show thesis
  proof (cases o1)
    case (Inl e)
    with a assms open_reader_Inl [of E pkg w e wa] that(1) show ?thesis
      by (auto simp: ReplicateSinf_def)
  next
    case (Inr files)
    obtain c wb where b: "os_create E (pkg @ ''.tmp'') wa = (c, wb)" by force
    show ?thesis
    proof (cases c)
      case (Some e)
      with a b Inr assms open_reader_Inr [of E pkg w files wa]
        os_create_SomeD [of E "pkg @ ''.tmp''" wa e wb] that(1) show ?thesis
        by (auto simp: ReplicateSinf_def Let_def world_simps)
    next
      case None
      obtain rs zw wc where d: "write_sinfs L E sinfs files wb = (rs, zw, wc)"
        by (metis prod.exhaust)
      from d have "same_disk wc wb" by (rule write_sinfs_same_disk)
      with a b Inr None open_reader_Inr [of E pkg w files wa]
        os_create_NoneD [of E "pkg @ ''.tmp''" wa wb]
      have "nodes wc = (nodes w)(pkg @ ''.tmp'' \<mapsto> FileNode (Bytes []))"
        "handles wc = (pkg @ ''.tmp'') # pkg # handles w"
        by (simp_all add: same_disk_def)
      moreover have "archive_at E w pkg = Some files"
        using a Inr by (auto dest: open_reader_archive)
      moreover from assms a b Inr None d have run:
        "(case rs of
            Ret None \<Rightarrow>
              (let w6 = close_handle (pkg @ ''.tmp'')
                          (snd (close_writer E (pkg @ ''.tmp'') zw (close_handle pkg wc)))
               in case os_remove E pkg w6 of
                    (Some e, w7) \<Rightarrow> (Ret (Some (EWrap ''failed to remove original file: '' e)), w7)
                  | (None, w7) \<Rightarrow>
                      (case os_rename E (pkg @ ''.tmp'') pkg w7 of
                         (Some e, w8) \<Rightarrow> (Ret (Some (EWrap ''failed to rename the tmp file: '' e)), w8)
                       | (None, w8) \<Rightarrow> (Ret None, w8)))
          | _ \<Rightarrow> (rs, close_handle pkg (snd (close_writer E (pkg @ ''.tmp'') zw wc)))) = (r, w1)"
        by (cases rs) (auto simp: ReplicateSinf_def Let_def split: option.split)
      have "r = rs \<and> w1 = close_handle pkg (snd (close_writer E (pkg @ ''.tmp'') zw wc))"
        if "rs \<noteq> Ret None"
        using that run by (auto split: outcome.splits option.splits)
      moreover have
        "let w6 = close_handle (pkg @ ''.tmp'')
                    (snd (close_writer E (pkg @ ''.tmp'') zw (close_handle pkg wc)))
         in (r, w1) =
            (case os_remove E pkg w6 of
               (Some e, w7) \<Rightarrow> (Ret (Some (EWrap ''failed to remove original file: '' e)), w7)
             | (None, w7) \<Rightarrow>
                 (case os_rename E (pkg @ ''.tmp'') pkg w7 of
                    (Some e, w8) \<Rightarrow> (Ret (Some (EWrap ''failed to rename the tmp file: '' e)), w8)
                  | (None, w8) \<Rightarrow> (Ret None, w8)))"
        if "rs = Ret None"
        using that run by (simp add: Let_def)
      ultimately show ?thesis
        using that(2) [of files wc rs zw] d by blast
    qed
  qed
qed

section \<open>Properties of ReplicateSinf\<close>

lemma ReplicateSinf_result:
  assumes "ReplicateSinf L E sinfs pkg w = (Ret None, w1)"
  shows "\<exists>files extra. archive_at E w pkg = Some files \<and>
    expected_sinfs L E sinfs files = Some extra \<and>
    nodes w1 = (nodes w)(pkg @ ''.tmp'' := None,
      pkg \<mapsto> FileNode (if fault E (tick w1 - 3) = None then Zipped (files @ extra) else TornZip)) \<and>
    handles w1 = handles w"
using assms
proof (cases rule: ReplicateSinf_started)
  case (written files w3 zw rs)
  then have rs: "rs = Ret None" by auto
  with written(4) obtain extra where
    x: "expected_sinfs L E sinfs files = Some extra" and zw: "zw = files @ extra"
    by (auto dest: write_sinfs_None)
  define w5 where "w5 = snd (close_writer E (pkg @ ''.tmp'') zw (close_handle pkg w3))"
  define w6 where "w6 = close_handle (pkg @ ''.tmp'') w5"
  from written(6) [OF rs] obtain w7 where
    rm: "os_remove E pkg w6 = (None, w7)" and mv: "os_rename E (pkg @ ''.tmp'') pkg w7 = (None, w1)"
    by (auto simp: Let_def w5_def w6_def split: prod.splits option.splits)
  from os_files.replace_by_rename [of pkg "pkg @ ''.tmp''" E w6 w7 w1] rm mv
  have repl: "nodes w1 pkg = nodes w6 (pkg @ ''.tmp'')" "nodes w1 (pkg @ ''.tmp'') = None"
    "\<And>q. q \<noteq> pkg \<Longrightarrow> q \<noteq> pkg @ ''.tmp'' \<Longrightarrow> nodes w1 q = nodes w6 q"
    by (auto simp: try_remove_def try_rename_def)
  have tk: "tick w1 - 3 = tick w3"
  proof -
    have "tick w7 = Suc (tick w6)" "tick w1 = Suc (tick w7)"
      using rm mv os_remove_tick os_rename_tick by (metis snd_conv)+
    then show ?thesis by (simp add: w6_def w5_def world_simps)
  qed
  have "handles w7 = handles w6" "handles w1 = handles w7"
    using rm mv os_remove_world(1) os_rename_world(1) by (metis snd_conv)+
  then have "handles w1 = handles w"
    by (simp add: w6_def w5_def world_simps written(3))
  moreover have "nodes w1 = (nodes w)(pkg @ ''.tmp'' := None,
      pkg \<mapsto> FileNode (if fault E (tick w1 - 3) = None then Zipped (files @ extra) else TornZip))"
    unfolding tk
    by (rule ext) (auto simp: repl w6_def w5_def world_simps close_writer_nodes written(2) zw)
  ultimately show ?thesis using written(1) x by blast
qed auto

text \<open>
  C14: when \<open>ReplicateSinf\<close> returns nil, the package holds the entries it had followed by
  exactly the expected signatures, the temporary file is gone, no other path changed and no
  handle is left open. The one exception is a failing \<open>zipWriter.Close()\<close> (the third last
  system call), whose error the code drops: then the package is a torn archive.
\<close>

theorem ReplicateSinf_success:
  assumes "ReplicateSinf L E sinfs pkg w = (Ret None, w1)"
  shows "\<exists>files extra. archive_at E w pkg = Some files \<and>
    expected_sinfs L E sinfs files = Some extra \<and>
    nodes w1 = (nodes w)(pkg @ ''.tmp'' := None,
      pkg \<mapsto> FileNode (if fault E (tick w1 - 3) = None then Zipped (files @ extra) else TornZip)) \<and>
    handles w1 = handles w"
  by (rule ReplicateSinf_result [OF assms])

lemma ReplicateSinf_error:
  assumes "ReplicateSinf L E sinfs pkg w = (r, w1)" and "r \<noteq> Ret None"
  shows "(\<forall>q. q \<noteq> pkg \<and> q \<noteq> pkg @ ''.tmp'' \<longrightarrow> nodes w1 q = nodes w q) \<and>
    (nodes w1 pkg = nodes w pkg \<or>
     (\<exists>e files extra.
        r = Ret (Some (EWrap ''failed to rename the tmp file: '' e)) \<and>
        archive_at E w pkg = Some files \<and> expected_sinfs L E sinfs files = Some extra \<and>
        nodes w1 pkg = None \<and>
        nodes w1 (pkg @ ''.tmp'') = Some (FileNode
          (if fault E (tick w1 - 3) = None then Zipped (files @ extra) else TornZip))))"
using assms(1)
proof (cases rule: ReplicateSinf_started)
  case (written files w3 zw rs)
  show ?thesis
  proof (cases "rs = Ret None")
    case False
    with written(5) show ?thesis by (auto simp: world_simps written(2))
  next
    case rs: True
    with written(4) obtain extra where
      x: "expected_sinfs L E sinfs files = Some extra" and zw: "zw = files @ extra"
      by (auto dest: write_sinfs_None)
    define w6 where "w6 = close_handle (pkg @ ''.tmp'')
      (snd (close_writer E (pkg @ ''.tmp'') zw (close_handle pkg w3)))"
    have w6: "nodes w6 = (nodes w)(pkg @ ''.tmp'' \<mapsto>
        FileNode (if fault E (tick w3) = None then Zipped (files @ extra) else TornZip))"
      by (simp add: w6_def world_simps close_writer_nodes written(2) zw)
    obtain rm w7 where rm: "os_remove E pkg w6 = (rm, w7)" by force
    show ?thesis
    proof (cases rm)
      case (Some e)
      with written(6) [OF rs] rm w6 os_remove_SomeD [of E pkg w6 e w7] show ?thesis
        by (auto simp: Let_def w6_def [symmetric])
    next
      case None
      with written(6) [OF rs] rm assms(2) obtain e where
        mv: "os_rename E (pkg @ ''.tmp'') pkg w7 = (Some e, w1)"
        and r: "r = Ret (Some (EWrap ''failed to rename the tmp file: '' e))"
        by (auto simp: Let_def w6_def [symmetric] split: prod.splits option.splits)
      have "tick w7 = Suc (tick w6)" "tick w1 = Suc (tick w7)"
        using rm mv os_remove_tick os_rename_tick by (metis snd_conv)+
      then have tk: "tick w1 - 3 = tick w3" by (simp add: w6_def world_simps)
      have "nodes w1 = (nodes w6)(pkg := None)"
        using os_rename_SomeD [OF mv] os_remove_NoneD [of E pkg w6 w7] rm None by simp
      with r x written(1) w6 show ?thesis unfolding tk by auto
    qed
  qed
qed simp

text \<open>
  C15: when \<open>ReplicateSinf\<close> does not return nil, the package is as it was, unless the error is
  that of the last step: the original was removed and the copy could not be renamed. Then the
  whole copy, with the expected signatures, is still there under the temporary name, except
  when \<open>zipWriter.Close()\<close>, the third last system call, failed, whose error the code drops:
  then a torn archive is there.
\<close>

theorem ReplicateSinf_failure:
  assumes "ReplicateSinf L E sinfs pkg w = (r, w1)" and "r \<noteq> Ret None"
  shows "(\<forall>q. q \<noteq> pkg \<and> q \<noteq> pkg @ ''.tmp'' \<longrightarrow> nodes w1 q = nodes w q) \<and>
    (nodes w1 pkg = nodes w pkg \<or>
     (\<exists>e files extra.
        r = Ret (Some (EWrap ''failed to rename the tmp file: '' e)) \<and>
        archive_at E w pkg = Some files \<and> expected_sinfs L E sinfs files = Some extra \<and>
        nodes w1 pkg = None \<and>
        nodes w1 (pkg @ ''.tmp'') = Some (FileNode
          (if fault E (tick w1 - 3) = None then Zipped (files @ extra) else TornZip))))"
  by (rule ReplicateSinf_error [OF assms])

text \<open>
  C25: \<open>*info\<close> never dereferences nil, because a package that has a bundle name has an
  \<open>Info.plist\<close>; the only panic is \<open>sinfs[0]\<close> on an empty slice, for a package without a
  manifest.
\<close>

theorem ReplicateSinf_panics:
  assumes "ReplicateSinf L E sinfs pkg w = (Panicked p, w1)"
  shows "p = IndexOutOfRange \<and> sinfs = [] \<and>
    (\<exists>files. archive_at E w pkg = Some files \<and> find is_manifest_plist files = None)"
using assms
proof (cases rule: ReplicateSinf_started)
  case (written files w3 zw rs)
  have "rs = Panicked p"
  proof (cases "rs = Ret None")
    case True
    with written(6) show ?thesis by (auto simp: Let_def split: prod.splits option.splits)
  qed (use written(5) in auto)
  with written(1,4) show ?thesis by (auto dest: write_sinfs_Panicked)
qed simp

section \<open>Concrete runs\<close>

text \<open>
  A package as the store delivers it, an environment in which nothing fails, and one in
  which the call number \<open>n\<close> does.
\<close>

definition sample_archive :: "zentry list" where
  "sample_archive =
     [\<lparr>zname = ''Payload/Foo.app/Info.plist'', zpayload = RawEntry ''h'' ''FooExe''\<rparr>,
      \<lparr>zname = ''Payload/Foo.app/FooExe'', zpayload = RawEntry ''h'' ''code''\<rparr>]"

definition ipa_response :: http_response where
  "ipa_response =
     \<lparr>hp_status = 200, hp_status_text = ''200 OK'', hp_header = [(''Content-Length'', [''3''])],
      hp_close = False, hp_body = bytes_reader ''ipa''\<rparr>"

definition calm_env :: env where
  "calm_env =
     \<lparr>fault = (\<lambda>_. None), respond = (\<lambda>_ _. Inr ipa_response), bad_request = (\<lambda>_ _. None),
      gunzip = Inr, parse_zip = (\<lambda>_. Inr sample_archive), inflate = (\<lambda>_. Inr)\<rparr>"

definition failing_env :: "nat \<Rightarrow> env" where
  "failing_env n = calm_env\<lparr>fault := (\<lambda>k. if k = n then Some (''disk full'', 0) else None)\<rparr>"

definition sample_world :: "zentry list \<Rightarrow> world" where
  "sample_world es =
     \<lparr>nodes = Map.empty(''p.ipa'' \<mapsto> FileNode (Zipped es)), handles = [], stdout = [], tick = 0\<rparr>"

definition sample_sinf :: Sinf where
  "sample_sinf = \<lparr>sinf_id = 0, sinf_data = ''SINF''\<rparr>"

lemma no_faults_calm [simp]: "no_faults calm_env"
  by (simp add: no_faults_def calm_env_def)

lemma archive_at_sample [simp]: "archive_at E (sample_world es) ''p.ipa'' = Some es"
  by (simp add: archive_at_def sample_world_def)

section \<open>Completion\<close>

lemma open_reader_no_faults:
  "no_faults E \<Longrightarrow> archive_at E w p = Some es \<Longrightarrow>
     open_reader E p w = (Inr es, w\<lparr>tick := Suc (tick w), handles := p # handles w\<rparr>)"
  by (auto simp: open_reader_def os_read_file_def archive_at_def sys_no_faults
      split: option.splits node.splits content.splits sum.splits)

lemma os_create_no_faults:
  "no_faults E \<Longrightarrow> nodes w p \<noteq> Some DirNode \<Longrightarrow> \<exists>w1. os_create E p w = (None, w1)"
  by (simp add: os_create_def sys_no_faults)

lemma archive_at_Some_node: "archive_at E w p = Some es \<Longrightarrow> \<exists>c. nodes w p = Some (FileNode c)"
  by (auto simp: archive_at_def split: option.splits node.splits)

lemma ReplicateSinf_no_faults:
  assumes E: "no_faults E" and a: "archive_at E w pkg = Some files"
    and x: "expected_sinfs L E sinfs files = Some extra"
    and d: "nodes w (pkg @ ''.tmp'') \<noteq> Some DirNode"
  shows "\<exists>w1. ReplicateSinf L E sinfs pkg w = (Ret None, w1)"
proof -
  let ?wa = "w\<lparr>tick := Suc (tick w), handles := pkg # handles w\<rparr>"
  from E d obtain wb where b: "os_create E (pkg @ ''.tmp'') ?wa = (None, wb)"
    using os_create_no_faults [of E ?wa "pkg @ ''.tmp''"] by auto
  obtain zw wc where c: "write_sinfs L E sinfs files wb = (Ret None, zw, wc)"
    using write_sinfs_no_faults [OF E x] by blast
  define w6 where "w6 = close_handle (pkg @ ''.tmp'')
    (snd (close_writer E (pkg @ ''.tmp'') zw (close_handle pkg wc)))"
  have "nodes wc = nodes wb"
    using write_sinfs_same_disk [OF c] by (simp add: same_disk_def)
  with os_create_NoneD [OF b] archive_at_Some_node [OF a] obtain cc where
    n: "nodes w6 pkg = Some (FileNode cc)" "nodes w6 (pkg @ ''.tmp'') = Some (FileNode (Zipped zw))"
    using E by (auto simp: w6_def world_simps close_writer_nodes no_faults_def)
  then have "\<exists>w7. os_remove E pkg w6 = (None, w7) \<and>
      (\<exists>w8. os_rename E (pkg @ ''.tmp'') pkg w7 = (None, w8))"
    by (simp add: os_remove_def os_rename_def sys_no_faults [OF E])
  with open_reader_no_faults [OF E a] b c show ?thesis
    by (auto simp: ReplicateSinf_def Let_def w6_def [symmetric])
qed

text \<open>
  \<open>ReplicateSinf\<close> does return nil when no call fails, the archive can be read, its
  plists decode, there is a signature for every path, and the temporary path is no directory.
\<close>

theorem ReplicateSinf_completes:
  assumes "no_faults E" and "archive_at E w pkg = Some files"
    and "expected_sinfs L E sinfs files = Some extra"
    and "nodes w (pkg @ ''.tmp'') \<noteq> Some DirNode"
  shows "\<exists>w1. ReplicateSinf L E sinfs pkg w = (Ret None, w1) \<and>
    nodes w1 pkg = Some (FileNode (Zipped (files @ extra)))"
proof -
  from ReplicateSinf_no_faults [OF assms] obtain w1 where
    r: "ReplicateSinf L E sinfs pkg w = (Ret None, w1)" by blast
  then have "\<exists>files extra. archive_at E w pkg = Some files \<and>
      expected_sinfs L E sinfs files = Some extra \<and>
      nodes w1 pkg = Some (FileNode (Zipped (files @ extra)))"
    using ReplicateSinf_result [OF r] assms(1) by (auto simp: no_faults_def)
  with r assms(2,3) show ?thesis by auto
qed

lemma expected_sample:
  "expected_sinfs (sample_lib []) calm_env [sample_sinf] sample_archive =
     Some [sinf_entry ''Foo'' sample_sinf ''SC_Info/FooExe.sinf'']"
  by code_simp

theorem ReplicateSinf_completes_witness:
  "\<exists>w1. ReplicateSinf (sample_lib []) calm_env [sample_sinf] ''p.ipa'' (sample_world sample_archive)
       = (Ret None, w1) \<and>
     nodes w1 ''p.ipa'' =
       Some (FileNode (Zipped (sample_archive @ [sinf_entry ''Foo'' sample_sinf ''SC_Info/FooExe.sinf''])))"
  by (rule ReplicateSinf_completes [OF no_faults_calm archive_at_sample expected_sample])
    (simp add: sample_world_def)

theorem ReplicateSinf_success_witness:
  "\<exists>w1. ReplicateSinf (sample_lib []) calm_env [sample_sinf] ''p.ipa'' (sample_world sample_archive)
       = (Ret None, w1) \<and> nodes w1 ''p.ipa.tmp'' = None \<and> handles w1 = []"
proof -
  obtain w1 where r: "ReplicateSinf (sample_lib []) calm_env [sample_sinf] ''p.ipa''
      (sample_world sample_archive) = (Ret None, w1)"
    using ReplicateSinf_no_faults [OF no_faults_calm archive_at_sample expected_sample]
    by (auto simp: sample_world_def)
  from ReplicateSinf_success [OF r] r show ?thesis by (auto simp: sample_world_def)
qed

theorem ReplicateSinf_failure_witness:
  "\<exists>w1. ReplicateSinf (sample_lib []) (failing_env 0) [sample_sinf] ''p.ipa''
       (sample_world sample_archive) = (Ret (Some (EMsg ''failed to open zip reader'')), w1) \<and>
     nodes w1 ''p.ipa'' = Some (FileNode (Zipped sample_archive))"
proof -
  obtain w1 where r: "ReplicateSinf (sample_lib []) (failing_env 0) [sample_sinf] ''p.ipa''
      (sample_world sample_archive) = (Ret (Some (EMsg ''failed to open zip reader'')), w1)"
    by (simp add: ReplicateSinf_def open_reader_def os_read_file_def sys_def failing_env_def
        calm_env_def sample_world_def)
  from ReplicateSinf_failure [OF r] r show ?thesis by (auto simp: sample_world_def)
qed

theorem ReplicateSinf_panics_witness:
  "\<exists>w1. ReplicateSinf (sample_lib []) calm_env [] ''p.ipa'' (sample_world sample_archive)
       = (Panicked IndexOutOfRange, w1) \<and> find is_manifest_plist sample_archive = None"
proof -
  have "fst (ReplicateSinf (sample_lib []) calm_env [] ''p.ipa'' (sample_world sample_archive))
      = Panicked IndexOutOfRange"
    by code_simp
  then obtain w1 where r: "ReplicateSinf (sample_lib []) calm_env [] ''p.ipa''
      (sample_world sample_archive) = (Panicked IndexOutOfRange, w1)"
    by (metis prod.collapse)
  from ReplicateSinf_panics [OF r] r show ?thesis by auto
qed

section \<open>ApplyPatches\<close>

lemma ApplyPatches_started:
  assumes "ApplyPatches L E md src dst w = (r, w1)"
  shows "(\<exists>e. r = Some e \<and> nodes w1 = nodes w \<and> handles w1 = handles w) \<or>
    (\<exists>files zw t. archive_at E w src = Some files \<and>
       nodes w1 = (nodes w)(dst \<mapsto> FileNode (if fault E t = None then Zipped zw else TornZip)) \<and>
       tick w1 = Suc t \<and> handles w1 = remove1 src (dst # src # handles w) \<and>
       (r = None \<longrightarrow> (\<exists>data. marshal_metadata L md = Inr data \<and>
          zw = files @ [\<lparr>zname = ''iTunesMetadata.plist'', zpayload = FreshEntry data\<rparr>])))"
proof -
  obtain o1 wa where a: "open_reader E src w = (o1, wa)" by force
  show ?thesis
  proof (cases o1)
    case (Inl e)
    with a assms open_reader_Inl [of E src w e wa] show ?thesis
      by (auto simp: ApplyPatches_def)
  next
    case (Inr files)
    note wa = open_reader_Inr [OF a [unfolded Inr]]
    obtain c wb where b: "os_create E dst wa = (c, wb)" by force
    show ?thesis
    proof (cases c)
      case (Some e)
      with a b Inr assms wa os_create_SomeD [of E dst wa e wb] show ?thesis
        by (auto simp: ApplyPatches_def world_simps)
    next
      case None
      obtain ra za wc where c: "replicateZip E files [] wb = (ra, za, wc)" by (metis prod.exhaust)
      obtain rb zb wd where d: "writeMetadata L E md za wc = (rb, zb, wd)" by (metis prod.exhaust)
      define zw where "zw = (if ra = None then zb else za)"
      define we where "we = (if ra = None then wd else wc)"
      have we: "same_disk we wb"
        using replicateZip_same_disk [OF c] writeMetadata_same_disk [OF d]
        by (auto simp: we_def intro: same_disk_trans)
      have w1: "w1 = close_handle src (snd (close_writer E dst zw we))"
        and r: "r = None \<longleftrightarrow> ra = None \<and> rb = None"
        using assms a b c d Inr None
        by (auto simp: ApplyPatches_def zw_def we_def split: option.splits)
      have "r = None \<longrightarrow> (\<exists>data. marshal_metadata L md = Inr data \<and>
          zw = files @ [\<lparr>zname = ''iTunesMetadata.plist'', zpayload = FreshEntry data\<rparr>])"
        using r c d replicateZip_None [of E files "[]" wb za wc] writeMetadata_None [of L E md za wc zb wd]
        by (auto simp: zw_def)
      moreover have "nodes w1 = (nodes w)(dst \<mapsto>
          FileNode (if fault E (tick we) = None then Zipped zw else TornZip))"
        using we os_create_NoneD [of E dst wa wb] b None wa
        by (auto simp: w1 world_simps close_writer_nodes same_disk_def)
      moreover have "handles w1 = remove1 src (dst # src # handles w)"
        using we os_create_NoneD [of E dst wa wb] b None wa
        by (simp add: w1 world_simps same_disk_def)
      moreover have "tick w1 = Suc (tick we)" by (simp add: w1 world_simps)
      moreover have "archive_at E w src = Some files"
        using a Inr by (auto dest: open_reader_archive)
      ultimately show ?thesis by blast
    qed
  qed
qed

lemma ApplyPatches_result:
  assumes "ApplyPatches L E md src dst w = (None, w1)" and "src \<noteq> dst"
  shows "\<exists>files data. archive_at E w src = Some files \<and> marshal_metadata L md = Inr data \<and>
    nodes w1 = (nodes w)(dst \<mapsto> FileNode
      (if fault E (tick w1 - 1) = None
       then Zipped (files @ [\<lparr>zname = ''iTunesMetadata.plist'', zpayload = FreshEntry data\<rparr>])
       else TornZip)) \<and>
    handles w1 = dst # handles w"
  using ApplyPatches_started [OF assms(1)] assms(2) by auto

text \<open>
  when \<open>ApplyPatches\<close> returns nil, the target holds the entries of the source followed by
  the marshalled metadata, or a torn archive when the deferred \<open>Close\<close> (the last system call)
  failed unnoticed; no other file changed, and the handle on the target is still open.
\<close>

theorem ApplyPatches_success:
  assumes "ApplyPatches L E md src dst w = (None, w1)" and "src \<noteq> dst"
  shows "\<exists>files data. archive_at E w src = Some files \<and> marshal_metadata L md = Inr data \<and>
    nodes w1 = (nodes w)(dst \<mapsto> FileNode
      (if fault E (tick w1 - 1) = None
       then Zipped (files @ [\<lparr>zname = ''iTunesMetadata.plist'', zpayload = FreshEntry data\<rparr>])
       else TornZip)) \<and>
    handles w1 = dst # handles w"
  by (rule ApplyPatches_result [OF assms])

theorem ApplyPatches_success_witness:
  "\<exists>w1. ApplyPatches (sample_lib []) calm_env [] ''p.ipa'' ''q.ipa'' (sample_world sample_archive)
       = (None, w1) \<and> handles w1 = [''q.ipa'']"
proof -
  have "fst (ApplyPatches (sample_lib []) calm_env [] ''p.ipa'' ''q.ipa''
      (sample_world sample_archive)) = None"
    by code_simp
  then obtain w1 where r: "ApplyPatches (sample_lib []) calm_env [] ''p.ipa'' ''q.ipa''
      (sample_world sample_archive) = (None, w1)"
    by (metis prod.collapse)
  from ApplyPatches_success [OF r] r show ?thesis by (auto simp: sample_world_def)
qed

section \<open>Two defects\<close>

text \<open>
  an error of \<open>zipWriter.Close()\<close> in \<open>ReplicateSinf\<close> is dropped: there is a run in which
  that call fails, the function returns nil, and the package that was there has been replaced
  by a file that is no archive.
\<close>

theorem ReplicateSinf_close_error_lost:
  "\<exists>n w1. ReplicateSinf (sample_lib []) (failing_env n) [sample_sinf] ''p.ipa''
       (sample_world sample_archive) = (Ret None, w1) \<and>
     nodes w1 ''p.ipa'' = Some (FileNode TornZip)"
proof -
  let ?run = "ReplicateSinf (sample_lib []) (failing_env 11) [sample_sinf] ''p.ipa''
    (sample_world sample_archive)"
  have "fst ?run = Ret None" "nodes (snd ?run) ''p.ipa'' = Some (FileNode TornZip)"
    by code_simp+
  then show ?thesis by (metis prod.collapse)
qed

text \<open>
  \<open>readBundleName\<close> skips the plist of a Watch app but \<open>readInfoPlist\<close> does not. For a
  package that lists the Watch app first and has no manifest, the signature goes into the
  main bundle under the name of the Watch app's executable.
\<close>

theorem watch_app_misplaces_sinf:
  "let watch = \<lparr>zname = ''Payload/Foo.app/Watch/FooWatch.app/Info.plist'',
                zpayload = RawEntry ''h'' ''FooWatchExe''\<rparr>;
       written = (\<lambda>files. fst (snd (write_sinfs (sample_lib []) calm_env [sample_sinf] files
                                      (sample_world files))))
   in written (watch # sample_archive) =
        watch # sample_archive @ [sinf_entry ''Foo'' sample_sinf ''SC_Info/FooWatchExe.sinf''] \<and>
      written (sample_archive @ [watch]) =
        sample_archive @ [watch, sinf_entry ''Foo'' sample_sinf ''SC_Info/FooExe.sinf'']"
  by code_simp

end
