(* ===== verification/Download_App.thy ===== *)
theory Download_App
  imports Sinf_Props
begin

text \<open>
  The second half of \<open>ipaversionlib/app.go\<close>: \<open>DownloadApp\<close>, which composes the download,
  the metadata patch, the signatures and the removal of the temporary file. The lemmas say
  what the final package contains, which paths may change, and what an existing file means
  when it must not be overwritten.
\<close>

definition app_filename :: "AppInfo \<Rightarrow> string" where
  "app_filename app = BundleDisplayName app @ '' '' @ BundleShortVersionString app @ ''.ipa''"

text \<open>\<open>fmt.Errorf(msg + "%v\n", err)\<close>, which formats the error without wrapping it.\<close>

definition errorf_line :: "string \<Rightarrow> gerr \<Rightarrow> gerr" where
  "errorf_line msg err = EMsg (msg @ err_text err @ [CHR 0x0A])"

text \<open>
  The part of \<open>DownloadApp\<close> after the check for an existing file, in two steps. The named
  results are \<open>filename\<close>, \<open>exists\<close> (false here) and the error.
\<close>

definition sign_and_clean ::
  "plist_lib \<Rightarrow> env \<Rightarrow> AppInfo \<Rightarrow> string \<Rightarrow> world \<Rightarrow> gerr option outcome \<times> world" where
  "sign_and_clean L E app filename w =
     (case ReplicateSinf L E (Sinfs (Item app)) filename (println ''Replicate sinfs...'' w) of
        (Panicked p, w3) \<Rightarrow> (Panicked p, w3)
      | (Ret (Some e), w3) \<Rightarrow> (Ret (Some (errorf_line ''Failed to replicate sinfs: '' e)), w3)
      | (Ret None, w3) \<Rightarrow>
          (case os_remove E (filename @ ''.downloading'') (println ''Remove tmp files...'' w3) of
             (Some e, w4) \<Rightarrow> (Ret (Some (errorf_line ''Failed to remove tmp file: '' e)), w4)
           | (None, w4) \<Rightarrow> (Ret None, w4)))"

definition download_line :: "AppInfo \<Rightarrow> string \<Rightarrow> string" where
  "download_line app filename =
     ''Downloading '' @ BundleDisplayName app @ '' '' @ BundleShortVersionString app @ '' ('' @
     uint64_str (SoftwareVersionExternalIdentifier app) @ '') to file ['' @ filename @ '']...''"

definition download_and_patch ::
  "plist_lib \<Rightarrow> env \<Rightarrow> AppInfo \<Rightarrow> string \<Rightarrow> string \<Rightarrow> world \<Rightarrow> gerr option outcome \<times> world" where
  "download_and_patch L E app userAgent filename w =
     (let tmpFile = filename @ ''.downloading''
      in case DownloadFile E (URL (Item app)) tmpFile userAgent (println (download_line app filename) w) of
           (Some e, w1) \<Rightarrow> (Ret (Some e), w1)
         | (None, w1) \<Rightarrow>
      (case ApplyPatches L E (Metadata (Item app)) tmpFile filename (println ''Apply patches...'' w1) of
           (Some e, w2) \<Rightarrow> (Ret (Some (errorf_line ''Failed to apply patches: '' e)), w2)
         | (None, w2) \<Rightarrow> sign_and_clean L E app filename w2))"

definition DownloadApp ::
  "plist_lib \<Rightarrow> env \<Rightarrow> AppInfo \<Rightarrow> string \<Rightarrow> bool \<Rightarrow> world
     \<Rightarrow> (string \<times> bool \<times> gerr option) outcome \<times> world" where
  "DownloadApp L E app userAgent overwrite w =
     (let filename = app_filename app;
          proceed = (\<lambda>w1. case download_and_patch L E app userAgent filename w1 of
                            (Panicked p, w2) \<Rightarrow> (Panicked p, w2)
                          | (Ret err, w2) \<Rightarrow> (Ret (filename, False, err), w2))
      in if \<not> overwrite
         then (case fileExists E filename w of
                 (Inl e, w1) \<Rightarrow> (Ret (filename, False, Some e), w1)
               | (Inr True, w1) \<Rightarrow> (Ret (filename, True, None), w1)
               | (Inr False, w1) \<Rightarrow> proceed w1)
         else proceed w)"

lemma download_path_neq [simp]:
  "f @ ''.downloading'' \<noteq> f" "f \<noteq> f @ ''.downloading''"
  "f @ ''.downloading'' \<noteq> f @ ''.tmp''" "f @ ''.tmp'' \<noteq> f @ ''.downloading''"
  by simp_all

section \<open>Frames of the composed steps\<close>

lemma ReplicateSinf_frame:
  assumes "ReplicateSinf L E sinfs pkg w = (r, w1)" and "q \<noteq> pkg" and "q \<noteq> pkg @ ''.tmp''"
  shows "nodes w1 q = nodes w q"
  using assms(1)
proof (cases rule: ReplicateSinf_started)
  case (written files w3 zw rs)
  show ?thesis
  proof (cases "rs = Ret None")
    case False
    with written(5) assms(2,3) show ?thesis by (auto simp: world_simps written(2))
  next
    case True
    define w6 where "w6 = close_handle (pkg @ ''.tmp'')
      (snd (close_writer E (pkg @ ''.tmp'') zw (close_handle pkg w3)))"
    have w6: "nodes w6 q = nodes w q"
      using assms(2,3) by (simp add: w6_def world_simps written(2))
    obtain rm w7 where rm: "os_remove E pkg w6 = (rm, w7)" by force
    have w7: "nodes w7 q = nodes w q"
      using os_remove_world(3) [of q pkg E w6] assms(2) rm w6 by simp
    obtain mv w8 where mv: "os_rename E (pkg @ ''.tmp'') pkg w7 = (mv, w8)" by force
    have w8: "nodes w8 q = nodes w q"
      using mv w7 assms(2,3) os_rename_NoneD [of E "pkg @ ''.tmp''" pkg w7 w8]
        os_rename_SomeD [of E "pkg @ ''.tmp''" pkg w7 _ w8]
      by (cases mv) auto
    from True written(6) rm mv w7 w8 show ?thesis
      by (auto simp: Let_def w6_def [symmetric] split: option.splits)
  qed
qed simp

lemma ApplyPatches_frame:
  assumes "ApplyPatches L E md src dst w = (r, w1)" and "q \<noteq> dst"
  shows "nodes w1 q = nodes w q"
  using ApplyPatches_started [OF assms(1)] assms(2) by auto

lemma DownloadFile_frame:
  assumes "DownloadFile E u p a w = (r, w1)" and "q \<noteq> p"
  shows "nodes w1 q = nodes w q"
  using DownloadFile_world(3) [of q p E u a w] assms by simp

lemma download_and_patch_frame:
  assumes "download_and_patch L E app ua f w = (r, w1)"
    and "q \<notin> {f, f @ ''.tmp'', f @ ''.downloading''}"
  shows "nodes w1 q = nodes w q"
proof -
  obtain r1 wa where a: "DownloadFile E (URL (Item app)) (f @ ''.downloading'') ua
      (println (download_line app f) w) = (r1, wa)"
    by force
  obtain r2 wb where b: "ApplyPatches L E (Metadata (Item app)) (f @ ''.downloading'') f
      (println ''Apply patches...'' wa) = (r2, wb)"
    by force
  obtain r3 wc where c: "ReplicateSinf L E (Sinfs (Item app)) f (println ''Replicate sinfs...'' wb) = (r3, wc)"
    by force
  obtain r4 wd where d: "os_remove E (f @ ''.downloading'') (println ''Remove tmp files...'' wc) = (r4, wd)"
    by force
  have "nodes wa q = nodes w q" "nodes wb q = nodes wa q" "nodes wc q = nodes wb q"
    "nodes wd q = nodes wc q"
    using assms(2) DownloadFile_frame [OF a] ApplyPatches_frame [OF b] ReplicateSinf_frame [OF c]
      os_remove_world(3) [of q "f @ ''.downloading''" E "println ''Remove tmp files...'' wc"] d by auto
  with assms(1) a b c d show ?thesis
    by (auto simp: download_and_patch_def sign_and_clean_def Let_def split: option.splits outcome.splits)
qed

section \<open>The finished package\<close>

definition metadata_entry :: "bytes \<Rightarrow> zentry" where
  "metadata_entry data = \<lparr>zname = ''iTunesMetadata.plist'', zpayload = FreshEntry data\<rparr>"

lemma download_and_patch_None:
  assumes "download_and_patch L E app ua f w = (Ret None, w1)"
  shows "\<exists>t resp data files extra.
    respond E t (download_request (URL (Item app)) ua) = Inr resp \<and> hp_status resp = 200 \<and>
    rend (hp_body resp) = None \<and>
    parse_zip E (rdata (hp_body resp)) = Inr files \<and>
    marshal_metadata L (Metadata (Item app)) = Inr data \<and>
    expected_sinfs L E (Sinfs (Item app)) (files @ [metadata_entry data]) = Some extra \<and>
    nodes w1 = (nodes w)(f @ ''.downloading'' := None, f @ ''.tmp'' := None, f \<mapsto> FileNode
      (if fault E (tick w1 - 4) = None then Zipped (files @ [metadata_entry data] @ extra) else TornZip))"
proof -
  from assms obtain wa wb wc where
    a: "DownloadFile E (URL (Item app)) (f @ ''.downloading'') ua
      (println (download_line app f) w) = (None, wa)"
    and b: "ApplyPatches L E (Metadata (Item app)) (f @ ''.downloading'') f
      (println ''Apply patches...'' wa) = (None, wb)"
    and c: "ReplicateSinf L E (Sinfs (Item app)) f (println ''Replicate sinfs...'' wb) = (Ret None, wc)"
    and d: "os_remove E (f @ ''.downloading'') (println ''Remove tmp files...'' wc) = (None, w1)"
    by (auto simp: download_and_patch_def sign_and_clean_def Let_def split: prod.splits option.splits outcome.splits)
  from DownloadFile_NoneD [OF a] obtain t resp where
    resp: "respond E t (download_request (URL (Item app)) ua) = Inr resp" "hp_status resp = 200"
      "rend (hp_body resp) = None"
    and wa: "nodes wa = (nodes w)(f @ ''.downloading'' \<mapsto> FileNode (Bytes (rdata (hp_body resp))))"
    by (auto simp: println_world)
  from ApplyPatches_result [OF b] obtain files data where
    files: "archive_at E wa (f @ ''.downloading'') = Some files"
    and data: "marshal_metadata L (Metadata (Item app)) = Inr data"
    and wb: "nodes wb = (nodes wa)(f \<mapsto> FileNode
      (if fault E (tick wb - 1) = None then Zipped (files @ [metadata_entry data]) else TornZip))"
    by (auto simp: metadata_entry_def)
  from files wa have pz: "parse_zip E (rdata (hp_body resp)) = Inr files"
    by (simp add: archive_at_def split: sum.splits)
  from ReplicateSinf_result [OF c] obtain files1 extra where
    f1: "archive_at E wb f = Some files1"
    and x: "expected_sinfs L E (Sinfs (Item app)) files1 = Some extra"
    and wc: "nodes wc = (nodes wb)(f @ ''.tmp'' := None, f \<mapsto> FileNode
      (if fault E (tick wc - 3) = None then Zipped (files1 @ extra) else TornZip))"
    by (metis archive_at_println println_world(1))
  from f1 wb have "files1 = files @ [metadata_entry data]"
    by (auto simp: archive_at_def split: if_splits)
  moreover have "tick w1 - 4 = tick wc - 3" using d os_remove_tick by (metis diff_Suc_Suc numeral_3_eq_3
      numeral_eq_Suc pred_numeral_simps(2) println_world(3) semiring_norm(26,27) snd_conv)
  moreover have "nodes w1 = (nodes w)(f @ ''.downloading'' := None, f @ ''.tmp'' := None,
      f \<mapsto> FileNode (if fault E (tick wc - 3) = None then Zipped (files1 @ extra) else TornZip))"
    using os_remove_NoneD [OF d] wc wb wa by (simp add: fun_eq_iff)
  ultimately show ?thesis
    using resp pz data x by (intro exI [of _ t] exI [of _ resp] exI [of _ data]
        exI [of _ files] exI [of _ extra]) auto
qed

section \<open>Properties of DownloadApp\<close>

lemma DownloadApp_proceeds:
  assumes "DownloadApp L E app ua ov w = (Ret (fn, ex, err), w1)"
    and "ex = False"
    and "\<nexists>e. \<not> ov \<and> fst (fileExists E (app_filename app) w) = Inl e"
  shows "fn = app_filename app \<and>
    (\<exists>w0. nodes w0 = nodes w \<and> download_and_patch L E app ua fn w0 = (Ret err, w1))"
proof (cases ov)
  case True
  with assms(1) show ?thesis
    by (auto simp: DownloadApp_def Let_def split: prod.splits outcome.splits)
next
  case False
  obtain r w0 where r: "fileExists E (app_filename app) w = (r, w0)" by force
  have "nodes w0 = nodes w"
    using fileExists_world(1) [of E "app_filename app" w] r by simp
  with False r assms show ?thesis
    by (auto simp: DownloadApp_def Let_def split: prod.splits outcome.splits sum.splits bool.splits)
qed

text \<open>
  C16: when \<open>DownloadApp\<close> returns a nil error and did not skip, the file named after the app
  holds the entries of the archive that the server sent for the app's URL with status 200,
  then \<open>iTunesMetadata.plist\<close>, then the expected signatures; both temporary files are gone
  and no other path changed. The one exception is a failure of the last \<open>zipWriter.Close()\<close>, the
  fourth last system call, whose error the code drops: then the file is a torn archive.
\<close>

theorem DownloadApp_success:
  assumes "DownloadApp L E app ua ov w = (Ret (fn, False, None), w1)"
  shows "fn = app_filename app \<and> (\<exists>t resp data files extra.
    respond E t (download_request (URL (Item app)) ua) = Inr resp \<and> hp_status resp = 200 \<and>
    rend (hp_body resp) = None \<and> parse_zip E (rdata (hp_body resp)) = Inr files \<and>
    marshal_metadata L (Metadata (Item app)) = Inr data \<and>
    expected_sinfs L E (Sinfs (Item app)) (files @ [metadata_entry data]) = Some extra \<and>
    nodes w1 = (nodes w)(fn @ ''.downloading'' := None, fn @ ''.tmp'' := None, fn \<mapsto> FileNode
      (if fault E (tick w1 - 4) = None then Zipped (files @ [metadata_entry data] @ extra) else TornZip)))"
proof -
  have "\<nexists>e. \<not> ov \<and> fst (fileExists E (app_filename app) w) = Inl e"
    using assms by (auto simp: DownloadApp_def Let_def split: prod.splits)
  from DownloadApp_proceeds [OF assms refl this] obtain w0 where
    fn: "fn = app_filename app" and w0: "nodes w0 = nodes w"
    and run: "download_and_patch L E app ua fn w0 = (Ret None, w1)"
    by blast
  from download_and_patch_None [OF run] fn show ?thesis unfolding w0 by blast
qed

text \<open>
  C17: whatever \<open>DownloadApp\<close> returns, and also when it panics, it changes no path but the
  package, its \<open>.tmp\<close> copy and the \<open>.downloading\<close> file.
\<close>

theorem DownloadApp_frame:
  assumes "DownloadApp L E app ua ov w = (r, w1)"
    and "q \<notin> {app_filename app, app_filename app @ ''.tmp'', app_filename app @ ''.downloading''}"
  shows "nodes w1 q = nodes w q"
proof -
  have step: "nodes w2 q = nodes w0 q"
    if "download_and_patch L E app ua (app_filename app) w0 = (x, w2)" for x w0 w2
    using download_and_patch_frame [OF that assms(2)] .
  obtain x w0 where x: "fileExists E (app_filename app) w = (x, w0)" by force
  have "nodes w0 = nodes w"
    using fileExists_world(1) [of E "app_filename app" w] x by simp
  with assms(1) x show ?thesis
    by (auto simp: DownloadApp_def Let_def split: prod.splits outcome.splits sum.splits bool.splits if_splits
        dest!: step)
qed

text \<open>
  without \<open>overwrite\<close>, an existing file is never touched: the call reports that it exists,
  or the error of the check, and nothing on disk changes.
\<close>

theorem DownloadApp_keeps_existing:
  assumes "nodes w (app_filename app) \<noteq> None"
  shows "nodes (snd (DownloadApp L E app ua False w)) = nodes w \<and>
    (\<exists>err. fst (DownloadApp L E app ua False w) = Ret (app_filename app, err = None, err))"
proof -
  obtain x w0 where x: "fileExists E (app_filename app) w = (x, w0)" by force
  have w0: "nodes w0 = nodes w"
    using fileExists_world(1) [of E "app_filename app" w] x by simp
  have "x \<noteq> Inr False" using fileExists_Inr x assms by blast
  with x w0 show ?thesis
    by (cases x) (auto simp: DownloadApp_def Let_def split: bool.splits)
qed

section \<open>Runs without faults\<close>

text \<open>
  A server that answers the request for the app with a complete package, and a disk with no
  directory in the way.
\<close>

definition serves :: "env \<Rightarrow> string \<Rightarrow> string \<Rightarrow> zentry list \<Rightarrow> bool" where
  "serves E url ua files \<longleftrightarrow>
     bad_request E ''GET'' url = None \<and>
     (\<exists>resp len. (\<forall>t. respond E t (download_request url ua) = Inr resp) \<and> hp_status resp = 200 \<and>
        rend (hp_body resp) = None \<and> parse_zip E (rdata (hp_body resp)) = Inr files \<and>
        atoi (hget (hp_header resp) ''Content-Length'') = Some len)"

definition no_dirs :: "world \<Rightarrow> string \<Rightarrow> bool" where
  "no_dirs w f \<longleftrightarrow>
     nodes w f \<noteq> Some DirNode \<and> nodes w (f @ ''.tmp'') \<noteq> Some DirNode \<and>
     nodes w (f @ ''.downloading'') \<noteq> Some DirNode"

lemma DownloadFile_no_faults:
  assumes E: "no_faults E" and s: "serves E url ua files" and d: "nodes w p \<noteq> Some DirNode"
  shows "\<exists>w1 b. DownloadFile E url p ua w = (None, w1) \<and>
    nodes w1 = (nodes w)(p \<mapsto> FileNode (Bytes b)) \<and> parse_zip E b = Inr files"
proof -
  from os_create_no_faults [OF E d] obtain wa where a: "os_create E p w = (None, wa)" by blast
  from s obtain resp len where r:
    "bad_request E ''GET'' url = None" "\<And>t. respond E t (download_request url ua) = Inr resp"
    "hp_status resp = 200" "rend (hp_body resp) = None"
    "atoi (hget (hp_header resp) ''Content-Length'') = Some len"
    "parse_zip E (rdata (hp_body resp)) = Inr files"
    by (auto simp: serves_def)
  let ?wb = "wa\<lparr>tick := Suc (tick wa)\<rparr>"
  obtain wc where c: "file_write E p (rdata (hp_body resp)) ?wb = (None, wc)"
    by (simp add: file_write_def sys_no_faults [OF E])
  have "fetch_into E url p (if ua = [] then DefaultUserAgent else ua) wa = (None, wc)"
    using r(2) [of "tick wa"] r c
    by (simp add: fetch_into_def new_request_def client_do_def download_request_def copy_to_file_def)
  with a have run: "DownloadFile E url p ua w = (None, close_handle p wc)"
    by (simp add: DownloadFile_def Let_def)
  with DownloadFile_NoneD [OF run] r(2) r(6) show ?thesis by auto
qed

lemma writeMetadata_no_faults:
  "no_faults E \<Longrightarrow> marshal_metadata L md = Inr data \<Longrightarrow> fst (writeMetadata L E md zw w) = None"
  by (simp add: writeMetadata_def zip_create_def zip_write_def sys_no_faults)

lemma ApplyPatches_no_faults:
  assumes E: "no_faults E" and a: "archive_at E w src = Some files"
    and m: "marshal_metadata L md = Inr data" and d: "nodes w dst \<noteq> Some DirNode"
    and ne: "src \<noteq> dst"
  shows "\<exists>w1. ApplyPatches L E md src dst w = (None, w1) \<and>
    nodes w1 = (nodes w)(dst \<mapsto> FileNode (Zipped (files @ [metadata_entry data])))"
proof -
  let ?wa = "w\<lparr>tick := Suc (tick w), handles := src # handles w\<rparr>"
  from E d obtain wb where b: "os_create E dst ?wa = (None, wb)"
    using os_create_no_faults [of E ?wa dst] by auto
  obtain zw wc where c: "replicateZip E files [] wb = (None, zw, wc)"
    using replicateZip_no_faults [OF E, of files "[]" wb] by (metis prod.collapse)
  obtain zw1 wd where e: "writeMetadata L E md zw wc = (None, zw1, wd)"
    using writeMetadata_no_faults [OF E m, of zw wc] by (metis prod.collapse)
  have run: "ApplyPatches L E md src dst w = (None, close_handle src (snd (close_writer E dst zw1 wd)))"
    using open_reader_no_faults [OF E a] b c e by (simp add: ApplyPatches_def)
  with ApplyPatches_result [OF run ne] a m E show ?thesis
    by (auto simp: no_faults_def metadata_entry_def)
qed

text \<open>The state in which \<open>ReplicateSinf\<close> is called.\<close>

lemma download_and_patch_reaches_sinfs:
  assumes E: "no_faults E" and s: "serves E (URL (Item app)) ua files" and d: "no_dirs w f"
    and m: "marshal_metadata L (Metadata (Item app)) = Inr data"
  shows "\<exists>w1 b. nodes w1 = (nodes w)(f @ ''.downloading'' \<mapsto> FileNode (Bytes b),
        f \<mapsto> FileNode (Zipped (files @ [metadata_entry data]))) \<and>
    download_and_patch L E app ua f w = sign_and_clean L E app f w1"
proof -
  from d have "nodes (println (download_line app f) w) (f @ ''.downloading'') \<noteq> Some DirNode"
    by (simp add: no_dirs_def)
  from DownloadFile_no_faults [OF E s this] obtain wa b where
    a: "DownloadFile E (URL (Item app)) (f @ ''.downloading'') ua (println (download_line app f) w) = (None, wa)"
    and wa: "nodes wa = (nodes w)(f @ ''.downloading'' \<mapsto> FileNode (Bytes b))"
    and pz: "parse_zip E b = Inr files" by auto
  have "archive_at E (println ''Apply patches...'' wa) (f @ ''.downloading'') = Some files"
    using pz by (simp add: archive_at_def wa)
  from ApplyPatches_no_faults [OF E this m, of f] d wa obtain wb where
    "ApplyPatches L E (Metadata (Item app)) (f @ ''.downloading'') f (println ''Apply patches...'' wa) = (None, wb)"
    "nodes wb = (nodes wa)(f \<mapsto> FileNode (Zipped (files @ [metadata_entry data])))"
    by (auto simp: no_dirs_def)
  with a wa show ?thesis
    by (intro exI [of _ wb] exI [of _ b]) (simp add: download_and_patch_def Let_def)
qed

lemma download_and_patch_completes:
  assumes E: "no_faults E" and s: "serves E (URL (Item app)) ua files" and d: "no_dirs w f"
    and m: "marshal_metadata L (Metadata (Item app)) = Inr data"
    and x: "expected_sinfs L E (Sinfs (Item app)) (files @ [metadata_entry data]) = Some extra"
  shows "\<exists>w1. download_and_patch L E app ua f w = (Ret None, w1)"
proof -
  from download_and_patch_reaches_sinfs [OF E s d m] obtain wb b where
    wb: "nodes wb = (nodes w)(f @ ''.downloading'' \<mapsto> FileNode (Bytes b),
        f \<mapsto> FileNode (Zipped (files @ [metadata_entry data])))"
    and run: "download_and_patch L E app ua f w = sign_and_clean L E app f wb"
    by blast
  have "archive_at E (println ''Replicate sinfs...'' wb) f = Some (files @ [metadata_entry data])"
    by (simp add: archive_at_def wb)
  from ReplicateSinf_no_faults [OF E this x] d obtain wc where
    c: "ReplicateSinf L E (Sinfs (Item app)) f (println ''Replicate sinfs...'' wb) = (Ret None, wc)"
    by (auto simp: wb no_dirs_def)
  have "nodes wc (f @ ''.downloading'') = Some (FileNode (Bytes b))"
    using ReplicateSinf_frame [OF c, of "f @ ''.downloading''"] by (simp add: wb)
  then have "\<exists>wd. os_remove E (f @ ''.downloading'') (println ''Remove tmp files...'' wc) = (None, wd)"
    by (simp add: os_remove_def sys_no_faults [OF E])
  with run c show ?thesis by (auto simp: sign_and_clean_def)
qed

text \<open>
  C18: \<open>DownloadApp\<close> succeeds when no call fails: the server answers with a package that can
  be parsed, the metadata can be marshalled, the signatures match the package, and no
  directory is in the way.
\<close>

theorem DownloadApp_completes:
  assumes "no_faults E" and "serves E (URL (Item app)) ua files"
    and "no_dirs w (app_filename app)"
    and "marshal_metadata L (Metadata (Item app)) = Inr data"
    and "expected_sinfs L E (Sinfs (Item app)) (files @ [metadata_entry data]) = Some extra"
  shows "\<exists>w1. DownloadApp L E app ua True w = (Ret (app_filename app, False, None), w1)"
  using download_and_patch_completes [OF assms] by (auto simp: DownloadApp_def Let_def)

section \<open>A partial download is taken for a finished one\<close>

lemma fileExists_no_faults:
  "no_faults E \<Longrightarrow> \<exists>w1. fileExists E p w = (Inr (nodes w p \<noteq> None), w1)"
  by (auto simp: fileExists_def os_stat_def sys_no_faults split: option.splits)

text \<open>
  C40: when the signatures do not match the package, \<open>DownloadApp\<close> fails after the metadata
  patch and leaves the unsigned package in place; a later call that may not overwrite then
  reports the app as already downloaded, without an error.
\<close>

theorem partial_download_skipped:
  assumes E: "no_faults E" and s: "serves E (URL (Item app)) ua files"
    and d: "no_dirs w (app_filename app)"
    and m: "marshal_metadata L (Metadata (Item app)) = Inr data"
    and x: "expected_sinfs L E (Sinfs (Item app)) (files @ [metadata_entry data]) = None"
  shows "\<exists>r w1. DownloadApp L E app ua True w = (r, w1) \<and>
    r \<noteq> Ret (app_filename app, False, None) \<and>
    nodes w1 (app_filename app) = Some (FileNode (Zipped (files @ [metadata_entry data]))) \<and>
    fst (DownloadApp L E app ua False w1) = Ret (app_filename app, True, None)"
proof -
  let ?f = "app_filename app"
  from download_and_patch_reaches_sinfs [OF E s d m] obtain wb b where
    wb: "nodes wb = (nodes w)(?f @ ''.downloading'' \<mapsto> FileNode (Bytes b),
        ?f \<mapsto> FileNode (Zipped (files @ [metadata_entry data])))"
    and run: "download_and_patch L E app ua ?f w = sign_and_clean L E app ?f wb"
    by blast
  have ar: "archive_at E (println ''Replicate sinfs...'' wb) ?f = Some (files @ [metadata_entry data])"
    by (simp add: archive_at_def wb)
  obtain r3 wc where
    c: "ReplicateSinf L E (Sinfs (Item app)) ?f (println ''Replicate sinfs...'' wb) = (r3, wc)" by force
  have r3: "r3 \<noteq> Ret None"
    using ReplicateSinf_result [of L E "Sinfs (Item app)" ?f "println ''Replicate sinfs...'' wb" wc] c ar x by auto
  have n: "nodes wc ?f = Some (FileNode (Zipped (files @ [metadata_entry data])))"
    using ReplicateSinf_error [OF c r3] ar x by (auto simp: wb)
  obtain w2 where "fileExists E ?f wc = (Inr True, w2)"
    using fileExists_no_faults [OF E, of ?f wc] n by auto
  then have again: "fst (DownloadApp L E app ua False wc) = Ret (?f, True, None)"
    by (simp add: DownloadApp_def Let_def)
  obtain err where "download_and_patch L E app ua ?f w = (err, wc)" and "err \<noteq> Ret None"
    using run c r3 by (cases r3) (auto simp: sign_and_clean_def split: option.splits)
  then obtain r where "DownloadApp L E app ua True w = (r, wc)" "r \<noteq> Ret (?f, False, None)"
    by (cases err) (auto simp: DownloadApp_def Let_def)
  with n again show ?thesis by blast
qed

section \<open>Concrete runs\<close>

definition sample_app :: "Sinf list \<Rightarrow> AppInfo" where
  "sample_app sinfs =
     \<lparr>Item = sample_item sample_metadata sinfs, Data = [], BundleDisplayName = ''Foo'',
      BundleShortVersionString = ''1.0'', SoftwareVersionExternalIdentifier = 7,
      SoftwareVersionExternalIdentifiers = [7], ItemName = ''Foo'', ArtistName = ''Bar''\<rparr>"

definition empty_world :: world where
  "empty_world = \<lparr>nodes = Map.empty, handles = [], stdout = [], tick = 0\<rparr>"

lemma sample_app_filename [simp]: "app_filename (sample_app sinfs) = ''Foo 1.0.ipa''"
  by (simp add: app_filename_def sample_app_def)

lemma serves_sample [simp]: "serves calm_env url ua sample_archive"
proof -
  have "atoi (hget (hp_header ipa_response) ''Content-Length'') = Some 3" by code_simp
  then show ?thesis
    by (auto simp: serves_def calm_env_def) (auto simp: ipa_response_def bytes_reader_def)
qed

lemma no_dirs_sample [simp]: "no_dirs empty_world f"
  by (simp add: no_dirs_def empty_world_def)

lemma marshal_sample [simp]: "marshal_metadata (sample_lib items) md = Inr ''<plist/>''"
  by (simp add: sample_lib_def)

lemma expected_sinfs_sample_app:
  "expected_sinfs (sample_lib []) calm_env (Sinfs (Item (sample_app [sample_sinf])))
     (sample_archive @ [metadata_entry ''<plist/>'']) =
   Some [sinf_entry ''Foo'' sample_sinf ''SC_Info/FooExe.sinf'']"
  "expected_sinfs (sample_lib []) calm_env (Sinfs (Item (sample_app [])))
     (sample_archive @ [metadata_entry ''<plist/>'']) = None"
  by code_simp+

lemma DownloadApp_sample_run:
  "\<exists>w1. DownloadApp (sample_lib []) calm_env (sample_app [sample_sinf]) ''ua'' True empty_world =
     (Ret (''Foo 1.0.ipa'', False, None), w1)"
  using download_and_patch_completes [OF no_faults_calm serves_sample no_dirs_sample marshal_sample
      expected_sinfs_sample_app(1), of "''ua''" "''Foo 1.0.ipa''"]
  by (auto simp: DownloadApp_def Let_def)

theorem DownloadApp_completes_witness:
  "\<exists>w1. DownloadApp (sample_lib []) calm_env (sample_app [sample_sinf]) ''ua'' True empty_world =
     (Ret (''Foo 1.0.ipa'', False, None), w1)"
  using DownloadApp_completes [OF no_faults_calm serves_sample no_dirs_sample marshal_sample
      expected_sinfs_sample_app(1), of "''ua''"]
  by simp

theorem DownloadApp_success_witness:
  "\<exists>w1. DownloadApp (sample_lib []) calm_env (sample_app [sample_sinf]) ''ua'' True empty_world =
       (Ret (''Foo 1.0.ipa'', False, None), w1) \<and> nodes w1 ''Foo 1.0.ipa'' \<noteq> None"
proof -
  obtain w1 where r: "DownloadApp (sample_lib []) calm_env (sample_app [sample_sinf]) ''ua'' True
      empty_world = (Ret (''Foo 1.0.ipa'', False, None), w1)"
    using DownloadApp_sample_run by blast
  from DownloadApp_success [OF r] have "nodes w1 ''Foo 1.0.ipa'' \<noteq> None" by auto
  with r show ?thesis by blast
qed

theorem DownloadApp_frame_witness:
  "\<exists>r w1. DownloadApp (sample_lib []) calm_env (sample_app []) ''ua'' False empty_world = (r, w1) \<and>
     nodes w1 ''other'' = None"
proof -
  obtain r w1 where r: "DownloadApp (sample_lib []) calm_env (sample_app []) ''ua'' False
      empty_world = (r, w1)" by force
  have "nodes w1 ''other'' = nodes empty_world ''other''"
    by (rule DownloadApp_frame [OF r]) simp
  with r show ?thesis by (simp add: empty_world_def)
qed

theorem DownloadApp_keeps_existing_witness:
  "nodes (snd (DownloadApp (sample_lib []) calm_env (sample_app []) ''ua'' False
     (empty_world\<lparr>nodes := Map.empty(''Foo 1.0.ipa'' \<mapsto> FileNode TornZip)\<rparr>))) ''Foo 1.0.ipa'' =
   Some (FileNode TornZip)"
proof -
  have h: "nodes (empty_world\<lparr>nodes := Map.empty(''Foo 1.0.ipa'' \<mapsto> FileNode TornZip)\<rparr>)
      (app_filename (sample_app [])) \<noteq> None"
    by simp
  show ?thesis
    using DownloadApp_keeps_existing [OF h, of "sample_lib []" calm_env "''ua''"] by simp
qed

theorem partial_download_skipped_witness:
  "\<exists>r w1. DownloadApp (sample_lib []) calm_env (sample_app []) ''ua'' True empty_world = (r, w1) \<and>
     r \<noteq> Ret (''Foo 1.0.ipa'', False, None) \<and>
     fst (DownloadApp (sample_lib []) calm_env (sample_app []) ''ua'' False w1) =
       Ret (''Foo 1.0.ipa'', True, None)"
  using partial_download_skipped [OF no_faults_calm serves_sample no_dirs_sample marshal_sample
      expected_sinfs_sample_app(2), of "''ua''"]
  by auto

end
