(* ===== verification/Go_Json.thy ===== *)
theory Go_Json
  imports Prelude "HOL-Library.Char_ord" "HOL-Library.List_Lexorder"
begin

text \<open>
  What the program relies on of \<open>encoding/json\<close>: the values that it encodes and decodes, and what
  becomes of a value between \<open>json.Marshal\<close> and \<open>json.Unmarshal\<close> into an \<open>interface{}\<close>. The text in
  between is not modelled, but what it loses is: a byte that is not part of valid UTF-8 comes
  back as U+FFFD, and members of an object whose names became equal are merged.
\<close>

section \<open>UTF-8\<close>

definition byte_in :: "nat \<Rightarrow> nat \<Rightarrow> char \<Rightarrow> bool" where
  "byte_in lo hi c \<longleftrightarrow> lo \<le> (of_char c :: nat) \<and> (of_char c :: nat) \<le> hi"

definition continuation :: "char \<Rightarrow> bool" where
  "continuation c \<longleftrightarrow> byte_in 0x80 0xBF c"

text \<open>
  \<open>utf8.DecodeRune\<close>: the length of the character at the start of a text, 0 if there is none; the
  second byte is restricted for some first bytes, which excludes surrogates, encodings that are
  too long and values that are too large.
\<close>

definition second_byte :: "char \<Rightarrow> char \<Rightarrow> bool" where
  "second_byte a b \<longleftrightarrow>
     (let n = (of_char a :: nat)
      in if n = 0xE0 then byte_in 0xA0 0xBF b
         else if n = 0xED then byte_in 0x80 0x9F b
         else if n = 0xF0 then byte_in 0x90 0xBF b
         else if n = 0xF4 then byte_in 0x80 0x8F b
         else continuation b)"

fun rune_len :: "string \<Rightarrow> nat" where
  "rune_len [] = 0"
| "rune_len (a # rest) =
     (if byte_in 0 0x7F a then 1
      else case rest of
        [] \<Rightarrow> 0
      | b # rest2 \<Rightarrow>
          if \<not> second_byte a b then 0
          else if byte_in 0xC2 0xDF a then 2
          else case rest2 of
            [] \<Rightarrow> 0
          | c # rest3 \<Rightarrow>
              if \<not> continuation c then 0
              else if byte_in 0xE0 0xEF a then 3
              else case rest3 of
                [] \<Rightarrow> 0
              | d # _ \<Rightarrow> if continuation d \<and> byte_in 0xF0 0xF4 a then 4 else 0)"

lemma rune_len_le: "rune_len s \<le> length s"
  by (cases s) (auto split: list.split)

definition rune :: "string \<Rightarrow> bool" where
  "rune r \<longleftrightarrow> r \<noteq> [] \<and> rune_len r = length r"

lemma rune_append: "rune r \<Longrightarrow> rune_len (r @ s) = length r"
  by (cases r) (auto simp: rune_def split: list.splits if_splits)

definition valid_utf8 :: "string \<Rightarrow> bool" where
  "valid_utf8 s \<longleftrightarrow> (\<exists>rs. list_all rune rs \<and> s = concat rs)"

definition replacement :: string where
  "replacement = [CHR 0xEF, CHR 0xBF, CHR 0xBD]"

text \<open>What a string is after it was written and read back.\<close>

function text_string :: "string \<Rightarrow> string" where
  "text_string s =
     (if s = [] then []
      else if rune_len s = 0 then replacement @ text_string (tl s)
      else take (rune_len s) s @ text_string (drop (rune_len s) s))"
  by pat_completeness auto
termination
  by (relation "measure length") auto

declare text_string.simps [simp del]

lemma text_string_rune: "rune r \<Longrightarrow> text_string (r @ s) = r @ text_string s"
  using rune_append [of r s] by (subst text_string.simps) (auto simp: rune_def)

lemma text_string_valid: "valid_utf8 s \<Longrightarrow> text_string s = s"
proof -
  have "text_string (concat rs) = concat rs" if "list_all rune rs" for rs
    using that
  proof (induction rs)
    case Nil
    show ?case by (subst text_string.simps) simp
  next
    case (Cons r rs)
    then show ?case by (simp add: text_string_rune)
  qed
  then show "valid_utf8 s \<Longrightarrow> text_string s = s" by (auto simp: valid_utf8_def)
qed

text \<open>ASCII text is valid.\<close>

definition ascii :: "string \<Rightarrow> bool" where
  "ascii s \<longleftrightarrow> list_all (byte_in 0 0x7F) s"

lemma ascii_valid: "ascii s \<Longrightarrow> valid_utf8 s"
  unfolding valid_utf8_def ascii_def
  by (intro exI [of _ "map (\<lambda>c. [c]) s"]) (auto simp: list_all_iff rune_def concat_map_singleton)

section \<open>Values\<close>

text \<open>
  A JSON value as \<open>encoding/json\<close> decodes it into an \<open>interface{}\<close>; an object is the list of
  its members, in the order in which \<open>range\<close> visits the map.
\<close>

datatype json =
    JNull
  | JBool bool
  | JNum int
  | JStr string
  | JArr "json list"
  | JObj "(string \<times> json) list"

text \<open>
  What \<open>json.Unmarshal\<close> gets from the text that \<open>json.Marshal\<close> makes of a value: the members of an
  object are written in the order of their names, and of two with the same name in the text
  the last one stays.
\<close>

definition merge_members :: "(string \<times> string \<times> json) list \<Rightarrow> (string \<times> json) list" where
  "merge_members ms = foldl (\<lambda>m (_, k, v). AList.update k v m) [] (sort_key fst ms)"

fun json_text :: "json \<Rightarrow> json" where
  "json_text (JStr s) = JStr (text_string s)"
| "json_text (JArr vs) = JArr (map json_text vs)"
| "json_text (JObj ms) = JObj (merge_members (map (\<lambda>(k, v). (k, text_string k, json_text v)) ms))"
| "json_text v = v"

definition json_member :: "string \<Rightarrow> json \<Rightarrow> json option" where
  "json_member k j = (case j of JObj ms \<Rightarrow> map_of ms k | _ \<Rightarrow> None)"

text \<open>An object whose names are valid and distinct keeps its members.\<close>

lemma foldl_update_distinct:
  assumes "distinct (map (fst \<circ> snd) ms)" and "\<forall>x \<in> set ms. fst (snd x) \<notin> fst ` set m"
  shows "foldl (\<lambda>m (_, k, v). AList.update k v m) m ms = m @ map snd ms"
  using assms
proof (induction ms arbitrary: m)
  case (Cons x ms)
  obtain j k v where x: "x = (j, k, v)" by (metis prod_cases3)
  have "k \<notin> fst ` set m" using Cons.prems(2) by (simp add: x)
  then have u: "AList.update k v m = m @ [(k, v)]" by (induction m) auto
  with Cons.IH [of "m @ [(k, v)]"] Cons.prems show ?case by (force simp: x)
qed simp

lemma insort_members:
  "insort_key fst ((\<lambda>(k, v). (k, f k, g v)) x) (map (\<lambda>(k, v). (k, f k, g v)) ms) =
     map (\<lambda>(k, v). (k, f k, g v)) (insort_key fst x ms)"
  by (induction ms) (auto simp: case_prod_beta)

lemma json_text_members:
  assumes "wf_alist ms" and "\<forall>k \<in> fst ` set ms. valid_utf8 k"
  shows "json_text (JObj ms) = JObj (map (\<lambda>(k, v). (k, json_text v)) (sort_key fst ms))"
proof -
  let ?f = "\<lambda>(k, v). (k, text_string k, json_text v)"
  have f: "fst (?f x) = fst x" for x by (simp add: case_prod_beta)
  have s: "sort_key fst (map ?f ms) = map ?f (sort_key fst ms)"
    by (induction ms) (simp_all add: insort_members)
  have k: "map (fst \<circ> snd) (map ?f (sort_key fst ms)) = map fst (sort_key fst ms)"
    using assms(2) by (auto simp: text_string_valid case_prod_beta)
  have "distinct (map fst (sort_key fst ms))"
    using assms(1) by (metis distinct_map distinct_sort set_sort wf_alist_def)
  then have d: "distinct (map (fst \<circ> snd) (map ?f (sort_key fst ms)))" unfolding k .
  have "merge_members (map ?f ms) = map snd (map ?f (sort_key fst ms))"
    using foldl_update_distinct [OF d, of "[]"] by (simp add: merge_members_def s)
  also have "\<dots> = map (\<lambda>(k, v). (k, json_text v)) (sort_key fst ms)"
    using assms(2) by (auto simp: text_string_valid)
  finally show ?thesis by simp
qed

lemma map_of_sort_key: "wf_alist ms \<Longrightarrow> map_of (sort_key fst ms) = map_of ms"
  by (rule map_of_eqI) (auto simp: wf_alist_def distinct_map image_iff)

lemma json_text_member:
  assumes "wf_alist ms" and "\<forall>k \<in> fst ` set ms. valid_utf8 k"
  shows "json_member k (json_text (JObj ms)) = map_option json_text (map_of ms k)"
proof -
  have "map_of (map (\<lambda>(k, v). (k, json_text v)) (sort_key fst ms)) k =
      map_option json_text (map_of (sort_key fst ms) k)"
    by (simp add: map_of_map)
  then show ?thesis using assms by (simp add: json_member_def json_text_members map_of_sort_key del: json_text.simps)
qed

end
