(* ===== verification/Flow.thy ===== *)
theory Flow
  imports Go_Http Go_Json
begin

text \<open>
  \<open>lib/go-mitmproxy/proxy/flow.go\<close> and \<open>flowencoding.go\<close>: requests, responses and flows,
  their JSON form, and the lazy decoding of a compressed response body. The decompressors
  and the parser of URLs are parameters. The lemmas state the laws of the decoding cache, and
  which requests survive their JSON form.
\<close>

section \<open>URLs\<close>

text \<open>
  The fields of a \<open>url.URL\<close> the program touches; \<open>u_rest\<close> is the escaped path with query and
  fragment. There is no user information in a URL that the proxy receives.
\<close>

record URL =
  u_scheme :: string
  u_host :: string
  u_rest :: string

definition url_string :: "URL \<Rightarrow> string" where
  "url_string u =
     (if u_scheme u = [] then [] else u_scheme u @ '':'') @
     (if (u_scheme u \<noteq> [] \<and> u_rest u \<noteq> []) \<or> u_host u \<noteq> [] then ''//'' else []) @
     u_host u @ u_rest u"

definition url_is_abs :: "URL \<Rightarrow> bool" where
  "url_is_abs u \<longleftrightarrow> u_scheme u \<noteq> []"

section \<open>Requests, responses, flows\<close>

record Request =
  r_method :: string
  r_url :: URL
  r_proto :: string
  r_header :: header
  r_body :: bytes

definition newRequest :: "string \<Rightarrow> URL \<Rightarrow> string \<Rightarrow> header \<Rightarrow> Request" where
  "newRequest m u proto h =
     \<lparr>r_method = m, r_url = u, r_proto = proto, r_header = h, r_body = []\<rparr>"

text \<open>Nil slices and maps are distinguished from empty ones where the code does.\<close>

record Response =
  StatusCode :: int
  s_header :: "header option"
  s_body :: "bytes option"
  BodyReader :: "reader option"
  s_close :: bool
  decodedBody :: "bytes option"
  was_decoded :: bool
  decodedErr :: "gerr option"

definition new_response :: "int \<Rightarrow> header option \<Rightarrow> bool \<Rightarrow> Response" where
  "new_response code h cl =
     \<lparr>StatusCode = code, s_header = h, s_body = None, BodyReader = None, s_close = cl,
      decodedBody = None, was_decoded = False, decodedErr = None\<rparr>"

text \<open>\<open>f_done\<close> counts how often \<open>finish\<close> closed the channel.\<close>

record Flow =
  f_request :: Request
  f_response :: "Response option"
  f_stream :: bool
  UseSeparateClient :: bool
  f_done :: nat

definition newFlow :: "Request \<Rightarrow> Flow" where
  "newFlow q =
     \<lparr>f_request = q, f_response = None, f_stream = False, UseSeparateClient = False, f_done = 0\<rparr>"

definition finish :: "Flow \<Rightarrow> Flow" where
  "finish f = f\<lparr>f_done := Suc (f_done f)\<rparr>"

section \<open>Content encoding\<close>

record codec =
  gzip_decode :: "bytes \<Rightarrow> gerr + bytes"
  br_decode :: "bytes \<Rightarrow> gerr + bytes"
  flate_decode :: "bytes \<Rightarrow> gerr + bytes"

definition errEncodingNotSupport :: gerr where
  "errEncodingNotSupport = ESentinel ''content-encoding not support''"

definition textContentTypes :: "string list" where
  "textContentTypes = [''text'', ''javascript'', ''json'']"

text \<open>Reading a nil header gives the empty string.\<close>

definition resp_get :: "Response \<Rightarrow> string \<Rightarrow> string" where
  "resp_get r k = (case s_header r of None \<Rightarrow> [] | Some h \<Rightarrow> hget h k)"

definition IsTextContentType :: "Response \<Rightarrow> bool" where
  "IsTextContentType r =
     (let contentType = resp_get r ''Content-Type''
      in if contentType = [] then False
         else list_ex (\<lambda>substr. contains contentType substr) textContentTypes)"

definition decode :: "codec \<Rightarrow> string \<Rightarrow> bytes \<Rightarrow> gerr + bytes" where
  "decode C enc body =
     (if enc = ''gzip'' then gzip_decode C body
      else if enc = ''br'' then br_decode C body
      else if enc = ''deflate'' then flate_decode C body
      else Inl errEncodingNotSupport)"

definition DecodedBody :: "codec \<Rightarrow> Response \<Rightarrow> (gerr + bytes option) \<times> Response" where
  "DecodedBody C r =
     (case decodedBody r of
        Some b \<Rightarrow> (Inr (Some b), r)
      | None \<Rightarrow>
     (case decodedErr r of
        Some e \<Rightarrow> (Inl e, r)
      | None \<Rightarrow>
     (case s_body r of
        None \<Rightarrow> (Inr None, r)
      | Some body \<Rightarrow>
          if body = [] then (Inr (Some body), r\<lparr>decodedBody := Some body\<rparr>)
          else
            (let enc = resp_get r ''Content-Encoding''
             in if enc = [] \<or> enc = ''identity''
                then (Inr (Some body), r\<lparr>decodedBody := Some body\<rparr>)
                else (case decode C enc body of
                        Inl e \<Rightarrow> (Inl e, r\<lparr>decodedErr := Some e\<rparr>)
                      | Inr d \<Rightarrow>
                          (Inr (Some d), r\<lparr>decodedBody := Some d, was_decoded := True\<rparr>))))))"

text \<open>
  \<open>ReplaceToDecodedBody\<close>: deleting from a nil header does nothing, writing to one panics.
\<close>

definition ReplaceToDecodedBody :: "codec \<Rightarrow> Response \<Rightarrow> unit outcome \<times> Response" where
  "ReplaceToDecodedBody C r =
     (case DecodedBody C r of
        (Inr (Some body), r1) \<Rightarrow>
          (let r2 = r1\<lparr>s_body := Some body\<rparr>
           in case s_header r2 of
                None \<Rightarrow> (Panicked NilMapWrite, r2)
              | Some h \<Rightarrow>
                  (Ret (), r2\<lparr>s_header := Some (hdel (hset (hdel h ''Content-Encoding'')
                     ''Content-Length'' (nat_str (length body))) ''Transfer-Encoding'')\<rparr>))
      | (_, r1) \<Rightarrow> (Ret (), r1))"

lemma DecodedBody_header [simp]: "s_header (snd (DecodedBody C r)) = s_header r"
  by (auto simp: DecodedBody_def Let_def split: option.splits sum.splits)

lemma DecodedBody_body [simp]: "s_body (snd (DecodedBody C r)) = s_body r"
  by (auto simp: DecodedBody_def Let_def split: option.splits sum.splits)

lemma DecodedBody_frame:
  "StatusCode (snd (DecodedBody C r)) = StatusCode r \<and> s_close (snd (DecodedBody C r)) = s_close r \<and>
   BodyReader (snd (DecodedBody C r)) = BodyReader r"
  by (auto simp: DecodedBody_def Let_def split: option.splits sum.splits)

text \<open>The cache after a call holds what the call returned.\<close>

lemma DecodedBody_cache:
  assumes "DecodedBody C r = (v, r1)"
  shows "case v of
           Inr (Some b) \<Rightarrow> decodedBody r1 = Some b
         | Inr None \<Rightarrow> r1 = r \<and> decodedBody r = None \<and> decodedErr r = None \<and> s_body r = None
         | Inl e \<Rightarrow> decodedBody r1 = None \<and> decodedErr r1 = Some e"
  using assms by (auto simp: DecodedBody_def Let_def split: option.splits sum.splits if_splits)

lemma DecodedBody_again:
  assumes "DecodedBody C r = (v, r1)"
  shows "DecodedBody D r1 = (v, r1)"
  using DecodedBody_cache [OF assms]
  by (cases v) (auto simp: DecodedBody_def split: option.splits)

text \<open>A response whose cache agrees with its body and header, as every new one does.\<close>

definition fresh_cache :: "Response \<Rightarrow> bool" where
  "fresh_cache r \<longleftrightarrow> decodedBody r = None \<and> decodedErr r = None"

definition plain_encoding :: "Response \<Rightarrow> bool" where
  "plain_encoding r \<longleftrightarrow> resp_get r ''Content-Encoding'' \<in> {[], ''identity''}"

lemma DecodedBody_fresh:
  assumes "fresh_cache r" and "s_body r = Some b"
  shows "fst (DecodedBody C r) =
     (if b = [] \<or> plain_encoding r then Inr (Some b)
      else map_sum id Some (decode C (resp_get r ''Content-Encoding'') b))"
  using assms
  by (auto simp: DecodedBody_def Let_def fresh_cache_def plain_encoding_def split: sum.splits)

lemma rewrite_header_get:
  "hget (hdel (hset (hdel h ''Content-Encoding'') ''Content-Length'' v) ''Transfer-Encoding'') k =
     (if same_key ''Transfer-Encoding'' k then []
      else if same_key ''Content-Length'' k then v
      else if same_key ''Content-Encoding'' k then [] else hget h k)"
  by (rule http_hdr.get_rewritten)

lemma ReplaceToDecodedBody_Some:
  assumes "fst (DecodedBody C r) = Inr (Some b)" and "s_header r = Some h"
  shows "\<exists>r1. ReplaceToDecodedBody C r = (Ret (), r1) \<and> s_body r1 = Some b \<and>
    decodedBody r1 = Some b \<and> StatusCode r1 = StatusCode r \<and> s_close r1 = s_close r \<and>
    BodyReader r1 = BodyReader r \<and>
    s_header r1 = Some (hdel (hset (hdel h ''Content-Encoding'')
        ''Content-Length'' (nat_str (length b))) ''Transfer-Encoding'')"
proof -
  obtain v r0 where d: "DecodedBody C r = (v, r0)" by force
  with assms have v: "v = Inr (Some b)" by simp
  have "s_header r0 = Some h" "decodedBody r0 = Some b" "StatusCode r0 = StatusCode r"
    "s_close r0 = s_close r" "BodyReader r0 = BodyReader r"
    using DecodedBody_cache [OF d] DecodedBody_header [of C r] DecodedBody_frame [of C r] d v assms(2)
    by simp_all
  with d v show ?thesis by (simp add: ReplaceToDecodedBody_def Let_def)
qed

section \<open>JSON\<close>

text \<open>
  What \<open>MarshalJSON\<close> hands to \<open>json.Marshal\<close>; \<open>json_text\<close> of it is what a later \<open>json.Unmarshal\<close> decodes.
\<close>

definition header_json :: "header \<Rightarrow> json" where
  "header_json h = JObj (map (\<lambda>(k, vs). (k, JArr (map JStr vs))) h)"

definition Request_MarshalJSON :: "Request \<Rightarrow> json" where
  "Request_MarshalJSON req =
     JObj [(''method'', JStr (r_method req)), (''url'', JStr (url_string (r_url req))),
           (''proto'', JStr (r_proto req)), (''header'', header_json (r_header req))]"

fun json_strings :: "json list \<Rightarrow> string list option" where
  "json_strings [] = Some []"
| "json_strings (JStr s # vs) = map_option ((#) s) (json_strings vs)"
| "json_strings (_ # vs) = None"

fun json_header :: "(string \<times> json) list \<Rightarrow> header option" where
  "json_header [] = Some []"
| "json_header ((k, JArr vals) # rest) =
     (case json_strings vals of
        None \<Rightarrow> None
      | Some svals \<Rightarrow> map_option ((#) (k, svals)) (json_header rest))"
| "json_header ((k, _) # rest) = None"

fun json_string_or_panic :: "string \<Rightarrow> json option \<Rightarrow> string outcome" where
  "json_string_or_panic what (Some (JStr s)) = Ret s"
| "json_string_or_panic what _ = Panicked (TypeAssertion what)"

text \<open>
  \<open>UnmarshalJSON\<close> after the text has been decoded; \<open>parse\<close> is \<open>url.Parse\<close>. The members
  \<open>url\<close> and \<open>header\<close> are checked, \<open>method\<close> and \<open>proto\<close> are asserted.
\<close>

definition Request_UnmarshalJSON ::
  "(string \<Rightarrow> gerr + URL) \<Rightarrow> json \<Rightarrow> (gerr + Request) outcome" where
  "Request_UnmarshalJSON parse data =
     (let members = (case data of JObj ms \<Rightarrow> Some ms | JNull \<Rightarrow> Some [] | _ \<Rightarrow> None)
      in case members of
           None \<Rightarrow> Ret (Inl (EMsg ''json: cannot unmarshal''))
         | Some ms \<Rightarrow>
             (let r = map_of ms
              in case r ''url'' of
                   Some (JStr rawurl) \<Rightarrow>
                     (case parse rawurl of
                        Inl err \<Rightarrow> Ret (Inl err)
                      | Inr u \<Rightarrow>
                     (case r ''header'' of
                        Some (JObj rawheader) \<Rightarrow>
                          (case json_header rawheader of
                             None \<Rightarrow> Ret (Inl (EMsg ''header parse error''))
                           | Some header \<Rightarrow>
                               obind (json_string_or_panic ''method'' (r ''method'')) (\<lambda>m.
                               obind (json_string_or_panic ''proto'' (r ''proto'')) (\<lambda>p.
                                 Ret (Inr \<lparr>r_method = m, r_url = u, r_proto = p,
                                           r_header = header, r_body = []\<rparr>))))
                      | _ \<Rightarrow> Ret (Inl (EMsg ''rawheader parse error''))))
                 | _ \<Rightarrow> Ret (Inl (EMsg ''url parse error''))))"

lemma json_strings_map [simp]: "json_strings (map JStr vs) = Some vs"
  by (induction vs) auto

lemma json_header_map [simp]:
  "json_header (map (\<lambda>(k, vs). (k, JArr (map JStr vs))) h) = Some h"
  by (induction h) auto

section \<open>Properties\<close>

text \<open>
  the decoding cache: a second \<open>DecodedBody\<close> returns what the first returned, error or
  body, whatever decoder it is given, and changes nothing.
\<close>

theorem DecodedBody_idempotent:
  "DecodedBody D (snd (DecodedBody C r)) = DecodedBody C r"
  using DecodedBody_again [of C r] by (metis prod.collapse)

text \<open>
  what \<open>DecodedBody\<close> returns for a response with an empty cache: the body itself when it
  is empty or not encoded, otherwise the decoder's result for the encoding named by the
  header, an unknown encoding being an error.
\<close>

theorem DecodedBody_value:
  assumes "fresh_cache r" and "s_body r = Some b"
  shows "fst (DecodedBody C r) =
     (if b = [] \<or> plain_encoding r then Inr (Some b)
      else if resp_get r ''Content-Encoding'' = ''gzip'' then map_sum id Some (gzip_decode C b)
      else if resp_get r ''Content-Encoding'' = ''br'' then map_sum id Some (br_decode C b)
      else if resp_get r ''Content-Encoding'' = ''deflate'' then map_sum id Some (flate_decode C b)
      else Inl errEncodingNotSupport)"
  using DecodedBody_fresh [OF assms] by (simp add: decode_def)

text \<open>
  C35: \<open>ReplaceToDecodedBody\<close> on a response with a header and a decodable body leaves a
  response that is consistent: the body is the decoded one, \<open>Content-Encoding\<close> and
  \<open>Transfer-Encoding\<close> are gone, \<open>Content-Length\<close> is the new length, every other header and
  the status are unchanged, and decoding it again gives the body it now has.
\<close>

theorem ReplaceToDecodedBody_consistent:
  assumes "fst (DecodedBody C r) = Inr (Some b)" and "s_header r = Some h"
  shows "\<exists>r1. ReplaceToDecodedBody C r = (Ret (), r1) \<and> s_body r1 = Some b \<and>
    StatusCode r1 = StatusCode r \<and>
    resp_get r1 ''Content-Encoding'' = [] \<and> resp_get r1 ''Transfer-Encoding'' = [] \<and>
    atoi (resp_get r1 ''Content-Length'') =
      (if int (length b) \<le> max_int then Some (int (length b)) else None) \<and>
    (\<forall>k. \<not> same_key ''Content-Encoding'' k \<and> \<not> same_key ''Transfer-Encoding'' k \<and>
         \<not> same_key ''Content-Length'' k \<longrightarrow> resp_get r1 k = resp_get r k) \<and>
    DecodedBody D r1 = (Inr (Some b), r1)"
proof -
  from ReplaceToDecodedBody_Some [OF assms] obtain r1 where
    r1: "ReplaceToDecodedBody C r = (Ret (), r1)" "s_body r1 = Some b" "decodedBody r1 = Some b"
      "StatusCode r1 = StatusCode r"
    and h: "s_header r1 = Some (hdel (hset (hdel h ''Content-Encoding'')
        ''Content-Length'' (nat_str (length b))) ''Transfer-Encoding'')"
    by blast
  have keys: "\<not> same_key ''Content-Length'' ''Content-Encoding''"
    "\<not> same_key ''Transfer-Encoding'' ''Content-Encoding''"
    "\<not> same_key ''Transfer-Encoding'' ''Content-Length''"
    by code_simp+
  have "DecodedBody D r1 = (Inr (Some b), r1)"
    using r1(3) by (simp add: DecodedBody_def)
  with r1 keys assms(2) show ?thesis
    by (auto simp: resp_get_def h rewrite_header_get atoi_digits nat_str_digits)
qed

text \<open>What the text keeps of a header: names and values that are valid UTF-8.\<close>

definition valid_header :: "header \<Rightarrow> bool" where
  "valid_header h \<longleftrightarrow> wf_alist h \<and> (\<forall>(k, vs) \<in> set h. valid_utf8 k \<and> list_all valid_utf8 vs)"

lemma json_text_header:
  assumes "valid_header h"
  shows "json_text (header_json h) = header_json (sort_key fst h)"
proof -
  let ?j = "\<lambda>(k, vs). (k, JArr (map JStr vs))"
  have fst: "fst (?j x) = fst x" for x by (simp add: case_prod_beta)
  have "wf_alist (map ?j h)" "\<forall>k \<in> fst ` set (map ?j h). valid_utf8 k"
    using assms by (auto simp: valid_header_def wf_alist_def comp_def case_prod_beta)
  note m = json_text_members [OF this]
  have ins: "insort_key fst (?j x) (map ?j xs) = map ?j (insort_key fst x xs)" for x xs
    by (induction xs) (auto simp: case_prod_beta)
  have s: "sort_key fst (map ?j h) = map ?j (sort_key fst h)" by (induction h) (simp_all add: ins)
  have "map json_text (map JStr vs) = map JStr vs" if "(k, vs) \<in> set h" for k vs
    using that assms by (auto simp: valid_header_def list_all_iff text_string_valid)
  then have "map (\<lambda>(k, v). (k, json_text v)) (map ?j (sort_key fst h)) = map ?j (sort_key fst h)"
    by (auto simp: case_prod_beta)
  then show ?thesis unfolding header_json_def m s by simp
qed

lemma json_text_request:
  assumes "valid_utf8 (r_method req)" and "valid_utf8 (url_string (r_url req))"
    and "valid_utf8 (r_proto req)" and "valid_header (r_header req)"
  shows "\<exists>ms. json_text (Request_MarshalJSON req) = JObj ms \<and>
    map_of ms ''method'' = Some (JStr (r_method req)) \<and>
    map_of ms ''url'' = Some (JStr (url_string (r_url req))) \<and>
    map_of ms ''proto'' = Some (JStr (r_proto req)) \<and>
    map_of ms ''header'' = Some (header_json (sort_key fst (r_header req)))"
proof -
  let ?ms = "[(''method'', JStr (r_method req)), (''url'', JStr (url_string (r_url req))),
    (''proto'', JStr (r_proto req)), (''header'', header_json (r_header req))]"
  have v: "wf_alist ?ms" "\<forall>k \<in> fst ` set ?ms. valid_utf8 k"
    by (auto simp: wf_alist_def ascii_def byte_in_def intro!: ascii_valid)
  obtain ms where ms: "json_text (JObj ?ms) = JObj ms" using json_text_members [OF v] by blast
  have "map_of ms k = map_option json_text (map_of ?ms k)" for k
    using json_text_member [OF v, of k] unfolding ms by (simp add: json_member_def)
  with ms assms show ?thesis
    by (intro exI [of _ ms]) (simp add: Request_MarshalJSON_def text_string_valid json_text_header)
qed

lemma Request_read_back:
  assumes "parse (url_string (r_url req)) = Inr (r_url req)"
    and "valid_utf8 (r_method req)" and "valid_utf8 (url_string (r_url req))"
    and "valid_utf8 (r_proto req)" and "valid_header (r_header req)"
  shows "Request_UnmarshalJSON parse (json_text (Request_MarshalJSON req)) =
    Ret (Inr (req\<lparr>r_header := sort_key fst (r_header req), r_body := []\<rparr>))"
  using json_text_request [OF assms(2-5)] assms(1)
  by (auto simp: Request_UnmarshalJSON_def header_json_def)

text \<open>
  C34: a request survives being written as JSON and read back, but for its body, which is not
  part of that form: method, URL and protocol are the same and the header has the same names
  and values. This needs that \<open>url.Parse\<close> reads back the string of the URL, and that all strings
  are valid UTF-8: any other byte comes back as U+FFFD. (A header is a map that is not nil here.)
\<close>

theorem Request_JSON_roundtrip:
  assumes "parse (url_string (r_url req)) = Inr (r_url req)"
    and "valid_utf8 (r_method req)" and "valid_utf8 (url_string (r_url req))"
    and "valid_utf8 (r_proto req)" and "valid_header (r_header req)"
  shows "\<exists>h. Request_UnmarshalJSON parse (json_text (Request_MarshalJSON req)) =
      Ret (Inr (req\<lparr>r_header := h, r_body := []\<rparr>)) \<and> map_of h = map_of (r_header req)"
  using Request_read_back [of parse req] map_of_sort_key [of "r_header req"] assms by (auto simp: valid_header_def)

text \<open>The byte 0xE9, an e with an acute accent in Latin-1, does not survive.\<close>

lemma text_string_latin1: "text_string [CHR 0xE9] = replacement"
  by code_simp

text \<open>
  \<open>UnmarshalJSON\<close> reports a missing or ill-typed \<open>url\<close> or \<open>header\<close> as an error, but panics
  when \<open>method\<close> or \<open>proto\<close> is missing or no string.
\<close>

theorem Request_UnmarshalJSON_panics:
  "(\<exists>p. Request_UnmarshalJSON parse data = Panicked p) \<longleftrightarrow>
     (\<exists>ms rawurl u rawheader h.
        data = JObj ms \<and> map_of ms ''url'' = Some (JStr rawurl) \<and> parse rawurl = Inr u \<and>
        map_of ms ''header'' = Some (JObj rawheader) \<and> json_header rawheader = Some h \<and>
        \<not> ((\<exists>m. map_of ms ''method'' = Some (JStr m)) \<and>
           (\<exists>p. map_of ms ''proto'' = Some (JStr p))))"
proof -
  have panic: "(\<exists>p. obind (json_string_or_panic a x) (\<lambda>m. obind (json_string_or_panic b y)
        (\<lambda>p. Ret (f m p))) = Panicked p) \<longleftrightarrow>
      \<not> ((\<exists>m. x = Some (JStr m)) \<and> (\<exists>p. y = Some (JStr p)))" for a b x y and f :: "string \<Rightarrow> string \<Rightarrow> gerr + Request"
    by (cases "(a, x)" rule: json_string_or_panic.cases;
        cases "(b, y)" rule: json_string_or_panic.cases) auto
  show ?thesis
    unfolding Request_UnmarshalJSON_def Let_def
    by (cases data) (auto simp: panic split: option.splits json.splits sum.splits)
qed

section \<open>Concrete values\<close>

definition sample_codec :: codec where
  "sample_codec =
     \<lparr>gzip_decode = (\<lambda>b. Inr (''un'' @ b)), br_decode = (\<lambda>b. Inl (EMsg ''brotli'')),
      flate_decode = Inr\<rparr>"

definition sample_response :: Response where
  "sample_response =
     (new_response 200 (Some [(''Content-Encoding'', [''gzip'']), (''X'', [''y''])]) False)
       \<lparr>s_body := Some ''zip''\<rparr>"

theorem DecodedBody_value_witness:
  "fresh_cache sample_response \<and> s_body sample_response = Some ''zip'' \<and>
   fst (DecodedBody sample_codec sample_response) = Inr (Some ''unzip'')"
proof -
  have f: "fresh_cache sample_response" and b: "s_body sample_response = Some ''zip''"
    by (simp_all add: fresh_cache_def sample_response_def new_response_def)
  have e: "resp_get sample_response ''Content-Encoding'' = ''gzip''" by code_simp
  from DecodedBody_value [OF f b, of sample_codec] show ?thesis
    using f b by (simp add: plain_encoding_def e sample_codec_def)
qed

theorem ReplaceToDecodedBody_consistent_witness:
  "\<exists>r1. ReplaceToDecodedBody sample_codec sample_response = (Ret (), r1) \<and>
     s_body r1 = Some ''unzip'' \<and> resp_get r1 ''Content-Encoding'' = []"
proof -
  have d: "fst (DecodedBody sample_codec sample_response) = Inr (Some ''unzip'')" by code_simp
  have h: "s_header sample_response = Some [(''Content-Encoding'', [''gzip'']), (''X'', [''y''])]"
    by (simp add: sample_response_def new_response_def)
  from ReplaceToDecodedBody_consistent [OF d h, of sample_codec] show ?thesis by blast
qed

definition sample_request :: Request where
  "sample_request =
     \<lparr>r_method = ''POST'', r_url = \<lparr>u_scheme = ''https'', u_host = ''h'', u_rest = ''/p''\<rparr>,
      r_proto = ''HTTP/1.1'', r_header = [(''A'', [''b'', ''c''])], r_body = ''x''\<rparr>"

theorem Request_JSON_roundtrip_witness:
  "\<exists>h. Request_UnmarshalJSON (\<lambda>s. Inr (r_url sample_request)) (json_text (Request_MarshalJSON sample_request)) =
     Ret (Inr (sample_request\<lparr>r_header := h, r_body := []\<rparr>)) \<and> map_of h ''A'' = Some [''b'', ''c'']"
proof -
  have "ascii (r_method sample_request)" "ascii (url_string (r_url sample_request))"
    "ascii (r_proto sample_request)" "ascii ''A''" "ascii ''b''" "ascii ''c''"
    by code_simp+
  note v = this [THEN ascii_valid]
  have "r_header sample_request = [(''A'', [''b'', ''c''])]" by (simp add: sample_request_def)
  moreover from this v have "valid_header (r_header sample_request)"
    by (simp add: valid_header_def wf_alist_def)
  ultimately show ?thesis
    using Request_JSON_roundtrip [of "\<lambda>s. Inr (r_url sample_request)" sample_request] v by auto
qed

end
