(* ===== verification/Replay.thy ===== *)
theory Replay
  imports Download_App Flow
begin

text \<open>
  \<open>ipaversionlib/ipaversion.go\<close> and \<open>http.go\<close>: the addon that takes one purchase request,
  asks the store for the list of versions, and replays the request once per version.
  A panic inside a replay is recovered and retried; a panic in the handler is recovered and
  reported on the \<open>Done\<close> channel. The state of the \<open>Addon\<close> struct is a record; the mutex it
  points to and the messages it sent on the channel are two of its fields.
\<close>

record Addon =
  locked :: bool
  done_sent :: "bool list"
  Start :: int
  End :: int
  HistoryVersions :: "AppInfo list"
  ClientUserAgent :: string
  DumpResponses :: bool
  counter :: int

record replayRequestInput =
  ri_method :: string
  ri_url :: string
  ri_header :: header
  ri_body :: bytes
  LatestVersionID :: uint64
  TargetVersionID :: uint64
  Index :: int
  ActualIndex :: int

definition targetUrlSubstr :: string where
  "targetUrlSubstr = ''-buy.itunes.apple.com/WebObjects/MZBuy.woa/wa/buyProduct''"

definition savedResponseDir :: string where
  "savedResponseDir = ''savedResponse''"

section \<open>Requests and gzip\<close>

text \<open>
  \<open>CloneRequest\<close> sets the header before it looks at the error, and \<open>http.NewRequest\<close>
  returns a nil request together with an error.
\<close>

definition CloneRequest :: "env \<Rightarrow> Request \<Rightarrow> (gerr + http_request) outcome" where
  "CloneRequest E req =
     (case new_request E (r_method req) (url_string (r_url req)) (bytes_reader (r_body req)) of
        Inl err \<Rightarrow> Panicked NilDeref
      | Inr reqClone \<Rightarrow> Ret (Inr (reqClone\<lparr>hq_header := r_header req\<rparr>)))"

definition GzipDecodeReader :: "env \<Rightarrow> reader \<Rightarrow> gerr + bytes" where
  "GzipDecodeReader E r = (case read_all r of Inl e \<Rightarrow> Inl e | Inr b \<Rightarrow> gunzip E b)"

definition GzipDecode :: "env \<Rightarrow> bytes \<Rightarrow> gerr + bytes" where
  "GzipDecode E p = GzipDecodeReader E (bytes_reader p)"

section \<open>Replaying\<close>

text \<open>\<open>log.Panicln\<close>: the panic value is what \<open>Sprintln\<close> makes of its arguments.\<close>

definition log_panicln :: "string \<Rightarrow> gerr \<Rightarrow> gpanic" where
  "log_panicln msg err = LogPanic (msg @ '' '' @ err_text err @ [CHR 0x0A])"

definition version_tag :: "uint64 \<Rightarrow> string" where
  "version_tag v = ''<string>'' @ uint64_str v @ ''</string>''"

definition replay_body :: "replayRequestInput \<Rightarrow> bytes" where
  "replay_body inp =
     replace_all (version_tag (LatestVersionID inp)) (version_tag (TargetVersionID inp)) (ri_body inp)"

text \<open>The line printed for a version that was found: its two indices, its id and its name.\<close>

definition version_line :: "replayRequestInput \<Rightarrow> AppInfo \<Rightarrow> string" where
  "version_line inp a =
     ''('' @ int_str (ActualIndex inp) @ '') ['' @ int_str (Index inp) @ ''] '' @
     uint64_str (SoftwareVersionExternalIdentifier a) @ '' '' @ BundleShortVersionString a @ [CHR 0x0A]"

definition dump_response :: "env \<Rightarrow> Addon \<Rightarrow> bytes \<Rightarrow> world \<Rightarrow> world" where
  "dump_response E c data w =
     (let w1 = snd (os_mkdir_all E savedResponseDir w);
          filename = savedResponseDir @ ''/ReplayResponse'' @ int_str (counter c) @ ''.xml''
      in case os_write_file E filename data w1 of
           (Some err, w2) \<Rightarrow> print (''[ERROR] '' @ err_text err) w2
         | (None, w2) \<Rightarrow> w2)"

text \<open>
  The body of \<open>replayRequest\<close>, without its deferred \<open>recover\<close>. The errors of \<open>NewRequest\<close>
  and \<open>Client.Do\<close> are dropped, so each of them shows as a nil dereference.
\<close>

definition replay_once ::
  "plist_lib \<Rightarrow> env \<Rightarrow> replayRequestInput \<Rightarrow> Addon \<Rightarrow> world \<Rightarrow> unit outcome \<times> Addon \<times> world" where
  "replay_once L E inp c w =
     (let c1 = c\<lparr>counter := counter c + 1\<rparr>
      in case new_request E (ri_method inp) (ri_url inp) (bytes_reader (replay_body inp)) of
           Inl _ \<Rightarrow> (Panicked NilDeref, c1, w)
         | Inr reqClone \<Rightarrow>
      (case client_do E (reqClone\<lparr>hq_header := ri_header inp\<rparr>) w of
           (Inl _, w1) \<Rightarrow> (Panicked NilDeref, c1, w1)
         | (Inr resp, w1) \<Rightarrow>
      (case GzipDecodeReader E (hp_body resp) of
           Inl err \<Rightarrow> (Panicked (log_panicln ''Failed to decode the response body:'' err), c1, w1)
         | Inr resBodyDecoded \<Rightarrow>
      (case GetAppInfo L resBodyDecoded of
           Panicked p \<Rightarrow> (Panicked p, c1, w1)
         | Ret (Inl err) \<Rightarrow> (Panicked (log_panicln ''Failed to parse the app info:'' err), c1, w1)
         | Ret (Inr appInfo) \<Rightarrow>
             (let c2 = c1\<lparr>HistoryVersions := HistoryVersions c1 @ [appInfo]\<rparr>;
                  w2 = print (version_line inp appInfo) w1
              in (Ret (), c2, if DumpResponses c2 then dump_response E c2 resBodyDecoded w2 else w2))))))"

definition warn_line :: "replayRequestInput \<Rightarrow> gpanic \<Rightarrow> string" where
  "warn_line inp p =
     ''[WARN] Recovered from replayRequest ['' @ int_str (Index inp) @ ''] '' @
     uint64_str (TargetVersionID inp) @ '': '' @ panic_text p @ ''.''"

text \<open>\<open>replayRequest\<close> with its deferred function, which calls it again while \<open>retry > 0\<close>.\<close>

fun replayRequest ::
  "plist_lib \<Rightarrow> env \<Rightarrow> replayRequestInput \<Rightarrow> nat \<Rightarrow> Addon \<Rightarrow> world \<Rightarrow> Addon \<times> world" where
  "replayRequest L E inp 0 c w =
     (case replay_once L E inp c w of
        (Ret _, c1, w1) \<Rightarrow> (c1, w1)
      | (Panicked p, c1, w1) \<Rightarrow> (c1, print [CHR 0x0A] (print (warn_line inp p) w1)))"
| "replayRequest L E inp (Suc retry) c w =
     (case replay_once L E inp c w of
        (Ret _, c1, w1) \<Rightarrow> (c1, w1)
      | (Panicked p, c1, w1) \<Rightarrow>
          replayRequest L E inp retry c1
            (print ('' Retrying...'' @ [CHR 0x0A]) (print (warn_line inp p) w1)))"

section \<open>The index range\<close>

text \<open>
  The flags give \<open>[start, end)\<close>: counted from the end when negative, cut to the list of \<open>n\<close>
  versions, and replaced by the whole list when a custom range is empty.
\<close>

definition index_bounds :: "int \<Rightarrow> int \<Rightarrow> int \<Rightarrow> int \<times> int" where
  "index_bounds n start0 end0 =
     (let start1 = (if start0 < 0 then n + start0 else start0);
          end1 = (if end0 < 0 then n + end0 else end0)
      in (max_go 0 start1, min_go n end1))"

definition index_range :: "int \<Rightarrow> int \<Rightarrow> int \<Rightarrow> int \<times> int" where
  "index_range n start0 end0 =
     (case index_bounds n start0 end0 of (start, stop) \<Rightarrow>
        if (start \<noteq> 0 \<or> stop \<noteq> n) \<and> start \<ge> stop then (0, n) else (start, stop))"

section \<open>The handler\<close>

text \<open>The loop over the versions; reading past the slice would be a panic.\<close>

function replay_loop ::
  "plist_lib \<Rightarrow> env \<Rightarrow> (int \<Rightarrow> int \<Rightarrow> uint64 \<Rightarrow> replayRequestInput) \<Rightarrow> uint64 list
     \<Rightarrow> int \<Rightarrow> int \<Rightarrow> int \<Rightarrow> Addon \<Rightarrow> world \<Rightarrow> unit outcome \<times> Addon \<times> world" where
  "replay_loop L E mk versionIDs index stop i c w =
     (if index < stop then
        (if 0 \<le> index \<and> index < int (length versionIDs) then
           (case replayRequest L E (mk index i (versionIDs ! nat index)) 3 c w of
              (c1, w1) \<Rightarrow> replay_loop L E mk versionIDs (index + 1) stop (i + 1) c1 w1)
         else (Panicked IndexOutOfRange, c, w))
      else (Ret (), c, w))"
  by pat_completeness auto
termination
  by (relation "measure (\<lambda>(L, E, mk, versionIDs, index, stop, i, c, w). nat (stop - index))") auto

declare replay_loop.simps [simp del]

text \<open>
  The body of \<open>handleBuyRequest\<close> up to the final send, without its deferred \<open>recover\<close>.
\<close>

definition uint64_list_str :: "uint64 list \<Rightarrow> string" where
  "uint64_list_str vs = ''['' @ join_with '' '' (map uint64_str vs) @ '']''"

definition latest_lines :: "AppInfo \<Rightarrow> world \<Rightarrow> world" where
  "latest_lines latest w =
     (let versionIDs = SoftwareVersionExternalIdentifiers latest
      in println (''History versionIDs:'' @ [CHR 0x09] @ uint64_list_str versionIDs @
             '' (Total: '' @ int_str (int (length versionIDs)) @ '')'')
          (println (''Latest version:'' @ [CHR 0x09, CHR 0x09] @ '' '' @
             uint64_str (SoftwareVersionExternalIdentifier latest) @ '' '' @
             BundleShortVersionString latest)
          (println (''['' @ ItemName latest @ ''] ('' @ ArtistName latest @ '')'')
          (println [] w))))"

definition range_lines :: "int \<Rightarrow> int \<Rightarrow> int \<Rightarrow> world \<Rightarrow> world" where
  "range_lines n start stop w =
     (if start \<noteq> 0 \<or> stop \<noteq> n then
        (let w1 = println (''Index range: ['' @ int_str start @ '', '' @ int_str stop @ '')'') w
         in if start \<ge> stop then println ''Invalid range! Querying all versionIDs'' w1 else w1)
      else w)"

text \<open>The argument of \<open>replayRequest\<close> for the version at \<open>index\<close>.\<close>

definition replay_input :: "Request \<Rightarrow> AppInfo \<Rightarrow> int \<Rightarrow> int \<Rightarrow> uint64 \<Rightarrow> replayRequestInput" where
  "replay_input req latest index i versionID =
     \<lparr>ri_method = r_method req, ri_url = url_string (r_url req),
      ri_header = r_header req, ri_body = r_body req,
      LatestVersionID = SoftwareVersionExternalIdentifier latest,
      TargetVersionID = versionID, Index = index, ActualIndex = i\<rparr>"

definition user_agent :: "Request \<Rightarrow> string" where
  "user_agent req =
     (if hget (r_header req) ''User-Agent'' = [] then DefaultUserAgent
      else hget (r_header req) ''User-Agent'')"

definition agent_line :: "Request \<Rightarrow> string" where
  "agent_line req = ''User-Agent: '' @ user_agent req"

definition buy_body ::
  "plist_lib \<Rightarrow> env \<Rightarrow> Request \<Rightarrow> Addon \<Rightarrow> world \<Rightarrow> unit outcome \<times> Addon \<times> world" where
  "buy_body L E req c w =
     (let c1 = c\<lparr>ClientUserAgent := user_agent req\<rparr>;
          w0 = println (agent_line req) w
      in case CloneRequest E req of
           Panicked p \<Rightarrow> (Panicked p, c1, w0)
         | Ret (Inl err) \<Rightarrow> (Panicked (log_panicln ''Failed to clone the request:'' err), c1, w0)
         | Ret (Inr clonedRequest) \<Rightarrow>
      (case client_do E clonedRequest w0 of
           (Inl err, w1) \<Rightarrow> (Panicked (log_panicln ''Failed to query all versionIDs:'' err), c1, w1)
         | (Inr res, w1) \<Rightarrow>
      (case GzipDecodeReader E (hp_body res) of
           Inl err \<Rightarrow> (Panicked (log_panicln ''Failed to decode response body:'' err), c1, w1)
         | Inr resBody \<Rightarrow>
      (case GetAppInfo L resBody of
           Panicked p \<Rightarrow> (Panicked p, c1, w1)
         | Ret (Inl err) \<Rightarrow> (Panicked (log_panicln ''Failed to parse latest app info:'' err), c1, w1)
         | Ret (Inr latest) \<Rightarrow>
             (let versionIDs = SoftwareVersionExternalIdentifiers latest;
                  n = int (length versionIDs);
                  (start1, stop1) = index_bounds n (Start c1) (End c1);
                  (start, stop) = index_range n (Start c1) (End c1);
                  w2 = println [] (println ''Replaying the request...''
                         (range_lines n start1 stop1 (latest_lines latest w1)))
              in case replay_loop L E (replay_input req latest) versionIDs start stop 0 c1 w2 of
                   (Panicked p, c2, w3) \<Rightarrow> (Panicked p, c2, w3)
                 | (Ret _, c2, w3) \<Rightarrow>
                     (Ret (), c2, println ''Done!''
                        (println ''---------------------------------------'' w3)))))))"

text \<open>With the deferred function: \<open>Done\<close> receives true at the end, false after a panic.\<close>

definition handleBuyRequest ::
  "plist_lib \<Rightarrow> env \<Rightarrow> Request \<Rightarrow> Addon \<Rightarrow> world \<Rightarrow> Addon \<times> world" where
  "handleBuyRequest L E req c w =
     (case buy_body L E req c w of
        (Ret _, c1, w1) \<Rightarrow> (c1\<lparr>done_sent := done_sent c1 @ [True]\<rparr>, w1)
      | (Panicked p, c1, w1) \<Rightarrow>
          (c1\<lparr>done_sent := done_sent c1 @ [False]\<rparr>,
           print (''[WARN] Recovered from handleBuyRequest ['' @ url_string (r_url req) @ '']: '' @
                  panic_text p @ [CHR 0x0A]) w1))"

text \<open>The \<open>Request\<close> hook: \<open>TryLock\<close> lets the first matching request through, for ever.\<close>

definition Addon_Request ::
  "plist_lib \<Rightarrow> env \<Rightarrow> Request \<Rightarrow> Addon \<Rightarrow> world \<Rightarrow> Addon \<times> world" where
  "Addon_Request L E req c w =
     (if contains (url_string (r_url req)) targetUrlSubstr then
        (if locked c then (c, w)
         else handleBuyRequest L E req (c\<lparr>locked := True\<rparr>) w)
      else (c, w))"

fun Addon_Requests ::
  "plist_lib \<Rightarrow> env \<Rightarrow> Request list \<Rightarrow> Addon \<Rightarrow> world \<Rightarrow> Addon \<times> world" where
  "Addon_Requests L E [] c w = (c, w)"
| "Addon_Requests L E (q # qs) c w =
     (case Addon_Request L E q c w of (c1, w1) \<Rightarrow> Addon_Requests L E qs c1 w1)"

end
