(* ===== verification/Replay_Run.thy ===== *)
theory Replay_Run
  imports Replay_Props
begin

text \<open>
  Properties of the replaying addon as a whole (\<open>ipaversionlib/ipaversion.go\<close>): what one
  replay with its retries may change, the bounds of the index range, that the loop over the
  versions never reads outside the list, that the handler reports exactly once on the
  \<open>Done\<close> channel, that the addon runs its handler for the first matching request only, and
  what the history holds after a run in which the store answered every replay.
\<close>

section \<open>One replay and its retries\<close>

text \<open>
  What a replay may do to the addon: count up to \<open>n\<close> attempts, append at most one entry to
  the history, and nothing else.
\<close>

definition replay_step :: "nat \<Rightarrow> Addon \<Rightarrow> Addon \<Rightarrow> bool" where
  "replay_step n c c' \<longleftrightarrow>
     (\<exists>k new. 1 \<le> k \<and> k \<le> n \<and> length new \<le> 1 \<and> (new = [] \<longrightarrow> k = n) \<and>
        c' = c\<lparr>counter := counter c + int k, HistoryVersions := HistoryVersions c @ new\<rparr>)"

lemma replay_step_first:
  "replay_step (Suc n) c (c\<lparr>counter := counter c + 1, HistoryVersions := HistoryVersions c @ [a]\<rparr>)"
  unfolding replay_step_def by (intro exI [of _ 1] exI [of _ "[a]"]) simp

lemma replay_step_fail: "replay_step 1 c (c\<lparr>counter := counter c + 1\<rparr>)"
  unfolding replay_step_def by (intro exI [of _ 1] exI [of _ "[]"]) simp

lemma replay_step_retry:
  assumes "replay_step n (c\<lparr>counter := counter c + 1\<rparr>) c'"
  shows "replay_step (Suc n) c c'"
proof -
  from assms obtain k new where "1 \<le> k" "k \<le> n" "length new \<le> 1" "new = [] \<longrightarrow> k = n"
    "c' = c\<lparr>counter := counter c + 1 + int k, HistoryVersions := HistoryVersions c @ new\<rparr>"
    by (auto simp: replay_step_def)
  then show ?thesis
    unfolding replay_step_def by (intro exI [of _ "Suc k"] exI [of _ new]) simp
qed

lemma replay_once_cases:
  assumes "replay_once L E inp c w = (r, c1, w1)"
  obtains (failed) p where "r = Panicked p" "c1 = c\<lparr>counter := counter c + 1\<rparr>"
    | (ok) a where "r = Ret ()"
      "c1 = c\<lparr>counter := counter c + 1, HistoryVersions := HistoryVersions c @ [a]\<rparr>"
  using assms
  by (auto simp: replay_once_def Let_def split: sum.splits prod.splits outcome.splits)

lemma replayRequest_step:
  "replay_step (Suc retry) c (fst (replayRequest L E inp retry c w))"
proof (induction retry arbitrary: c w)
  case 0
  obtain r c1 w1 where once: "replay_once L E inp c w = (r, c1, w1)" by (metis prod_cases3)
  from this show ?case
    by (cases rule: replay_once_cases)
      (use once replay_step_fail replay_step_first in simp_all)
next
  case (Suc retry)
  obtain r c1 w1 where once: "replay_once L E inp c w = (r, c1, w1)" by (metis prod_cases3)
  from this show ?case
  proof (cases rule: replay_once_cases)
    case (failed p)
    with once show ?thesis by (simp add: replay_step_retry Suc.IH)
  next
    case (ok a)
    with once show ?thesis by (simp add: replay_step_first)
  qed
qed

text \<open>
  a replay with \<open>retry\<close> retries makes between one and \<open>retry + 1\<close> attempts, appends at
  most one entry to the history, gives up only after the last attempt, and leaves every
  other field of the addon, the lock and the messages sent included, as it was.
\<close>

theorem replayRequest_effect:
  "\<exists>k new. 1 \<le> k \<and> k \<le> Suc retry \<and> length new \<le> 1 \<and> (new = [] \<longrightarrow> k = Suc retry) \<and>
     fst (replayRequest L E inp retry c w) =
       c\<lparr>counter := counter c + int k, HistoryVersions := HistoryVersions c @ new\<rparr>"
  using replayRequest_step [of retry c L E inp w] by (simp add: replay_step_def)

section \<open>The index range\<close>

lemma index_range_bounds:
  assumes "0 \<le> n" and "index_range n s e = (start, stop)"
  shows "0 \<le> start \<and> start \<le> stop \<and> stop \<le> n"
  using assms
  by (auto simp: index_range_def index_bounds_def Let_def max_go_def min_go_def split: if_splits)

lemma index_range_nonempty:
  "0 < n \<Longrightarrow> index_range n s e = (start, stop) \<Longrightarrow> start < stop"
  by (auto simp: index_range_def index_bounds_def Let_def max_go_def min_go_def split: if_splits)

text \<open>The reference: the positions a slice \<open>[s:e]\<close> with negative indices selects.\<close>

definition slice_positions :: "int \<Rightarrow> int \<Rightarrow> int \<Rightarrow> int set" where
  "slice_positions n s e =
     {i. 0 \<le> i \<and> i < n \<and> (if s < 0 then n + s else s) \<le> i \<and> i < (if e < 0 then n + e else e)}"

text \<open>
  the index range selects the positions of the slice that the two flags describe, negative
  values counting from the end; a slice that is empty selects the whole list instead.
\<close>

theorem index_range_slice:
  assumes "0 \<le> n"
  shows "(case index_range n s e of (start, stop) \<Rightarrow> {start..<stop}) =
     (if slice_positions n s e = {} then {0..<n} else slice_positions n s e)"
proof -
  obtain b t where bt: "index_bounds n s e = (b, t)" by force
  then have sl: "slice_positions n s e = {b..<t}"
    by (auto simp: slice_positions_def index_bounds_def Let_def max_go_def min_go_def)
  show ?thesis using assms by (auto simp: index_range_def bt sl)
qed

theorem index_range_slice_witness:
  "(0::int) \<le> 5 \<and>
   (case index_range 5 (-3) (-1) of (start, stop) \<Rightarrow> {start..<stop}) =
     (if slice_positions 5 (-3) (-1) = {} then {0..<5} else slice_positions 5 (-3) (-1)) \<and>
   index_range 5 (-3) (-1) = (2, 4)"
  using index_range_slice [of 5 "-3" "-1"]
  by (simp add: index_range_def index_bounds_def Let_def max_go_def min_go_def)

section \<open>The loop over the versions\<close>

text \<open>What a run of replays may do to the addon: at most one history entry per version.\<close>

definition replay_run :: "nat \<Rightarrow> Addon \<Rightarrow> Addon \<Rightarrow> bool" where
  "replay_run n c c' \<longleftrightarrow>
     (\<exists>k new. length new \<le> n \<and> n \<le> k \<and> k \<le> 4 * n \<and>
        c' = c\<lparr>counter := counter c + int k, HistoryVersions := HistoryVersions c @ new\<rparr>)"

lemma replay_run_0: "replay_run 0 c c"
  by (simp add: replay_run_def)

lemma replay_run_Suc:
  assumes "replay_step 4 c c1" and "replay_run n c1 c2"
  shows "replay_run (Suc n) c c2"
proof -
  from assms(1) obtain k new where 1: "1 \<le> k" "k \<le> 4" "length new \<le> 1"
    "c1 = c\<lparr>counter := counter c + int k, HistoryVersions := HistoryVersions c @ new\<rparr>"
    by (auto simp: replay_step_def)
  from assms(2) obtain l new2 where 2: "length new2 \<le> n" "n \<le> l" "l \<le> 4 * n"
    "c2 = c1\<lparr>counter := counter c1 + int l, HistoryVersions := HistoryVersions c1 @ new2\<rparr>"
    by (auto simp: replay_run_def)
  show ?thesis unfolding replay_run_def
    by (intro exI [of _ "k + l"] exI [of _ "new @ new2"]) (use 1 2 in simp)
qed

lemma replay_loop_runs:
  assumes "0 \<le> index" and "stop \<le> int (length ids)"
  shows "\<exists>c' w'. replay_loop L E mk ids index stop i c w = (Ret (), c', w') \<and>
           replay_run (nat (stop - index)) c c'"
  using assms
proof (induction "nat (stop - index)" arbitrary: index i c w)
  case 0
  then show ?case by (subst replay_loop.simps) (simp add: replay_run_0)
next
  case (Suc n)
  let ?inp = "mk index i (ids ! nat index)"
  obtain c1 w1 where r: "replayRequest L E ?inp 3 c w = (c1, w1)" by force
  with replayRequest_step [of 3 c L E ?inp w] have st: "replay_step 4 c c1" by simp
  have "n = nat (stop - (index + 1))" "0 \<le> index + 1" using Suc.prems Suc(2) by simp_all
  from Suc.hyps(1) [OF this Suc.prems(2), of "i + 1" c1 w1] obtain c' w' where
    rec: "replay_loop L E mk ids (index + 1) stop (i + 1) c1 w1 = (Ret (), c', w')"
    and run: "replay_run (nat (stop - (index + 1))) c1 c'"
    by blast
  have "nat (stop - index) = Suc (nat (stop - (index + 1)))" using Suc(2) by simp
  with replay_run_Suc [OF st run] have "replay_run (nat (stop - index)) c c'" by simp
  moreover have "replay_loop L E mk ids index stop i c w = (Ret (), c', w')"
    using Suc.prems Suc(2) by (subst replay_loop.simps) (simp add: r rec)
  ultimately show ?case by blast
qed

section \<open>The handler reports once\<close>

text \<open>The list of versions that the first reply gives, when there is one.\<close>

definition buy_reply :: "plist_lib \<Rightarrow> env \<Rightarrow> Request \<Rightarrow> nat \<Rightarrow> AppInfo option" where
  "buy_reply L E req t =
     (case CloneRequest E req of
        Ret (Inr q) \<Rightarrow>
          (case respond E t q of
             Inr res \<Rightarrow>
               (case GzipDecodeReader E (hp_body res) of
                  Inr b \<Rightarrow> (case GetAppInfo L b of Ret (Inr a) \<Rightarrow> Some a | _ \<Rightarrow> None)
                | Inl _ \<Rightarrow> None)
           | Inl _ \<Rightarrow> None)
      | _ \<Rightarrow> None)"

lemma buy_body_None:
  assumes "buy_reply L E req (tick w) = None"
  shows "\<exists>p ua w'. buy_body L E req c w = (Panicked p, c\<lparr>ClientUserAgent := ua\<rparr>, w') \<and> p \<noteq> IndexOutOfRange"
  using assms
  by (auto simp: buy_reply_def buy_body_def Let_def client_do_def log_panicln_def println_def print_def
      CloneRequest_def dest: GetAppInfo_panic split: outcome.splits sum.splits prod.splits)

lemma buy_body_Some:
  assumes "buy_reply L E req (tick w) = Some a"
    and "index_range (int (length (SoftwareVersionExternalIdentifiers a))) (Start c) (End c) = (start, stop)"
  shows "\<exists>w2 r c' w' w3. tick w2 = Suc (tick w) \<and>
     replay_loop L E (replay_input req a) (SoftwareVersionExternalIdentifiers a) start stop 0
       (c\<lparr>ClientUserAgent := user_agent req\<rparr>) w2 = (r, c', w') \<and>
     buy_body L E req c w = (r, c', w3)"
proof -
  let ?ids = "SoftwareVersionExternalIdentifiers a"
  obtain b t where bt: "index_bounds (int (length ?ids)) (Start c) (End c) = (b, t)" by force
  from assms(1) obtain q res d where
    q: "CloneRequest E req = Ret (Inr q)" "respond E (tick w) q = Inr res"
       "GzipDecodeReader E (hp_body res) = Inr d" "GetAppInfo L d = Ret (Inr a)"
    by (auto simp: buy_reply_def split: outcome.splits sum.splits)
  define w1 where
    "w1 = snd (client_do E q (println (agent_line req) w))"
  define w2 where "w2 = println [] (println ''Replaying the request...''
      (range_lines (int (length ?ids)) b t (latest_lines a w1)))"
  obtain r c' w' where r: "replay_loop L E (replay_input req a) ?ids start stop 0
      (c\<lparr>ClientUserAgent := user_agent req\<rparr>) w2 = (r, c', w')"
    by (metis prod_cases3)
  have cd: "client_do E q (println (agent_line req) w) = (Inr res, w1)"
    using q(2) by (simp add: w1_def client_do_def println_def world_simps)
  have "tick w2 = Suc (tick w)"
    by (simp add: w2_def w1_def client_do_def println_def world_simps range_lines_def latest_lines_def Let_def)
  moreover have "\<exists>w3. buy_body L E req c w = (r, c', w3)"
    using assms(2) r unfolding w2_def
    by (simp add: buy_body_def Let_def q cd bt split: outcome.splits)
  ultimately show ?thesis using r by blast
qed

text \<open>What the handler may change, and the one message it sends.\<close>

definition handled :: "bool \<Rightarrow> Addon \<Rightarrow> Addon \<Rightarrow> bool" where
  "handled ok c c' \<longleftrightarrow>
     (\<exists>ua k new. c' = c\<lparr>ClientUserAgent := ua, counter := counter c + int k,
        HistoryVersions := HistoryVersions c @ new, done_sent := done_sent c @ [ok]\<rparr> \<and>
        (\<not> ok \<longrightarrow> new = [] \<and> k = 0))"

lemma handled_fields:
  "handled ok c c' \<Longrightarrow> locked c' = locked c \<and> done_sent c' = done_sent c @ [ok]"
  by (auto simp: handled_def)

lemma handled_panic: "handled False c (c\<lparr>ClientUserAgent := ua, done_sent := done_sent c @ [False]\<rparr>)"
  unfolding handled_def by (intro exI [of _ ua] exI [of _ 0] exI [of _ "[]"]) simp

lemma handled_run:
  assumes "replay_run n (c\<lparr>ClientUserAgent := ua\<rparr>) c'"
  shows "handled True c (c'\<lparr>done_sent := done_sent c' @ [True]\<rparr>)"
  using assms unfolding replay_run_def handled_def by auto metis

lemma handleBuyRequest_handled:
  "handled (buy_reply L E req (tick w) \<noteq> None) c (fst (handleBuyRequest L E req c w))"
proof (cases "buy_reply L E req (tick w)")
  case None
  from buy_body_None [OF None, of c] obtain p ua w' where
    "buy_body L E req c w = (Panicked p, c\<lparr>ClientUserAgent := ua\<rparr>, w')" by blast
  with None show ?thesis by (simp add: handleBuyRequest_def handled_panic)
next
  case (Some a)
  let ?ids = "SoftwareVersionExternalIdentifiers a" and ?c = "c\<lparr>ClientUserAgent := user_agent req\<rparr>"
  obtain start stop where ir: "index_range (int (length ?ids)) (Start c) (End c) = (start, stop)"
    by force
  from index_range_bounds [OF _ ir] have b: "0 \<le> start" "stop \<le> int (length ?ids)" by auto
  from buy_body_Some [OF Some ir] obtain w2 r c2 wr w4 where w2:
    "replay_loop L E (replay_input req a) ?ids start stop 0 ?c w2 = (r, c2, wr)"
    "buy_body L E req c w = (r, c2, w4)" by blast
  from replay_loop_runs [OF b, of L E "replay_input req a" 0 ?c w2] obtain c' w' where
    "replay_loop L E (replay_input req a) ?ids start stop 0 ?c w2 = (Ret (), c', w')"
    and run: "replay_run (nat (stop - start)) ?c c'" by blast
  with w2 obtain w3 where "buy_body L E req c w = (Ret (), c', w3)" by auto
  with Some handled_run [OF run] show ?thesis by (simp add: handleBuyRequest_def)
qed

text \<open>
  C20: the handler sends exactly one message on \<open>Done\<close>: true when the list of versions could be
  read from the store's first reply, false when it could not, and then nothing was replayed.
  The lock, the range and the dump flag stay, and the history only grows.
\<close>

theorem handleBuyRequest_reports_once:
  "let c' = fst (handleBuyRequest L E req c w);
       ok = (buy_reply L E req (tick w) \<noteq> None)
   in done_sent c' = done_sent c @ [ok] \<and> locked c' = locked c \<and> Start c' = Start c \<and>
      End c' = End c \<and> DumpResponses c' = DumpResponses c \<and>
      (\<exists>new. HistoryVersions c' = HistoryVersions c @ new \<and>
         (ok \<or> new = [] \<and> counter c' = counter c))"
  using handleBuyRequest_handled [of L E req w c] unfolding handled_def Let_def by auto

section \<open>The addon runs its handler once\<close>

lemma Addon_Requests_locked: "locked c \<Longrightarrow> Addon_Requests L E qs c w = (c, w)"
  by (induction qs) (simp_all add: Addon_Request_def)

text \<open>
  Over any sequence of requests the addon does what it does for the first one whose URL is a
  purchase; once its lock is taken it ignores everything, so the handler runs at most once.
\<close>

lemma Addon_Requests_first:
  "Addon_Requests L E qs c w =
     (if locked c then (c, w)
      else case find (\<lambda>q. contains (url_string (r_url q)) targetUrlSubstr) qs of
             None \<Rightarrow> (c, w)
           | Some q \<Rightarrow> handleBuyRequest L E q (c\<lparr>locked := True\<rparr>) w)"
proof (induction qs)
  case (Cons q qs)
  show ?case
  proof (cases "contains (url_string (r_url q)) targetUrlSubstr \<and> \<not> locked c")
    case True
    obtain c' w' where h: "handleBuyRequest L E q (c\<lparr>locked := True\<rparr>) w = (c', w')" by force
    with handled_fields [OF handleBuyRequest_handled [of L E q w "c\<lparr>locked := True\<rparr>"]]
    have "locked c'" by simp
    with True h show ?thesis by (simp add: Addon_Request_def Addon_Requests_locked)
  next
    case False
    with Cons.IH show ?thesis
      by (auto simp: Addon_Request_def Addon_Requests_locked split: option.splits)
  qed
qed simp

section \<open>A complete run\<close>

definition replay_http :: "replayRequestInput \<Rightarrow> http_request" where
  "replay_http inp =
     \<lparr>hq_method = ri_method inp, hq_url = ri_url inp, hq_header = ri_header inp,
      hq_body = bytes_reader (replay_body inp)\<rparr>"

text \<open>The store answers this replay with the given version information, whenever it is asked.\<close>

definition answers :: "plist_lib \<Rightarrow> env \<Rightarrow> replayRequestInput \<Rightarrow> AppInfo \<Rightarrow> bool" where
  "answers L E inp a \<longleftrightarrow>
     bad_request E (ri_method inp) (ri_url inp) = None \<and>
     (\<forall>t. \<exists>res d. respond E t (replay_http inp) = Inr res \<and>
          GzipDecodeReader E (hp_body res) = Inr d \<and> GetAppInfo L d = Ret (Inr a))"

lemma replayRequest_answered:
  assumes "answers L E inp a"
  shows "\<exists>w'. replayRequest L E inp retry c w =
     (c\<lparr>counter := counter c + 1, HistoryVersions := HistoryVersions c @ [a]\<rparr>, w')"
proof -
  from assms obtain res d where
    "respond E (tick w) (replay_http inp) = Inr res"
    "GzipDecodeReader E (hp_body res) = Inr d" "GetAppInfo L d = Ret (Inr a)"
    "bad_request E (ri_method inp) (ri_url inp) = None"
    unfolding answers_def by blast
  then have "\<exists>w'. replay_once L E inp c w =
      (Ret (), c\<lparr>counter := counter c + 1, HistoryVersions := HistoryVersions c @ [a]\<rparr>, w')"
    by (auto simp: replay_once_def Let_def client_do_def new_request_def replay_http_def)
  then show ?thesis by (cases retry) auto
qed

lemma replay_loop_answered:
  assumes "0 \<le> index" and "index \<le> stop" and "stop \<le> int (length ids)"
    and "\<And>j k. index \<le> j \<Longrightarrow> j < stop \<Longrightarrow> answers L E (mk j k (ids ! nat j)) (info (ids ! nat j))"
  shows "\<exists>w'. replay_loop L E mk ids index stop i c w =
     (Ret (), c\<lparr>counter := counter c + (stop - index),
        HistoryVersions := HistoryVersions c @
          map info (take (nat (stop - index)) (drop (nat index) ids))\<rparr>, w')"
  using assms
proof (induction "nat (stop - index)" arbitrary: index i c w)
  case 0
  then show ?case by (subst replay_loop.simps) simp
next
  case (Suc n)
  let ?v = "ids ! nat index"
  have b: "index < stop" "nat index < length ids" "index < int (length ids)"
    using Suc.hyps(2) Suc.prems(1,3) by linarith+
  from replayRequest_answered [OF Suc.prems(4) [OF order_refl b(1), of i], of 3 c w] obtain w1 where
    r: "replayRequest L E (mk index i ?v) 3 c w =
      (c\<lparr>counter := counter c + 1, HistoryVersions := HistoryVersions c @ [info ?v]\<rparr>, w1)"
    by blast
  have "n = nat (stop - (index + 1))" "0 \<le> index + 1" "index + 1 \<le> stop"
    using Suc.prems(1) Suc.hyps(2) by simp_all
  from Suc.hyps(1) [OF this Suc.prems(3), of "i + 1"
      "c\<lparr>counter := counter c + 1, HistoryVersions := HistoryVersions c @ [info ?v]\<rparr>" w1]
  obtain w' where rec:
    "replay_loop L E mk ids (index + 1) stop (i + 1)
       (c\<lparr>counter := counter c + 1, HistoryVersions := HistoryVersions c @ [info ?v]\<rparr>) w1 =
     (Ret (), c\<lparr>counter := counter c + 1 + (stop - (index + 1)),
        HistoryVersions := HistoryVersions c @ [info ?v] @
          map info (take (nat (stop - (index + 1))) (drop (nat (index + 1)) ids))\<rparr>, w')"
    using Suc.prems(4) by auto
  have "drop (nat index) ids = ?v # drop (nat (index + 1)) ids"
    using b(2) Suc.prems(1) Cons_nth_drop_Suc [of "nat index" ids] by (simp add: nat_add_distrib)
  moreover have "nat (stop - index) = Suc (nat (stop - (index + 1)))" using b(1) by simp
  ultimately show ?case
    using b Suc.prems(1) rec by (subst replay_loop.simps) (simp add: r)
qed

lemma handleBuyRequest_answered:
  assumes "buy_reply L E req (tick w) = Some a"
    and "index_range (int (length (SoftwareVersionExternalIdentifiers a))) (Start c) (End c) = (start, stop)"
    and "\<And>j i. start \<le> j \<Longrightarrow> j < stop \<Longrightarrow>
      answers L E (replay_input req a j i (SoftwareVersionExternalIdentifiers a ! nat j))
        (info (SoftwareVersionExternalIdentifiers a ! nat j))"
  shows "fst (handleBuyRequest L E req c w) =
     c\<lparr>ClientUserAgent := user_agent req, counter := counter c + (stop - start),
       HistoryVersions := HistoryVersions c @
         map info (take (nat (stop - start)) (drop (nat start) (SoftwareVersionExternalIdentifiers a))),
       done_sent := done_sent c @ [True]\<rparr>"
proof -
  let ?ids = "SoftwareVersionExternalIdentifiers a" and ?c = "c\<lparr>ClientUserAgent := user_agent req\<rparr>"
  from index_range_bounds [OF _ assms(2)]
  have b: "0 \<le> start" "start \<le> stop" "stop \<le> int (length ?ids)" by auto
  from buy_body_Some [OF assms(1,2)] obtain w2 r c2 wr w3 where w2:
    "replay_loop L E (replay_input req a) ?ids start stop 0 ?c w2 = (r, c2, wr)"
    "buy_body L E req c w = (r, c2, w3)" by blast
  have ans: "answers L E (replay_input req a j k (?ids ! nat j)) (info (?ids ! nat j))"
    if "start \<le> j" "j < stop" for j k
    using assms(3) that by simp
  from replay_loop_answered [where mk = "replay_input req a" and info = info, OF b ans, of 0 ?c w2] w2 have
    "buy_body L E req c w =
       (Ret (), ?c\<lparr>counter := counter c + (stop - start),
          HistoryVersions := HistoryVersions c @ map info (take (nat (stop - start)) (drop (nat start) ?ids))\<rparr>, w3)"
    by auto
  then show ?thesis by (simp add: handleBuyRequest_def)
qed

text \<open>
  C19: when the list of versions is read and the store answers every replay, the history gets,
  in the order of the list, one entry for each version of the index range, \<open>Done\<close> receives
  true, and exactly one attempt per version was counted.
\<close>

theorem handleBuyRequest_complete:
  assumes "buy_reply L E req (tick w) = Some a"
    and "index_range (int (length (SoftwareVersionExternalIdentifiers a))) (Start c) (End c) = (start, stop)"
    and "\<And>j i. start \<le> j \<Longrightarrow> j < stop \<Longrightarrow>
      answers L E (replay_input req a j i (SoftwareVersionExternalIdentifiers a ! nat j))
        (info (SoftwareVersionExternalIdentifiers a ! nat j))"
  shows "fst (handleBuyRequest L E req c w) =
     c\<lparr>ClientUserAgent := user_agent req, counter := counter c + (stop - start),
       HistoryVersions := HistoryVersions c @
         map info (take (nat (stop - start)) (drop (nat start) (SoftwareVersionExternalIdentifiers a))),
       done_sent := done_sent c @ [True]\<rparr>"
  using handleBuyRequest_answered [OF assms(1,2), of info] assms(3) by blast

section \<open>Closed instances\<close>

text \<open>
  A store with two versions: it looks at the version tag of the body it receives. Its replies
  carry the request body, and the plist library of the instance reads the tag from it.
\<close>

definition old_info :: AppInfo where
  "old_info = (sample_app [])\<lparr>SoftwareVersionExternalIdentifier := 7,
     SoftwareVersionExternalIdentifiers := [7, 8]\<rparr>"

definition version_metadata :: "uint64 \<Rightarrow> (string \<times> pval) list" where
  "version_metadata v =
     [(''softwareVersionExternalIdentifiers'', PArray [PUInt 7, PUInt 8]),
      (''bundleDisplayName'', PString ''Foo''), (''bundleShortVersionString'', PString ''1.0''),
      (''softwareVersionExternalIdentifier'', PUInt v),
      (''itemName'', PString ''Foo''), (''artistName'', PString ''Bar'')]"

definition two_versions_lib :: plist_lib where
  "two_versions_lib = (sample_lib [])\<lparr>unmarshal_download := (\<lambda>d. Inr
     \<lparr>FailureType = [], CustomerMessage = [],
      Items = [sample_item (version_metadata (if contains d (version_tag 7) then 7 else 8)) []]\<rparr>)\<rparr>"

definition version_info :: "bytes \<Rightarrow> uint64 \<Rightarrow> AppInfo" where
  "version_info d v =
     \<lparr>Item = sample_item (version_metadata v) [], Data = d, BundleDisplayName = ''Foo'',
      BundleShortVersionString = ''1.0'', SoftwareVersionExternalIdentifier = v,
      SoftwareVersionExternalIdentifiers = [7, 8], ItemName = ''Foo'', ArtistName = ''Bar''\<rparr>"

text \<open>The store, which may drop the connection when it is asked for version 7.\<close>

definition store_env :: "bool \<Rightarrow> env" where
  "store_env drops = calm_env\<lparr>respond := (\<lambda>_ q.
     if drops \<and> contains (rdata (hq_body q)) (version_tag 7) then Inl (EMsg ''EOF'')
     else Inr (ipa_response\<lparr>hp_body := hq_body q\<rparr>))\<rparr>"

definition buy_request :: Request where
  "buy_request =
     \<lparr>r_method = ''POST'',
      r_url = \<lparr>u_scheme = ''https'', u_host = ''p1-buy.itunes.apple.com'',
        u_rest = ''/WebObjects/MZBuy.woa/wa/buyProduct''\<rparr>,
      r_proto = ''HTTP/1.1'', r_header = [], r_body = ''<string>8</string>''\<rparr>"

definition new_addon :: Addon where
  "new_addon = \<lparr>locked = False, done_sent = [], Start = 0, End = 2, HistoryVersions = [],
     ClientUserAgent = [], DumpResponses = False, counter = 0\<rparr>"

lemma buy_reply_sample:
  "buy_reply two_versions_lib (store_env False) buy_request 0 = Some (version_info ''<string>8</string>'' 8)"
  "buy_reply two_versions_lib (store_env True) buy_request 0 = Some (version_info ''<string>8</string>'' 8)"
  by code_simp+

lemma replay_body_sample:
  "replay_body (replay_input buy_request (version_info d 8) j i 7) = ''<string>7</string>''"
  "replay_body (replay_input buy_request (version_info d 8) j i 8) = ''<string>8</string>''"
  by (simp_all add: replay_body_def replay_input_def version_info_def) code_simp+

lemma answers_sample:
  assumes "v = 7 \<or> v = 8"
  shows "answers two_versions_lib (store_env False) (replay_input buy_request (version_info d 8) j i v)
     (version_info (version_tag v) v)"
proof -
  have g: "GetAppInfo two_versions_lib (version_tag 7) = Ret (Inr (version_info (version_tag 7) 7))"
    "GetAppInfo two_versions_lib (version_tag 8) = Ret (Inr (version_info (version_tag 8) 8))"
    by code_simp+
  have t: "version_tag 7 = ''<string>7</string>''" "version_tag 8 = ''<string>8</string>''"
    by code_simp+
  show ?thesis
    using assms g
    by (auto simp: answers_def replay_http_def replay_body_sample store_env_def calm_env_def
        GzipDecodeReader_def t)
qed

theorem handleBuyRequest_complete_witness:
  "map SoftwareVersionExternalIdentifier
     (HistoryVersions (fst (handleBuyRequest two_versions_lib (store_env False) buy_request new_addon
        empty_world))) = [7, 8]"
proof -
  let ?a = "version_info ''<string>8</string>'' 8"
  have ir: "index_range (int (length (SoftwareVersionExternalIdentifiers ?a))) (Start new_addon)
      (End new_addon) = (0, 2)"
    by code_simp
  have r: "buy_reply two_versions_lib (store_env False) buy_request (tick empty_world) = Some ?a"
    using buy_reply_sample(1) by (simp add: empty_world_def)
  have ans: "answers two_versions_lib (store_env False)
       (replay_input buy_request ?a j i (SoftwareVersionExternalIdentifiers ?a ! nat j))
       ((\<lambda>v. version_info (version_tag v) v) (SoftwareVersionExternalIdentifiers ?a ! nat j))"
    if "0 \<le> j" "j < 2" for j i
  proof -
    from that have "nat j = 0 \<or> nat j = 1" by linarith
    then show ?thesis using answers_sample by (auto simp: version_info_def)
  qed
  from handleBuyRequest_complete [OF r ir ans] show ?thesis
    by (simp add: version_info_def new_addon_def)
qed

text \<open>The same store, dropping the connection for version 7.\<close>

lemma sample_bodies:
  "replay_body (replay_input buy_request (version_info d 8) j i 7) = version_tag 7"
  "replay_body (replay_input buy_request (version_info d 8) j i 8) = version_tag 8"
  "contains (version_tag 7) (version_tag 7)" "\<not> contains (version_tag 8) (version_tag 7)"
  unfolding replay_body_sample by code_simp+

lemma dropped_once:
  "replay_once two_versions_lib (store_env True) (replay_input buy_request (version_info d 8) j i 7) c w =
     (Panicked NilDeref, c\<lparr>counter := counter c + 1\<rparr>, w\<lparr>tick := Suc (tick w)\<rparr>)"
  unfolding replay_once_def sample_bodies
  by (simp add: new_request_def client_do_def store_env_def calm_env_def sample_bodies)

lemma served_once:
  assumes "\<not> DumpResponses c"
  shows "replay_once two_versions_lib (store_env True) (replay_input buy_request (version_info d 8) j i 8) c w =
     (Ret (), c\<lparr>counter := counter c + 1,
        HistoryVersions := HistoryVersions c @ [version_info (version_tag 8) 8]\<rparr>,
      print (version_line (replay_input buy_request (version_info d 8) j i 8) (version_info (version_tag 8) 8))
        (w\<lparr>tick := Suc (tick w)\<rparr>))"
proof -
  have "GetAppInfo two_versions_lib (version_tag 8) = Ret (Inr (version_info (version_tag 8) 8))"
    by code_simp
  with assms show ?thesis
    unfolding replay_once_def sample_bodies
    by (simp add: new_request_def client_do_def store_env_def calm_env_def sample_bodies
        GzipDecodeReader_def)
qed

lemma sample_line:
  "version_line (replay_input buy_request (version_info d 8) 1 1 8) (version_info (version_tag 8) 8) =
     ''(1) [1] 8 1.0'' @ [CHR 0x0A]"
  by (simp add: version_line_def replay_input_def version_info_def) code_simp

lemma partial_loop:
  "\<exists>w1. replay_loop two_versions_lib (store_env True) (replay_input buy_request (version_info d 8)) [7, 8]
      0 2 0 (new_addon\<lparr>ClientUserAgent := ua\<rparr>) w =
     (Ret (), new_addon\<lparr>ClientUserAgent := ua, counter := 5,
        HistoryVersions := [version_info (version_tag 8) 8]\<rparr>, w1) \<and>
     ''(1) [1] 8 1.0'' @ [CHR 0x0A] \<in> set (stdout w1)"
  by (subst replay_loop.simps, simp add: numeral_3_eq_3 dropped_once)
    (subst replay_loop.simps, simp add: numeral_3_eq_3 served_once sample_line
      replay_loop.simps [of _ _ _ _ 2] new_addon_def print_def)

text \<open>
  \<open>ActualIndex\<close> is documented as the index in the filtered result \<open>HistoryVersions\<close>, but it
  counts the replays that were started: after a version whose replay failed for good, the
  number printed for the next one is one more than its place in the history.
\<close>

theorem actual_index_counts_failures:
  "\<exists>w1. replay_loop two_versions_lib (store_env True)
      (replay_input buy_request (version_info ''<string>8</string>'' 8)) [7, 8] 0 2 0 new_addon empty_world =
     (Ret (), new_addon\<lparr>counter := 5, HistoryVersions := [version_info (version_tag 8) 8]\<rparr>, w1) \<and>
     ''(1) [1] 8 1.0'' @ [CHR 0x0A] \<in> set (stdout w1)"
  using partial_loop [of _ "ClientUserAgent new_addon" empty_world] by simp

text \<open>
  \<open>CloneRequest\<close> never returns an error: where \<open>http.NewRequest\<close> refuses the request it
  panics instead, because it sets the header of the nil request before it looks at the error.
\<close>

theorem CloneRequest_no_error:
  "CloneRequest E req =
     (if bad_request E (r_method req) (url_string (r_url req)) \<noteq> None then Panicked NilDeref
      else Ret (Inr \<lparr>hq_method = r_method req, hq_url = url_string (r_url req),
                     hq_header = r_header req, hq_body = bytes_reader (r_body req)\<rparr>))"
  by (auto simp: CloneRequest_def new_request_def split: option.splits)

end
