(* ===== verification/Helper.thy ===== *)
theory Helper
  imports Replay_Run
begin

text \<open>
  \<open>lib/go-mitmproxy/proxy/helper.go\<close>: which errors are logged as errors, the two copying
  goroutines of \<open>transfer\<close> as a step relation, \<open>readerToBuffer\<close>, the once-only TLS key log
  file, the choice of the upstream proxy, and \<open>NewStructFromFile\<close>. \<open>url.Parse\<close>,
  \<open>http.ProxyFromEnvironment\<close> and \<open>json.Unmarshal\<close> are parameters.
\<close>

section \<open>Errors that are expected\<close>

definition normalErrMsgs :: "string list" where
  "normalErrMsgs =
     [''read: connection reset by peer'', ''write: broken pipe'', ''i/o timeout'',
      ''net/http: TLS handshake timeout'', ''io: read/write on closed pipe'',
      ''connect: connection refused'', ''connect: connection reset by peer'',
      ''use of closed network connection'']"

text \<open>The result \<open>loged\<close>: was the error logged at error level.\<close>

definition logErr :: "gerr \<Rightarrow> bool" where
  "logErr err = (\<not> list_ex (\<lambda>str. contains (err_text err) str) normalErrMsgs)"

section \<open>Buffering a body\<close>

definition readerToBuffer :: "reader \<Rightarrow> int \<Rightarrow> gerr + bytes option \<times> reader option" where
  "readerToBuffer r limit =
     (case read_all (limit_reader r limit) of
        Inl err \<Rightarrow> Inl err
      | Inr buf \<Rightarrow>
          if int (length buf) = limit
          then Inr (None, Some (multi_reader (bytes_reader buf) (after_limit r limit)))
          else Inr (Some buf, None))"

text \<open>What the caller can still read from the two results.\<close>

definition buffered_or_streamed :: "reader \<Rightarrow> bytes option \<times> reader option \<Rightarrow> bool" where
  "buffered_or_streamed r x =
     (case x of
        (Some b, None) \<Rightarrow> b = rdata r \<and> rend r = None
      | (None, Some r2) \<Rightarrow> r2 = r
      | _ \<Rightarrow> False)"

lemma readerToBuffer_small:
  "int (length (rdata r)) < limit \<Longrightarrow> rend r = None \<Longrightarrow>
     readerToBuffer r limit = Inr (Some (rdata r), None)"
  by (simp add: readerToBuffer_def limit_reader_def read_all_def)

lemma readerToBuffer_error:
  "int (length (rdata r)) < limit \<Longrightarrow> rend r = Some e \<Longrightarrow> readerToBuffer r limit = Inl e"
  by (simp add: readerToBuffer_def limit_reader_def read_all_def)

lemma readerToBuffer_large:
  assumes "0 \<le> limit" and "limit \<le> int (length (rdata r))"
  shows "readerToBuffer r limit = Inr (None, Some r)"
proof -
  have "read_all (limit_reader r limit) = Inr (take (nat limit) (rdata r))"
    using assms by (simp add: limit_reader_def read_all_def)
  moreover have "int (length (take (nat limit) (rdata r))) = limit" using assms by simp
  ultimately show ?thesis by (simp add: readerToBuffer_def rejoin_after_limit)
qed

text \<open>
  C28: \<open>readerToBuffer\<close> loses no byte for a limit that is not negative: a body below the limit is
  returned whole, or its read error is; a body that reaches the limit is returned as a reader
  in the state before the call, whatever its end. The buffer is always below the limit.
\<close>

theorem readerToBuffer_correct:
  assumes "0 \<le> limit"
  shows "(case readerToBuffer r limit of
      Inl e \<Rightarrow> int (length (rdata r)) < limit \<and> rend r = Some e
    | Inr x \<Rightarrow> buffered_or_streamed r x \<and> (fst x \<noteq> None) = (int (length (rdata r)) < limit))"
proof (cases "int (length (rdata r)) < limit")
  case True
  then show ?thesis
    by (cases "rend r") (simp_all add: readerToBuffer_small readerToBuffer_error buffered_or_streamed_def)
next
  case False
  with assms show ?thesis by (simp add: readerToBuffer_large buffered_or_streamed_def)
qed

theorem readerToBuffer_correct_witness:
  "(0::int) \<le> 2 \<and>
   (case readerToBuffer (bytes_reader ''abc'') 2 of
      Inl e \<Rightarrow> False
    | Inr x \<Rightarrow> buffered_or_streamed (bytes_reader ''abc'') x \<and> fst x = None)"
  using readerToBuffer_correct [of 2 "bytes_reader ''abc''"] by (auto split: sum.splits)

section \<open>Two copying goroutines\<close>

datatype copier = Copying | Copied "gerr option" | Sent | Gone

text \<open>
  What \<open>transfer\<close> meets. Each side either ends its copy by itself, with the error of \<open>io.Copy\<close> (a
  read that ends or fails, or data that cannot be written), or never does (\<open>None\<close>): it stays
  open and silent. \<open>wrapped\<close>: the client is a \<open>*wrapClientConn\<close>. \<open>linked\<close>: closing the client ends
  what is read from the server, as for an intercepted connection, whose pipe is closed with it.
\<close>

record transfer_env =
  client_end :: "gerr option option"
  server_end :: "gerr option option"
  wrapped :: bool
  linked :: bool

text \<open>
  \<open>transfer\<close> between two goroutines and the loop that receives from \<open>errChan\<close>. The channel is
  not buffered, so sending and receiving is one step; after the loop returned, \<open>done\<close> is closed
  and a goroutine that still wants to send leaves.
\<close>

record transfer_state =
  up :: copier              \<comment> \<open>client to server\<close>
  down :: copier            \<comment> \<open>server to client\<close>
  got :: "gerr option list" \<comment> \<open>what the loop received\<close>
  client_closed :: bool
  server_closed :: bool
  client_read_closed :: bool
  finished :: bool

definition transfer_start :: transfer_state where
  "transfer_start =
     \<lparr>up = Copying, down = Copying, got = [], client_closed = False, server_closed = False,
      client_read_closed = False, finished = False\<rparr>"

text \<open>One turn of the loop over \<open>i < 2\<close>: an error returns at once.\<close>

definition receive :: "gerr option \<Rightarrow> transfer_state \<Rightarrow> transfer_state" where
  "receive e s = s\<lparr>got := got s @ [e], finished := (e \<noteq> None \<or> length (got s) = 1)\<rparr>"

definition errClosed :: gerr where
  "errClosed = EMsg ''use of closed network connection''"

text \<open>
  The steps. A copy goes on until its side ends, until what it reads from is shut down by the
  other goroutine (an end without an error), or until it was closed. The callers close
  both sides when \<open>transfer\<close> has returned (\<open>released\<close>).
\<close>

inductive transfer_step :: "transfer_env \<Rightarrow> transfer_state \<Rightarrow> transfer_state \<Rightarrow> bool" for X where
  up_copied: "up s = Copying \<Longrightarrow>
     client_end X = Some e \<or> client_read_closed s \<and> e = None \<or> client_closed s \<and> e = Some errClosed \<Longrightarrow>
     transfer_step X s (s\<lparr>up := Copied e, client_closed := True\<rparr>)"
| down_copied: "down s = Copying \<Longrightarrow>
     server_end X = Some e \<or> linked X \<and> client_closed s \<and> e = None \<or> server_closed s \<and> e = Some errClosed \<Longrightarrow>
     transfer_step X s
       (s\<lparr>down := Copied e, server_closed := True, client_read_closed := client_read_closed s \<or> wrapped X\<rparr>)"
| up_sent: "up s = Copied e \<Longrightarrow> \<not> finished s \<Longrightarrow> transfer_step X s (receive e (s\<lparr>up := Sent\<rparr>))"
| down_sent: "down s = Copied e \<Longrightarrow> \<not> finished s \<Longrightarrow> transfer_step X s (receive e (s\<lparr>down := Sent\<rparr>))"
| up_left: "up s = Copied e \<Longrightarrow> finished s \<Longrightarrow> transfer_step X s (s\<lparr>up := Gone\<rparr>)"
| down_left: "down s = Copied e \<Longrightarrow> finished s \<Longrightarrow> transfer_step X s (s\<lparr>down := Gone\<rparr>)"
| released: "finished s \<Longrightarrow> \<not> (client_closed s \<and> server_closed s) \<Longrightarrow>
     transfer_step X s (s\<lparr>client_closed := True, server_closed := True\<rparr>)"

inductive_cases transfer_stepE: "transfer_step X s s'"

text \<open>What holds in every state that can be reached.\<close>

definition transfer_inv :: "transfer_state \<Rightarrow> bool" where
  "transfer_inv s \<longleftrightarrow>
     (up s \<noteq> Copying \<longrightarrow> client_closed s) \<and> (down s \<noteq> Copying \<longrightarrow> server_closed s) \<and>
     length (got s) = (if up s = Sent then 1 else 0) + (if down s = Sent then 1 else 0) \<and>
     (finished s \<longleftrightarrow> length (got s) = 2 \<or> (\<exists>e \<in> set (got s). e \<noteq> None)) \<and>
     (up s = Gone \<or> down s = Gone \<longrightarrow> finished s)"

lemma transfer_inv_start: "transfer_inv transfer_start"
  by (simp add: transfer_inv_def transfer_start_def)

lemma transfer_inv_step:
  assumes "transfer_step X s s'" and "transfer_inv s"
  shows "transfer_inv s'"
  using assms(1)
proof (cases rule: transfer_step.cases)
  case (up_sent e)
  with assms(2) show ?thesis
    by (cases "down s") (auto simp: transfer_inv_def receive_def length_Suc_conv)
next
  case (down_sent e)
  with assms(2) show ?thesis
    by (cases "up s") (auto simp: transfer_inv_def receive_def length_Suc_conv)
qed (use assms(2) in \<open>auto simp: transfer_inv_def split: if_splits\<close>)

definition todo :: "copier \<Rightarrow> nat" where
  "todo c = (case c of Copying \<Rightarrow> 2 | Copied _ \<Rightarrow> 1 | _ \<Rightarrow> 0)"

definition steps_left :: "transfer_state \<Rightarrow> nat" where
  "steps_left s = todo (up s) + todo (down s) + (if client_closed s \<and> server_closed s then 0 else 1)"

lemma transfer_step_measure: "transfer_step X s s' \<Longrightarrow> steps_left s' < steps_left s"
  by (erule transfer_stepE) (auto simp: steps_left_def todo_def receive_def)

text \<open>A goroutine that waits for a side that never ends.\<close>

definition waits_for_client :: "transfer_env \<Rightarrow> transfer_state \<Rightarrow> bool" where
  "waits_for_client X s \<longleftrightarrow> up s = Copying \<and> client_end X = None \<and> \<not> client_read_closed s"

definition waits_for_server :: "transfer_env \<Rightarrow> transfer_state \<Rightarrow> bool" where
  "waits_for_server X s \<longleftrightarrow>
     down s = Copying \<and> server_end X = None \<and> \<not> (linked X \<and> client_closed s)"

lemma up_moves:
  assumes "\<nexists>s'. transfer_step X s s'"
  shows "up s = Sent \<or> up s = Gone \<or> waits_for_client X s \<and> \<not> client_closed s"
proof (cases "up s")
  case Copying
  with assms up_copied [of s X] have "\<not> client_read_closed s" "\<not> client_closed s" "client_end X \<noteq> Some e" for e
    by blast+
  with Copying show ?thesis by (cases "client_end X") (auto simp: waits_for_client_def)
next
  case (Copied e)
  then show ?thesis using assms up_sent [of s e X] up_left [of s e X] by blast
qed auto

lemma down_moves:
  assumes "\<nexists>s'. transfer_step X s s'"
  shows "down s = Sent \<or> down s = Gone \<or> waits_for_server X s \<and> \<not> server_closed s"
proof (cases "down s")
  case Copying
  with assms down_copied [of s X] have "\<not> (linked X \<and> client_closed s)" "\<not> server_closed s" "server_end X \<noteq> Some e" for e
    by blast+
  with Copying show ?thesis by (cases "server_end X") (auto simp: waits_for_server_def)
next
  case (Copied e)
  then show ?thesis using assms down_sent [of s e X] down_left [of s e X] by blast
qed auto

lemma transfer_blocked:
  assumes "transfer_inv s" and "\<nexists>s'. transfer_step X s s'"
  shows "if finished s then up s \<in> {Sent, Gone} \<and> down s \<in> {Sent, Gone}
    else waits_for_client X s \<and> (waits_for_server X s \<or> got s = [None]) \<or>
      waits_for_server X s \<and> got s = [None]"
proof (cases "finished s")
  case True
  with assms(2) released [of s X] have "client_closed s" "server_closed s" by blast+
  with True up_moves [OF assms(2)] down_moves [OF assms(2)] show ?thesis by auto
next
  case False
  have one: "got s = [None]" if "length (got s) = 1"
    using that False assms(1) by (auto simp: transfer_inv_def length_Suc_conv)
  from False assms(1) have "up s \<noteq> Gone" "down s \<noteq> Gone" "\<not> (up s = Sent \<and> down s = Sent)"
    by (auto simp: transfer_inv_def)
  with False one assms(1) up_moves [OF assms(2)] down_moves [OF assms(2)] show ?thesis
    by (auto simp: transfer_inv_def waits_for_client_def waits_for_server_def split: if_splits)
qed

inductive transfer_run :: "transfer_env \<Rightarrow> nat \<Rightarrow> transfer_state \<Rightarrow> bool" for X where
  run_start: "transfer_run X 0 transfer_start"
| run_step: "transfer_run X n s \<Longrightarrow> transfer_step X s s' \<Longrightarrow> transfer_run X (Suc n) s'"

lemma transfer_run_inv: "transfer_run X n s \<Longrightarrow> transfer_inv s \<and> n + steps_left s \<le> 5"
proof (induction rule: transfer_run.induct)
  case run_start
  show ?case by (simp add: transfer_inv_start) (simp add: transfer_start_def steps_left_def todo_def)
next
  case (run_step n s s')
  then show ?case using transfer_inv_step [of X s s'] transfer_step_measure [of X s s'] by auto
qed

lemma transfer_run_wrapped:
  "transfer_run X n s \<Longrightarrow> wrapped X \<Longrightarrow> down s \<noteq> Copying \<Longrightarrow> client_read_closed s"
proof (induction rule: transfer_run.induct)
  case (run_step n s s')
  from run_step.hyps(2) show ?case
    by (cases rule: transfer_step.cases) (use run_step in \<open>auto simp: receive_def\<close>)
qed (simp add: transfer_start_def)

lemma transfer_error_returns:
  assumes "\<not> finished s" and "up s = Copied (Some e) \<or> down s = Copied (Some e)"
  shows "\<exists>s'. transfer_step X s s' \<and> finished s' \<and> Some e \<in> set (got s')"
  using assms(2)
proof
  assume "up s = Copied (Some e)"
  from up_sent [OF this assms(1), of X] show ?thesis
    by (intro exI [of _ "receive (Some e) (s\<lparr>up := Sent\<rparr>)"]) (simp add: receive_def)
next
  assume "down s = Copied (Some e)"
  from down_sent [OF this assms(1), of X] show ?thesis
    by (intro exI [of _ "receive (Some e) (s\<lparr>down := Sent\<rparr>)"]) (simp add: receive_def)
qed

text \<open>
  C29: in every interleaving of its two goroutines, \<open>transfer\<close> has returned exactly when it
  received an error or both results; when a copy ended with an error its next step can be to
  return, even if the other copy never ends. It can be stuck only where a side stays open and
  silent: both copies wait, or one does and the other ended without an error; and not for the
  client once the server ended and the client is wrapped. When it has returned and its caller
  has closed both sides, no goroutine is left behind: each sent its result or saw that nobody
  receives. There are at most five steps.
\<close>

theorem transfer_returns:
  assumes "transfer_run X n s"
  shows "n \<le> 5 \<and> (finished s \<longleftrightarrow> length (got s) = 2 \<or> (\<exists>e \<in> set (got s). e \<noteq> None)) \<and>
    (\<forall>e. \<not> finished s \<and> (up s = Copied (Some e) \<or> down s = Copied (Some e)) \<longrightarrow>
       (\<exists>s'. transfer_step X s s' \<and> finished s' \<and> Some e \<in> set (got s'))) \<and>
    (waits_for_client X s \<and> wrapped X \<longrightarrow> down s = Copying) \<and>
    ((\<exists>s'. transfer_step X s s') \<or>
     (if finished s then up s \<in> {Sent, Gone} \<and> down s \<in> {Sent, Gone}
      else waits_for_client X s \<and> (waits_for_server X s \<or> got s = [None]) \<or>
        waits_for_server X s \<and> got s = [None]))"
proof -
  from transfer_run_inv [OF assms] have i: "transfer_inv s" and n: "n \<le> 5" by auto
  have "finished s \<longleftrightarrow> length (got s) = 2 \<or> (\<exists>e \<in> set (got s). e \<noteq> None)"
    using i by (simp only: transfer_inv_def)
  moreover have "waits_for_client X s \<and> wrapped X \<longrightarrow> down s = Copying"
    using transfer_run_wrapped [OF assms] by (auto simp: waits_for_client_def)
  ultimately show ?thesis using n transfer_error_returns [of s] transfer_blocked [OF i, of X] by blast
qed

text \<open>A client that resets its connection while the server stays silent.\<close>

definition reset_env :: transfer_env where
  "reset_env =
     \<lparr>client_end = Some (Some (EMsg ''reset'')), server_end = None, wrapped = True, linked = False\<rparr>"

theorem transfer_returns_witness:
  "\<exists>s s'. transfer_run reset_env 1 s \<and> down s = Copying \<and> waits_for_server reset_env s \<and>
     transfer_step reset_env s s' \<and> finished s'"
proof -
  let ?s1 = "transfer_start\<lparr>up := Copied (Some (EMsg ''reset'')), client_closed := True\<rparr>"
  have 1: "transfer_step reset_env transfer_start ?s1"
    by (rule up_copied) (simp_all add: transfer_start_def reset_env_def)
  have r: "transfer_run reset_env 1 ?s1" using run_step [OF run_start 1] by simp
  have "\<not> finished ?s1" "up ?s1 = Copied (Some (EMsg ''reset''))" "down ?s1 = Copying"
    "waits_for_server reset_env ?s1"
    by (simp_all add: transfer_start_def waits_for_server_def reset_env_def)
  with transfer_returns [OF r] r show ?thesis by blast
qed

section \<open>The TLS key log\<close>

record keylog =
  once_done :: bool
  tlsKeyLogWriter :: "string option"

text \<open>\<open>os.OpenFile(name, O_WRONLY|O_CREATE|O_APPEND, 0666)\<close>\<close>

definition open_append :: "env \<Rightarrow> string \<Rightarrow> world \<Rightarrow> gerr option \<times> world" where
  "open_append E p w =
     (case sys E w of
        (Some (e, _), w1) \<Rightarrow> (Some e, w1)
      | (None, w1) \<Rightarrow>
          (case nodes w1 p of
             Some DirNode \<Rightarrow> (Some (EMsg ''is a directory''), w1)
           | Some (FileNode c) \<Rightarrow> (None, w1\<lparr>handles := p # handles w1\<rparr>)
           | None \<Rightarrow> (None, w1\<lparr>nodes := (nodes w1)(p \<mapsto> FileNode (Bytes [])), handles := p # handles w1\<rparr>)))"

definition getTlsKeyLogWriter ::
  "env \<Rightarrow> string \<Rightarrow> keylog \<Rightarrow> world \<Rightarrow> string option \<times> keylog \<times> world" where
  "getTlsKeyLogWriter E sslkeylogfile k w =
     (if once_done k then (tlsKeyLogWriter k, k, w)
      else (let k1 = k\<lparr>once_done := True\<rparr>
            in if sslkeylogfile = [] then (tlsKeyLogWriter k1, k1, w)
               else (case open_append E sslkeylogfile w of
                       (Some err, w1) \<Rightarrow> (tlsKeyLogWriter k1, k1, w1)
                     | (None, w1) \<Rightarrow>
                         (Some sslkeylogfile, k1\<lparr>tlsKeyLogWriter := Some sslkeylogfile\<rparr>, w1))))"

lemma getTlsKeyLogWriter_once:
  "getTlsKeyLogWriter E f k w = (r, k1, w1) \<Longrightarrow> getTlsKeyLogWriter E2 f2 k1 w2 = (r, k1, w2)"
  by (auto simp: getTlsKeyLogWriter_def Let_def split: if_splits prod.splits option.splits)

section \<open>The upstream proxy\<close>

text \<open>
  The proxy for a request: the parse error of a configured upstream is dropped, and
  \<open>http.ProxyURL\<close> of a nil URL means no proxy.
\<close>

record proxy_env =
  parse_url :: "string \<Rightarrow> gerr + URL"
  proxy_from_env :: "URL \<Rightarrow> gerr + URL option"

definition clientProxy :: "proxy_env \<Rightarrow> string \<Rightarrow> URL \<Rightarrow> gerr + URL option" where
  "clientProxy P upstream u =
     (if upstream \<noteq> []
      then Inr (case parse_url P upstream of Inl err \<Rightarrow> None | Inr upstreamUrl \<Rightarrow> Some upstreamUrl)
      else proxy_from_env P u)"

definition NewStructFromFile ::
  "(bytes \<Rightarrow> gerr + 'a) \<Rightarrow> (content \<Rightarrow> bytes) \<Rightarrow> env \<Rightarrow> string \<Rightarrow> world \<Rightarrow> (gerr + 'a) \<times> world" where
  "NewStructFromFile unmarshal raw E filename w =
     (case os_read_file E filename w of
        (Inl err, w1) \<Rightarrow> (Inl err, w1)
      | (Inr c, w1) \<Rightarrow> (unmarshal (raw c), w1))"

end
