(* ===== verification/Connection.thy ===== *)
theory Connection
  imports Helper
begin

text \<open>
  \<open>lib/go-mitmproxy/proxy/connection.go\<close>: the connection context that a client connection and
  the connections to servers share, the wrappers whose \<open>Close\<close> runs the disconnect hooks once,
  the set-up of a server connection for plain and for intercepted traffic, the TLS handshake
  with the server, and the dialling of an upstream proxy. The wrapped server connections of a
  context are kept in a list, so that a pointer to one of them is its position. The network is
  a parameter; the hooks that were run are recorded with the index of their addon.
\<close>

section \<open>State\<close>

datatype conn_hook =
    ClientConnected
  | ClientDisconnected
  | ServerConnected nat
  | ServerDisconnected nat
  | TlsEstablishedServer

record wrapServerConn =
  ws_addr :: string
  ws_closed :: bool
  ws_closeErr :: "gerr option"

text \<open>The state of the channel \<open>tlsHandshaked\<close> and of the fields it guards.\<close>

datatype handshake = Pending | HandshakeFailed gerr | Handshaked

datatype http_client = PlainClient | TlsClient

record ServerConn =
  Address :: string
  sc_conn :: "nat option"
  sc_client :: "http_client option"
  sc_tls :: handshake

record pipeConn =
  pipe_host :: string
  pipe_remoteAddr :: string
  pipe_closed :: bool

record ConnContext =
  Tls :: bool
  server_conn :: "ServerConn option"
  Intercept :: bool
  FlowCount :: "32 word"
  pipe_conn :: "pipeConn option"
  closeAfterResponse :: bool
  conns :: "wrapServerConn list"
  client_ctx_set :: bool
  client_closed_flag :: bool
  client_closeErr :: "gerr option"
  client_read_shut :: bool
  hooks_run :: "(conn_hook \<times> nat) list"

text \<open>What the network does: the result of closing the client (\<open>None\<close>) or a server socket.\<close>

record net_env =
  close_result :: "nat option \<Rightarrow> gerr option"
  dial :: "nat \<Rightarrow> string \<Rightarrow> gerr option"

text \<open>\<open>wrapListener.Accept\<close>: a new client connection, before it has a context.\<close>

definition Accept :: "gerr option \<Rightarrow> gerr + ConnContext" where
  "Accept accepted =
     (case accepted of
        Some err \<Rightarrow> Inl err
      | None \<Rightarrow> Inr
          \<lparr>Tls = False, server_conn = None, Intercept = False, FlowCount = 0, pipe_conn = None,
           closeAfterResponse = False, conns = [], client_ctx_set = False,
           client_closed_flag = False, client_closeErr = None, client_read_shut = False,
           hooks_run = []\<rparr>)"

text \<open>Run a connection hook of each of the \<open>n\<close> addons.\<close>

definition run_conn_hook :: "nat \<Rightarrow> conn_hook \<Rightarrow> ConnContext \<Rightarrow> ConnContext" where
  "run_conn_hook n h c = c\<lparr>hooks_run := hooks_run c @ map (\<lambda>i. (h, i)) [0..<n]\<rparr>"

text \<open>\<open>Server.ConnContext\<close> in \<open>proxy.go\<close>: \<open>newConnContext\<close>, the hooks, then the back pointer.\<close>

definition newConnContext :: "nat \<Rightarrow> ConnContext \<Rightarrow> ConnContext" where
  "newConnContext n c = (run_conn_hook n ClientConnected c)\<lparr>client_ctx_set := True\<rparr>"

definition newServerConn :: ServerConn where
  "newServerConn = \<lparr>Address = [], sc_conn = None, sc_client = None, sc_tls = Pending\<rparr>"

section \<open>Closing\<close>

definition mark_server_closed :: "net_env \<Rightarrow> nat \<Rightarrow> ConnContext \<Rightarrow> ConnContext" where
  "mark_server_closed N k c =
     c\<lparr>conns := (conns c)[k := (conns c ! k)\<lparr>ws_closed := True, ws_closeErr := close_result N (Some k)\<rparr>]\<rparr>"

definition pipe_close :: "pipeConn \<Rightarrow> pipeConn" where
  "pipe_close p = p\<lparr>pipe_closed := True\<rparr>"

text \<open>\<open>wrapServerConn.Close\<close> of the connection at position \<open>k\<close>.\<close>

definition server_close ::
  "net_env \<Rightarrow> nat \<Rightarrow> nat \<Rightarrow> ConnContext \<Rightarrow> gerr option outcome \<times> ConnContext" where
  "server_close N n k c =
     (if \<not> k < length (conns c) then (Panicked NilDeref, c)
      else if ws_closed (conns c ! k) then (Ret (ws_closeErr (conns c ! k)), c)
      else (let c1 = run_conn_hook n (ServerDisconnected k) (mark_server_closed N k c);
                err = close_result N (Some k)
            in if \<not> Tls c1 then (Ret err, c1\<lparr>client_read_shut := True\<rparr>)
               else if closeAfterResponse c1 then (Ret err, c1)
               else (case pipe_conn c1 of
                       None \<Rightarrow> (Panicked NilDeref, c1)
                     | Some p \<Rightarrow> (Ret err, c1\<lparr>pipe_conn := Some (pipe_close p)\<rparr>))))"

definition mark_client_closed :: "net_env \<Rightarrow> ConnContext \<Rightarrow> ConnContext" where
  "mark_client_closed N c = c\<lparr>client_closed_flag := True, client_closeErr := close_result N None\<rparr>"

text \<open>\<open>wrapClientConn.Close\<close>\<close>

definition client_close ::
  "net_env \<Rightarrow> nat \<Rightarrow> ConnContext \<Rightarrow> gerr option outcome \<times> ConnContext" where
  "client_close N n c =
     (if client_closed_flag c then (Ret (client_closeErr c), c)
      else if \<not> client_ctx_set c then (Panicked NilDeref, c)
      else (let c1 = run_conn_hook n ClientDisconnected (mark_client_closed N c)
            in case Option.bind (server_conn c1) sc_conn of
                 None \<Rightarrow> (Ret (client_closeErr c1), c1)
               | Some k \<Rightarrow>
                   (case server_close N n k c1 of
                      (Panicked p, c2) \<Rightarrow> (Panicked p, c2)
                    | (Ret _, c2) \<Rightarrow> (Ret (client_closeErr c2), c2))))"

section \<open>Server connections\<close>

definition initHttpServerConn :: "ConnContext \<Rightarrow> ConnContext" where
  "initHttpServerConn c =
     (if server_conn c \<noteq> None then c
      else if Tls c then c
      else c\<lparr>server_conn := Some (newServerConn\<lparr>sc_client := Some PlainClient\<rparr>)\<rparr>)"

text \<open>A new connection, set as the current one of the server connection.\<close>

definition attach_conn :: "nat \<Rightarrow> string \<Rightarrow> ServerConn \<Rightarrow> ConnContext \<Rightarrow> ConnContext" where
  "attach_conn n addr sc c =
     run_conn_hook n (ServerConnected (length (conns c)))
       (c\<lparr>conns := conns c @ [\<lparr>ws_addr = addr, ws_closed = False, ws_closeErr = None\<rparr>],
          server_conn := Some (sc\<lparr>sc_conn := Some (length (conns c))\<rparr>)\<rparr>)"

text \<open>The \<open>DialContext\<close> of the transport that \<open>initHttpServerConn\<close> installs.\<close>

definition plain_dial ::
  "nat \<Rightarrow> gerr option \<Rightarrow> string \<Rightarrow> ConnContext \<Rightarrow> gerr option outcome \<times> ConnContext" where
  "plain_dial n dialled addr c =
     (case dialled of
        Some err \<Rightarrow> (Ret (Some err), c)
      | None \<Rightarrow>
          (case server_conn c of
             None \<Rightarrow> (Panicked NilDeref, c)
           | Some sc \<Rightarrow> (Ret None, attach_conn n addr (sc\<lparr>Address := addr\<rparr>) c)))"

definition initServerTcpConn ::
  "nat \<Rightarrow> gerr option \<Rightarrow> ConnContext \<Rightarrow> gerr option outcome \<times> ConnContext" where
  "initServerTcpConn n dialled c =
     (let c1 = c\<lparr>server_conn := Some newServerConn\<rparr>
      in case pipe_conn c1 of
           None \<Rightarrow> (Panicked NilDeref, c1)
         | Some p \<Rightarrow>
             (let sc = newServerConn\<lparr>Address := pipe_host p\<rparr>
              in case dialled of
                   Some err \<Rightarrow> (Ret (Some err), c1\<lparr>server_conn := Some sc\<rparr>)
                 | None \<Rightarrow> (Ret None, attach_conn n (pipe_host p) sc c1)))"

definition initHttpsServerConn :: "ConnContext \<Rightarrow> unit outcome \<times> ConnContext" where
  "initHttpsServerConn c =
     (if \<not> Tls c then (Ret (), c)
      else (case server_conn c of
              None \<Rightarrow> (Panicked NilDeref, c)
            | Some sc \<Rightarrow> (Ret (), c\<lparr>server_conn := Some (sc\<lparr>sc_client := Some TlsClient\<rparr>)\<rparr>)))"

section \<open>The handshake with the server\<close>

record client_hello =
  ch_server_name :: string
  ch_versions :: "16 word list"
  ch_ciphers :: "16 word list"

record tls_config =
  InsecureSkipVerify :: bool
  ServerName :: string
  NextProtos :: "string list"
  CipherSuites :: "16 word list"
  MinVersion :: "16 word"
  MaxVersion :: "16 word"

text \<open>The loop over the versions the client offers.\<close>

fun version_loop :: "16 word list \<Rightarrow> 16 word \<Rightarrow> 16 word \<Rightarrow> 16 word \<times> 16 word" where
  "version_loop [] lo hi = (lo, hi)"
| "version_loop (v # vs) lo hi =
     version_loop vs (if v < lo then v else lo) (if v > hi then v else hi)"

definition handshake_config :: "bool \<Rightarrow> client_hello \<Rightarrow> tls_config" where
  "handshake_config insecure h =
     (let cfg = \<lparr>InsecureSkipVerify = insecure, ServerName = ch_server_name h,
                 NextProtos = [''http/1.1''], CipherSuites = ch_ciphers h,
                 MinVersion = 0, MaxVersion = 0\<rparr>
      in case ch_versions h of
           [] \<Rightarrow> cfg
         | v # vs \<Rightarrow> (case version_loop (v # vs) v v of
                        (lo, hi) \<Rightarrow> cfg\<lparr>MinVersion := lo, MaxVersion := hi\<rparr>))"

text \<open>
  \<open>tlsHandshake\<close>, with the result of \<open>HandshakeContext\<close> for a configuration as a parameter. It
  closes the channel in both cases; closing it again would be a panic.
\<close>

definition tlsHandshake ::
  "(tls_config \<Rightarrow> gerr option) \<Rightarrow> bool \<Rightarrow> client_hello \<Rightarrow> ConnContext
     \<Rightarrow> gerr option outcome \<times> ConnContext" where
  "tlsHandshake shake insecure h c =
     (case server_conn c of
        None \<Rightarrow> (Panicked NilDeref, c)
      | Some sc \<Rightarrow>
          (let r = shake (handshake_config insecure h);
               c1 = c\<lparr>server_conn := Some (sc\<lparr>sc_tls :=
                      (case r of Some err \<Rightarrow> HandshakeFailed err | None \<Rightarrow> Handshaked)\<rparr>)\<rparr>
           in if sc_tls sc = Pending then (Ret r, c1) else (Panicked ClosedChannel, c1)))"

text \<open>\<open>DialTLSContext\<close> of the intercepting client: it waits for the handshake (\<open>None\<close>).\<close>

definition tls_dial :: "ServerConn \<Rightarrow> gerr option option" where
  "tls_dial sc =
     (case sc_tls sc of Pending \<Rightarrow> None | HandshakeFailed e \<Rightarrow> Some (Some e) | Handshaked \<Rightarrow> Some None)"

section \<open>Dialling through an upstream proxy\<close>

definition b64_char :: "nat \<Rightarrow> char" where
  "b64_char n =
     (if n < 26 then char_of (65 + n) else if n < 52 then char_of (71 + n)
      else if n < 62 then char_of (n - 4) else if n = 62 then CHR ''+'' else CHR ''/'')"

text \<open>\<open>base64.StdEncoding.EncodeToString\<close>\<close>

fun base64 :: "bytes \<Rightarrow> string" where
  "base64 [] = []"
| "base64 [a] =
     (let x = of_char a :: nat
      in [b64_char (x div 4), b64_char (x mod 4 * 16), CHR ''='', CHR ''=''])"
| "base64 [a, b] =
     (let x = of_char a :: nat; y = of_char b :: nat
      in [b64_char (x div 4), b64_char (x mod 4 * 16 + y div 16), b64_char (y mod 16 * 4), CHR ''=''])"
| "base64 (a # b # c # rest) =
     (let x = of_char a :: nat; y = of_char b :: nat; z = of_char c :: nat
      in [b64_char (x div 4), b64_char (x mod 4 * 16 + y div 16),
          b64_char (y mod 16 * 4 + z div 64), b64_char (z mod 64)]) @ base64 rest"

text \<open>
  What happens to the CONNECT request: it times out, writing it or reading the answer fails,
  or an answer with a status code and a status line arrives.
\<close>

datatype connect_reply = TimedOut gerr | ConnectErr gerr | ConnectReply int string

datatype sock_event = Dialled string | SentConnect string header | SockClosed

definition connect_header :: "string option \<Rightarrow> header" where
  "connect_header user =
     (case user of
        None \<Rightarrow> []
      | Some u \<Rightarrow> hset [] ''Proxy-Authorization'' (''Basic'' @ base64 u))"

text \<open>\<open>strings.Cut(s, " ")\<close>\<close>

definition getProxyConn ::
  "(string \<Rightarrow> gerr option) \<Rightarrow> (string \<Rightarrow> header \<Rightarrow> connect_reply) \<Rightarrow> string \<Rightarrow> string option \<Rightarrow> string
     \<Rightarrow> gerr option \<times> sock_event list" where
  "getProxyConn dials reply proxyHost user address =
     (case dials proxyHost of
        Some err \<Rightarrow> (Some err, [])
      | None \<Rightarrow>
          (let h = connect_header user;
               sent = [Dialled proxyHost, SentConnect address h]
           in case reply address h of
                TimedOut err \<Rightarrow> (Some err, sent @ [SockClosed])
              | ConnectErr err \<Rightarrow> (Some err, sent @ [SockClosed])
              | ConnectReply code status \<Rightarrow>
                  if code \<noteq> 200
                  then (case cut_after CHR '' '' status of
                          None \<Rightarrow> (Some (EMsg ''unknown status code''), sent @ [SockClosed])
                        | Some text \<Rightarrow> (Some (EMsg text), sent @ [SockClosed]))
                  else (None, sent)))"

definition getConnFrom ::
  "proxy_env \<Rightarrow> (URL \<Rightarrow> string option) \<Rightarrow> (string \<Rightarrow> gerr option) \<Rightarrow> (string \<Rightarrow> header \<Rightarrow> connect_reply)
     \<Rightarrow> string \<Rightarrow> string \<Rightarrow> gerr option \<times> sock_event list" where
  "getConnFrom P user dials reply address upstream =
     (case clientProxy P upstream \<lparr>u_scheme = ''https'', u_host = address, u_rest = []\<rparr> of
        Inl err \<Rightarrow> (Some err, [])
      | Inr (Some proxyUrl) \<Rightarrow> getProxyConn dials reply (u_host proxyUrl) (user proxyUrl) address
      | Inr None \<Rightarrow>
          (case dials address of Some err \<Rightarrow> (Some err, []) | None \<Rightarrow> (None, [Dialled address])))"

end
