(* ===== verification/Addons.thy ===== *)
theory Addons
  imports Connection
begin

text \<open>
  \<open>lib/go-mitmproxy/proxy/addon.go\<close>: the \<open>Addon\<close> interface as a record of hooks over a state that
  belongs to the addons, \<open>BaseAddon\<close>, \<open>LogAddon\<close>, and the addon of \<open>ipaversionlib\<close> as an instance
  of the interface. The locale \<open>quiet_addon\<close> is the contract of an addon that only observes; the
  three addons of the repository are interpretations of it. The connection hooks only get
  pointers to connections and are recorded in \<open>Connection\<close>.
\<close>

text \<open>A hook may panic; it may change the flow, and the state of its addon.\<close>

type_synonym 's hook = "Flow \<Rightarrow> 's \<Rightarrow> unit outcome \<times> Flow \<times> 's"

type_synonym 's modifier = "Flow \<Rightarrow> reader option \<Rightarrow> 's \<Rightarrow> reader option outcome \<times> Flow \<times> 's"

record 's addon_ops =
  on_Requestheaders :: "'s hook"
  on_Request :: "'s hook"
  on_Responseheaders :: "'s hook"
  on_Response :: "'s hook"
  StreamRequestModifier :: "'s modifier"
  StreamResponseModifier :: "'s modifier"

definition no_hook :: "'s hook" where
  "no_hook f s = (Ret (), f, s)"

definition no_modifier :: "'s modifier" where
  "no_modifier f r s = (Ret r, f, s)"

definition BaseAddon :: "'s addon_ops" where
  "BaseAddon =
     \<lparr>on_Requestheaders = no_hook, on_Request = no_hook, on_Responseheaders = no_hook,
      on_Response = no_hook, StreamRequestModifier = no_modifier,
      StreamResponseModifier = no_modifier\<rparr>"

text \<open>
  \<open>LogAddon\<close>: its \<open>Requestheaders\<close> starts a goroutine that waits for the flow to be done and
  logs it then. The state is the list of flows that are being waited for.
\<close>

definition LogAddon :: "Flow list addon_ops" where
  "LogAddon = BaseAddon\<lparr>on_Requestheaders := (\<lambda>f s. (Ret (), f, s @ [f]))\<rparr>"

text \<open>What \<open>LogAddon\<close> prints of a flow that is done: method, URL, status and length.\<close>

definition log_line :: "Flow \<Rightarrow> string \<times> string \<times> int \<times> int" where
  "log_line f =
     (r_method (f_request f), url_string (r_url (f_request f)),
      case f_response f of None \<Rightarrow> 0 | Some r \<Rightarrow> StatusCode r,
      case f_response f of
        None \<Rightarrow> 0
      | Some r \<Rightarrow> (case s_body r of None \<Rightarrow> 0 | Some b \<Rightarrow> int (length b)))"

text \<open>The addon of the program: a \<open>BaseAddon\<close> with its own \<open>Request\<close> and an empty \<open>Response\<close>.\<close>

definition ipaversion_addon :: "plist_lib \<Rightarrow> env \<Rightarrow> (Addon \<times> world) addon_ops" where
  "ipaversion_addon L E =
     BaseAddon\<lparr>on_Request := (\<lambda>f (c, w). (Ret (), f, Addon_Request L E (f_request f) c w)),
               on_Response := no_hook\<rparr>"

section \<open>Addons that only observe\<close>

locale quiet_addon =
  fixes ad :: "'s addon_ops"
  assumes requestheaders_quiet: "\<exists>s'. on_Requestheaders ad f s = (Ret (), f, s')"
    and request_quiet: "\<exists>s'. on_Request ad f s = (Ret (), f, s')"
    and responseheaders_quiet: "\<exists>s'. on_Responseheaders ad f s = (Ret (), f, s')"
    and response_quiet: "\<exists>s'. on_Response ad f s = (Ret (), f, s')"
    and request_modifier_quiet: "\<exists>s'. StreamRequestModifier ad f r s = (Ret r, f, s')"
    and response_modifier_quiet: "\<exists>s'. StreamResponseModifier ad f r s = (Ret r, f, s')"

interpretation base_addon: quiet_addon BaseAddon
  by unfold_locales (simp_all add: BaseAddon_def no_hook_def no_modifier_def)

interpretation log_addon: quiet_addon LogAddon
  by unfold_locales (simp_all add: LogAddon_def BaseAddon_def no_hook_def no_modifier_def)

interpretation ipaversion: quiet_addon "ipaversion_addon L E" for L E
  by unfold_locales
    (auto simp: ipaversion_addon_def BaseAddon_def no_hook_def no_modifier_def split: prod.splits)

end
