(* ===== verification/Proxy.thy ===== *)
theory Proxy
  imports Addons
begin

text \<open>
  \<open>lib/go-mitmproxy/proxy/proxy.go\<close>: the options, the \<open>http.ResponseWriter\<close> the handlers write to,
  \<open>ServeHTTP\<close> in its stages (request headers, request body, forwarding, response headers and
  body, reply) and \<open>handleConnect\<close>. A stage goes on with a value, leaves the handler early, or
  raises a panic; the deferred calls of the handler run in every case. The network is a
  parameter. Hooks are recorded with the index of the addon they belong to.
\<close>

section \<open>Options\<close>

record Options =
  Addr :: string
  StreamLargeBodies :: int64
  SslInsecure :: bool
  CaRootPath :: string
  Upstream :: string

definition default_stream_limit :: int64 where
  "default_stream_limit = 1024 * 1024 * 5"

text \<open>The options as \<open>NewProxy\<close> leaves them; the field is a signed 64-bit integer.\<close>

definition NewProxy_options :: "Options \<Rightarrow> Options" where
  "NewProxy_options opts =
     (if sint (StreamLargeBodies opts) \<le> 0
      then opts\<lparr>StreamLargeBodies := default_stream_limit\<rparr> else opts)"

definition AddAddon :: "'a list \<Rightarrow> 'a \<Rightarrow> 'a list" where
  "AddAddon addons addon = addons @ [addon]"

definition stream_limit :: "Options \<Rightarrow> int" where
  "stream_limit opts = sint (StreamLargeBodies opts)"

section \<open>The response writer\<close>

text \<open>
  \<open>http.ResponseWriter\<close>: the header map, what the client received (status, headers, body), the
  informational statuses, and how often a second status was refused.
\<close>

record rw =
  rw_header :: header
  rw_status :: "int option"
  rw_sent :: header
  rw_info :: "int list"
  rw_body :: bytes
  rw_superfluous :: nat

definition new_rw :: rw where
  "new_rw = \<lparr>rw_header = [], rw_status = None, rw_sent = [], rw_info = [], rw_body = [],
             rw_superfluous = 0\<rparr>"

definition WriteHeader :: "int \<Rightarrow> rw \<Rightarrow> unit outcome \<times> rw" where
  "WriteHeader code r =
     (if rw_status r \<noteq> None then (Ret (), r\<lparr>rw_superfluous := Suc (rw_superfluous r)\<rparr>)
      else if code < 100 \<or> code > 999 then (Panicked (HookPanic ''invalid WriteHeader code''), r)
      else if code \<le> 199 \<and> code \<noteq> 101 then (Ret (), r\<lparr>rw_info := rw_info r @ [code]\<rparr>)
      else (Ret (), r\<lparr>rw_status := Some code, rw_sent := rw_header r\<rparr>))"

definition body_allowed :: "int \<Rightarrow> bool" where
  "body_allowed code \<longleftrightarrow> \<not> (100 \<le> code \<and> code \<le> 199) \<and> code \<noteq> 204 \<and> code \<noteq> 304"

text \<open>\<open>Write\<close> sends status 200 first when none was sent; an error is logged by the callers.\<close>

definition rw_write :: "bytes \<Rightarrow> rw \<Rightarrow> rw" where
  "rw_write b r =
     (let r1 = (if rw_status r = None then snd (WriteHeader 200 r) else r)
      in case rw_status r1 of
           Some code \<Rightarrow> if body_allowed code then r1\<lparr>rw_body := rw_body r1 @ b\<rparr> else r1
         | None \<Rightarrow> r1)"

text \<open>\<open>io.Copy\<close> to the client: a read error ends it and is logged.\<close>

definition rw_copy :: "reader \<Rightarrow> rw \<Rightarrow> rw" where
  "rw_copy b r = (if rdata b = [] then r else rw_write (rdata b) r)"

text \<open>The server ends a response that no handler wrote with status 200.\<close>

definition rw_finish :: "rw \<Rightarrow> rw" where
  "rw_finish r = (if rw_status r = None then snd (WriteHeader 200 r) else r)"

text \<open>The closure \<open>reply\<close> of \<open>ServeHTTP\<close>: the headers, the status, and up to three bodies.\<close>

definition reply_header :: "Response \<Rightarrow> rw \<Rightarrow> rw" where
  "reply_header response r =
     (let h = (case s_header response of
                 None \<Rightarrow> rw_header r | Some h \<Rightarrow> add_headers (rw_header r) h)
      in r\<lparr>rw_header := (if s_close response then hadd h ''Connection'' ''close'' else h)\<rparr>)"

definition reply_body :: "Response \<Rightarrow> reader option \<Rightarrow> rw \<Rightarrow> rw" where
  "reply_body response body r3 =
     (let r4 = (case body of None \<Rightarrow> r3 | Some b \<Rightarrow> rw_copy b r3);
          r5 = (case BodyReader response of None \<Rightarrow> r4 | Some b \<Rightarrow> rw_copy b r4)
      in case s_body response of
           None \<Rightarrow> r5
         | Some b \<Rightarrow> if length b > 0 then rw_write b r5 else r5)"

definition reply :: "Response \<Rightarrow> reader option \<Rightarrow> rw \<Rightarrow> unit outcome \<times> rw" where
  "reply response body r =
     (case WriteHeader (StatusCode response) (reply_header response r) of
        (Panicked p, r3) \<Rightarrow> (Panicked p, r3)
      | (Ret _, r3) \<Rightarrow> (Ret (), reply_body response body r3))"

section \<open>The state of a handler\<close>

datatype hook_name =
  HRequestheaders | HRequest | HResponseheaders | HResponse | HStreamRequest | HStreamResponse

record 's serve =
  sv_addons :: 's
  sv_conn :: ConnContext
  sv_rw :: rw
  sv_flow :: Flow
  sv_trace :: "(hook_name \<times> nat) list"
  sv_tick :: nat
  sv_sent :: "http_request list"
  sv_open_bodies :: nat

datatype 'a ctl = Go 'a | Leave | Raise gpanic | Blocked

definition seq :: "('s serve \<Rightarrow> 'a ctl \<times> 's serve) \<Rightarrow> ('a \<Rightarrow> 's serve \<Rightarrow> 'b ctl \<times> 's serve)
    \<Rightarrow> 's serve \<Rightarrow> 'b ctl \<times> 's serve" where
  "seq m k s =
     (case m s of
        (Go x, s1) \<Rightarrow> k x s1
      | (Leave, s1) \<Rightarrow> (Leave, s1)
      | (Raise p, s1) \<Rightarrow> (Raise p, s1)
      | (Blocked, s1) \<Rightarrow> (Blocked, s1))"

text \<open>Answer with a status and leave.\<close>

definition leave_with :: "int \<Rightarrow> 's serve \<Rightarrow> 'a ctl \<times> 's serve" where
  "leave_with code s =
     (case WriteHeader code (sv_rw s) of
        (Panicked p, r) \<Rightarrow> (Raise p, s\<lparr>sv_rw := r\<rparr>)
      | (Ret _, r) \<Rightarrow> (Leave, s\<lparr>sv_rw := r\<rparr>))"

text \<open>Answer with a response and leave.\<close>

definition leave_reply :: "Response \<Rightarrow> reader option \<Rightarrow> 's serve \<Rightarrow> 'a ctl \<times> 's serve" where
  "leave_reply response body s =
     (case reply response body (sv_rw s) of
        (Panicked p, r) \<Rightarrow> (Raise p, s\<lparr>sv_rw := r\<rparr>)
      | (Ret _, r) \<Rightarrow> (Leave, s\<lparr>sv_rw := r\<rparr>))"

section \<open>Hooks\<close>

text \<open>\<open>done\<close> is a private field of the flow: a hook cannot change it.\<close>

definition run_hook :: "hook_name \<Rightarrow> nat \<Rightarrow> 's hook \<Rightarrow> 's serve \<Rightarrow> unit outcome \<times> 's serve" where
  "run_hook name i h s =
     (case h (sv_flow s) (sv_addons s) of
        (r, f, a) \<Rightarrow>
          (r, s\<lparr>sv_flow := f\<lparr>f_done := f_done (sv_flow s)\<rparr>, sv_addons := a,
                sv_trace := sv_trace s @ [(name, i)]\<rparr>))"

text \<open>
  The loop over the addons. After each hook \<open>stop\<close> looks at the flow: a response it returns is
  sent and ends the handler.
\<close>

fun run_hooks ::
  "hook_name \<Rightarrow> ('s addon_ops \<Rightarrow> 's hook) \<Rightarrow> (Flow \<Rightarrow> Response option outcome) \<Rightarrow> nat
     \<Rightarrow> 's addon_ops list \<Rightarrow> 's serve \<Rightarrow> unit ctl \<times> 's serve" where
  "run_hooks name sel stop i [] s = (Go (), s)"
| "run_hooks name sel stop i (a # as) s =
     (case run_hook name i (sel a) s of
        (Panicked p, s1) \<Rightarrow> (Raise p, s1)
      | (Ret _, s1) \<Rightarrow>
          (case stop (sv_flow s1) of
             Panicked p \<Rightarrow> (Raise p, s1)
           | Ret (Some response) \<Rightarrow> leave_reply response None s1
           | Ret None \<Rightarrow> run_hooks name sel stop (Suc i) as s1))"

definition never_stop :: "Flow \<Rightarrow> Response option outcome" where
  "never_stop f = Ret None"

definition stop_on_response :: "Flow \<Rightarrow> Response option outcome" where
  "stop_on_response f = Ret (f_response f)"

text \<open>After \<open>Responseheaders\<close>: a body that is not nil; a nil response would be dereferenced.\<close>

definition stop_on_body :: "Flow \<Rightarrow> Response option outcome" where
  "stop_on_body f =
     (case f_response f of
        None \<Rightarrow> Panicked NilDeref
      | Some r \<Rightarrow> Ret (if s_body r \<noteq> None then Some r else None))"

fun run_modifiers ::
  "hook_name \<Rightarrow> ('s addon_ops \<Rightarrow> 's modifier) \<Rightarrow> nat \<Rightarrow> 's addon_ops list \<Rightarrow> reader option
     \<Rightarrow> 's serve \<Rightarrow> reader option ctl \<times> 's serve" where
  "run_modifiers name sel i [] r s = (Go r, s)"
| "run_modifiers name sel i (a # as) r s =
     (case sel a (sv_flow s) r (sv_addons s) of
        (x, f, st) \<Rightarrow>
          (let s1 = s\<lparr>sv_flow := f\<lparr>f_done := f_done (sv_flow s)\<rparr>, sv_addons := st,
                      sv_trace := sv_trace s @ [(name, i)]\<rparr>
           in case x of
                Panicked p \<Rightarrow> (Raise p, s1)
              | Ret r1 \<Rightarrow> run_modifiers name sel (Suc i) as r1 s1))"

section \<open>The stages of ServeHTTP\<close>

text \<open>An incoming request as the server parsed it.\<close>

record incoming =
  in_method :: string
  in_url :: URL
  in_proto :: string
  in_header :: header
  in_host :: string
  in_remote :: string
  in_body :: reader

text \<open>
  What a handler meets: the network and the result of the dial that the transport makes for a
  request (\<open>None\<close> when it has a connection for it), the rule of \<open>SetShouldInterceptRule\<close>, and for
  CONNECT the result of the dial, of \<open>Hijack\<close> and of the first write.
\<close>

record serve_env =
  sv_env :: env
  sv_net :: net_env
  dial_now :: "gerr option option"
  sv_limit :: int
  intercept_rule :: "(string \<Rightarrow> bool) option"
  connect_dial :: "gerr option"
  hijack_err :: "gerr option"
  established_err :: "gerr option"

definition request_stage ::
  "serve_env \<Rightarrow> 's addon_ops list \<Rightarrow> reader \<Rightarrow> 's serve \<Rightarrow> reader option ctl \<times> 's serve" where
  "request_stage V addons body s =
     (if f_stream (sv_flow s) then (Go (Some body), s)
      else (case readerToBuffer body (sv_limit V) of
              Inl err \<Rightarrow> leave_with 502 s
            | Inr (None, r) \<Rightarrow> (Go r, s\<lparr>sv_flow := (sv_flow s)\<lparr>f_stream := True\<rparr>\<rparr>)
            | Inr (Some reqBuf, _) \<Rightarrow>
                seq (run_hooks HRequest on_Request stop_on_response 0 addons)
                  (\<lambda>_ s2. (Go (Some (bytes_reader (r_body (f_request (sv_flow s2))))), s2))
                  (s\<lparr>sv_flow := (sv_flow s)\<lparr>f_request := (f_request (sv_flow s))\<lparr>r_body := reqBuf\<rparr>\<rparr>\<rparr>)))"

text \<open>One exchange with a server; the answer's body has to be closed.\<close>

definition exchange ::
  "serve_env \<Rightarrow> http_request \<Rightarrow> 's serve \<Rightarrow> (gerr + http_response) ctl \<times> 's serve" where
  "exchange V q s =
     (let s1 = s\<lparr>sv_tick := Suc (sv_tick s), sv_sent := sv_sent s @ [q]\<rparr>
      in case respond (sv_env V) (sv_tick s) q of
           Inl err \<Rightarrow> (Go (Inl err), s1)
         | Inr res \<Rightarrow> (Go (Inr res), s1))"

text \<open>
  \<open>Do\<close> of the client the handler chose. The plain client of the connection dials first when its
  transport has no connection; the intercepting one waits for the handshake.
\<close>

definition client_Do ::
  "serve_env \<Rightarrow> nat \<Rightarrow> http_request \<Rightarrow> 's serve \<Rightarrow> (gerr + http_response) ctl \<times> 's serve" where
  "client_Do V n q s =
     (if UseSeparateClient (sv_flow s) then exchange V q s
      else (case server_conn (sv_conn s) of
              None \<Rightarrow> (Raise NilDeref, s)
            | Some sc \<Rightarrow>
                (case sc_client sc of
                   None \<Rightarrow> (Raise NilDeref, s)
                 | Some PlainClient \<Rightarrow>
                     (case dial_now V of
                        None \<Rightarrow> exchange V q s
                      | Some d \<Rightarrow>
                          (case plain_dial n d (u_host (r_url (f_request (sv_flow s)))) (sv_conn s) of
                             (Panicked p, c) \<Rightarrow> (Raise p, s\<lparr>sv_conn := c\<rparr>)
                           | (Ret (Some err), c) \<Rightarrow> (Go (Inl err), s\<lparr>sv_conn := c\<rparr>)
                           | (Ret None, c) \<Rightarrow> exchange V q (s\<lparr>sv_conn := c\<rparr>)))
                 | Some TlsClient \<Rightarrow>
                     (case tls_dial sc of
                        None \<Rightarrow> (Blocked, s)
                      | Some (Some err) \<Rightarrow> (Go (Inl err), s)
                      | Some None \<Rightarrow> exchange V q s))))"

definition forward_stage ::
  "serve_env \<Rightarrow> 's addon_ops list \<Rightarrow> reader option \<Rightarrow> 's serve \<Rightarrow> http_response ctl \<times> 's serve" where
  "forward_stage V addons reqBody0 =
     seq (run_modifiers HStreamRequest StreamRequestModifier 0 addons reqBody0)
       (\<lambda>reqBody s.
          case new_request (sv_env V) (r_method (f_request (sv_flow s)))
                 (url_string (r_url (f_request (sv_flow s))))
                 (case reqBody of None \<Rightarrow> bytes_reader [] | Some b \<Rightarrow> b) of
            Inl err \<Rightarrow> leave_with 502 s
          | Inr proxyReq0 \<Rightarrow>
              (let proxyReq = proxyReq0\<lparr>hq_header := add_headers (hq_header proxyReq0)
                     (r_header (f_request (sv_flow s)))\<rparr>;
                   s1 = s\<lparr>sv_conn := initHttpServerConn (sv_conn s)\<rparr>
               in seq (client_Do V (length addons) proxyReq)
                    (\<lambda>r s2. case r of
                       Inl err \<Rightarrow> leave_with 502 s2
                     | Inr proxyRes \<Rightarrow> (Go proxyRes, s2\<lparr>sv_open_bodies := Suc (sv_open_bodies s2)\<rparr>)) s1))"

definition response_stage ::
  "serve_env \<Rightarrow> 's addon_ops list \<Rightarrow> http_response \<Rightarrow> 's serve \<Rightarrow> reader option ctl \<times> 's serve" where
  "response_stage V addons proxyRes s =
     (let s1 = (if hp_close proxyRes
                then s\<lparr>sv_conn := (sv_conn s)\<lparr>closeAfterResponse := True\<rparr>\<rparr> else s);
          s2 = s1\<lparr>sv_flow := (sv_flow s1)\<lparr>f_response :=
                 Some (new_response (hp_status proxyRes) (Some (hp_header proxyRes)) (hp_close proxyRes))\<rparr>\<rparr>
      in seq (run_hooks HResponseheaders on_Responseheaders stop_on_body 0 addons)
           (\<lambda>_ s3.
              if f_stream (sv_flow s3) then (Go (Some (hp_body proxyRes)), s3)
              else (case readerToBuffer (hp_body proxyRes) (sv_limit V) of
                      Inl err \<Rightarrow> leave_with 502 s3
                    | Inr (None, r) \<Rightarrow> (Go r, s3\<lparr>sv_flow := (sv_flow s3)\<lparr>f_stream := True\<rparr>\<rparr>)
                    | Inr (Some resBuf, r) \<Rightarrow>
                        (case f_response (sv_flow s3) of
                           None \<Rightarrow> (Raise NilDeref, s3)
                         | Some response \<Rightarrow>
                             seq (run_hooks HResponse on_Response never_stop 0 addons)
                               (\<lambda>_ s4. (Go r, s4))
                               (s3\<lparr>sv_flow := (sv_flow s3)\<lparr>f_response :=
                                  Some (response\<lparr>s_body := Some resBuf\<rparr>)\<rparr>\<rparr>)))) s2)"

definition reply_stage ::
  "'s addon_ops list \<Rightarrow> reader option \<Rightarrow> 's serve \<Rightarrow> unit ctl \<times> 's serve" where
  "reply_stage addons resBody0 =
     seq (run_modifiers HStreamResponse StreamResponseModifier 0 addons resBody0)
       (\<lambda>resBody s. case f_response (sv_flow s) of
          None \<Rightarrow> (Raise NilDeref, s)
        | Some response \<Rightarrow> leave_reply response resBody s)"

text \<open>The body of the handler after the deferred calls were set up.\<close>

definition serve_body ::
  "serve_env \<Rightarrow> 's addon_ops list \<Rightarrow> incoming \<Rightarrow> 's serve \<Rightarrow> unit ctl \<times> 's serve" where
  "serve_body V addons req s =
     seq (run_hooks HRequestheaders on_Requestheaders stop_on_response 0 addons)
       (\<lambda>_. seq (request_stage V addons (in_body req))
         (\<lambda>reqBody. seq (forward_stage V addons reqBody)
           (\<lambda>proxyRes. seq (response_stage V addons proxyRes)
             (\<lambda>resBody. reply_stage addons resBody))))
       (s\<lparr>sv_conn := (sv_conn s)\<lparr>FlowCount := FlowCount (sv_conn s) + 1\<rparr>\<rparr>)"

text \<open>\<open>proxyRes.Body.Close\<close>, \<open>f.finish\<close> and the recovery, in this order.\<close>

definition serve_deferred :: "unit ctl \<times> 's serve \<Rightarrow> unit ctl \<times> 's serve" where
  "serve_deferred x =
     (case x of (r, s) \<Rightarrow>
        if r = Blocked then (r, s)
        else (Leave, s\<lparr>sv_open_bodies := 0, sv_flow := finish (sv_flow s)\<rparr>))"

definition start_flow :: "incoming \<Rightarrow> 's serve \<Rightarrow> 's serve" where
  "start_flow req s =
     s\<lparr>sv_flow := newFlow (newRequest (in_method req) (in_url req) (in_proto req) (in_header req))\<rparr>"

definition not_a_proxy_request :: string where
  "not_a_proxy_request = ''this is a proxy server, requests to it are not served''"

text \<open>The part of \<open>ServeHTTP\<close> for methods other than CONNECT.\<close>

definition ServeHTTP_plain ::
  "serve_env \<Rightarrow> 's addon_ops list \<Rightarrow> incoming \<Rightarrow> 's serve \<Rightarrow> unit ctl \<times> 's serve" where
  "ServeHTTP_plain V addons req s =
     (if \<not> url_is_abs (in_url req) \<or> u_host (in_url req) = []
      then (case leave_with 400 s of
              (r, s1) \<Rightarrow> (r, s1\<lparr>sv_rw := rw_write not_a_proxy_request (sv_rw s1)\<rparr>))
      else serve_deferred (serve_body V addons req (start_flow req s)))"

section \<open>CONNECT\<close>

text \<open>
  What a CONNECT handler holds: \<open>tunnel_end_open\<close> is its variable \<open>conn\<close>, which is the socket to the
  server when it does not intercept, and the client's end of the in-memory pipe when it does. In
  the second case the socket to the server is the last one of the connection context.
\<close>

record 's connect =
  cn_serve :: "'s serve"
  tunnel_end_open :: bool
  intercepting :: bool
  tunnel_ran :: bool

text \<open>\<open>newPipes\<close>: the pipe is remembered in the connection context.\<close>

definition newPipes :: "incoming \<Rightarrow> ConnContext \<Rightarrow> ConnContext" where
  "newPipes req c =
     c\<lparr>pipe_conn := Some \<lparr>pipe_host = in_host req, pipe_remoteAddr = in_remote req, pipe_closed = False\<rparr>\<rparr>"

definition close_pipe_conn :: "ConnContext \<Rightarrow> ConnContext" where
  "close_pipe_conn c = c\<lparr>pipe_conn := map_option pipe_close (pipe_conn c)\<rparr>"

text \<open>\<open>middle.dial\<close> in \<open>interceptor.go\<close>: pipes and a server connection, or both pipes closed.\<close>

definition middle_dial ::
  "nat \<Rightarrow> gerr option \<Rightarrow> incoming \<Rightarrow> ConnContext \<Rightarrow> gerr option outcome \<times> ConnContext" where
  "middle_dial n dialled req c =
     (case initServerTcpConn n dialled (newPipes req c) of
        (Panicked p, c1) \<Rightarrow> (Panicked p, c1)
      | (Ret (Some err), c1) \<Rightarrow> (Ret (Some err), close_pipe_conn c1)
      | (Ret None, c1) \<Rightarrow> (Ret None, c1))"

definition connect_dialled ::
  "serve_env \<Rightarrow> 's addon_ops list \<Rightarrow> incoming \<Rightarrow> bool \<Rightarrow> 's serve \<Rightarrow> gerr option outcome \<times> 's serve" where
  "connect_dialled V addons req shouldIntercept s =
     (if shouldIntercept
      then (case middle_dial (length addons) (connect_dial V) req (sv_conn s) of
              (r, c) \<Rightarrow> (r, s\<lparr>sv_conn := c\<rparr>))
      else (Ret (connect_dial V), s))"

text \<open>The deferred \<open>cconn.Close()\<close>, which also closes the server connection of the context, and \<open>conn.Close()\<close>.\<close>

definition close_both :: "serve_env \<Rightarrow> nat \<Rightarrow> 's connect \<Rightarrow> 's connect" where
  "close_both V n cn =
     cn\<lparr>tunnel_end_open := False,
        cn_serve := (cn_serve cn)\<lparr>sv_conn := snd (client_close (sv_net V) n (sv_conn (cn_serve cn)))\<rparr>\<rparr>"

text \<open>
  From the \<open>Hijack\<close> on, when it succeeded: the \<open>Response\<close> hooks run when \<open>transfer\<close> has
  returned, and a panic of a hook skips what comes after it.
\<close>

definition established_tunnel ::
  "serve_env \<Rightarrow> 's addon_ops list \<Rightarrow> 's connect \<Rightarrow> unit ctl \<times> 's connect" where
  "established_tunnel V addons cn =
     (case established_err V of
        Some err \<Rightarrow> (Leave, cn)
      | None \<Rightarrow>
          (let s = cn_serve cn;
               s1 = s\<lparr>sv_flow := (sv_flow s)\<lparr>f_response := Some (new_response 200 (Some []) False)\<rparr>\<rparr>
           in case run_hooks HResponseheaders on_Responseheaders never_stop 0 addons s1 of
                (Go _, s2) \<Rightarrow>
                  (case run_hooks HResponse on_Response never_stop 0 addons s2 of
                     (Go _, s3) \<Rightarrow> (Leave, cn\<lparr>cn_serve := s3, tunnel_ran := True\<rparr>)
                   | (r, s3) \<Rightarrow> (r, cn\<lparr>cn_serve := s3, tunnel_ran := True\<rparr>))
              | (r, s2) \<Rightarrow> (r, cn\<lparr>cn_serve := s2\<rparr>)))"

definition connect_tunnel ::
  "serve_env \<Rightarrow> 's addon_ops list \<Rightarrow> bool \<Rightarrow> 's serve \<Rightarrow> unit ctl \<times> 's connect" where
  "connect_tunnel V addons shouldIntercept s =
     (let cn = \<lparr>cn_serve = s, tunnel_end_open = True, intercepting = shouldIntercept, tunnel_ran = False\<rparr>
      in case hijack_err V of
           Some err \<Rightarrow>
             (case leave_with 502 s of (r, s1) \<Rightarrow> (r, cn\<lparr>cn_serve := s1, tunnel_end_open := False\<rparr>))
         | None \<Rightarrow>
             (case established_tunnel V addons cn of
                (r, cn1) \<Rightarrow> (r, close_both V (length addons) cn1)))"

definition finish_connect :: "unit ctl \<times> 's connect \<Rightarrow> unit ctl \<times> 's connect" where
  "finish_connect x =
     (case x of (r, cn) \<Rightarrow>
        (r, cn\<lparr>cn_serve := (cn_serve cn)\<lparr>sv_flow := finish (sv_flow (cn_serve cn))\<rparr>\<rparr>))"

definition handleConnect ::
  "serve_env \<Rightarrow> 's addon_ops list \<Rightarrow> incoming \<Rightarrow> 's serve \<Rightarrow> unit ctl \<times> 's connect" where
  "handleConnect V addons req s0 =
     (let shouldIntercept = (case intercept_rule V of None \<Rightarrow> True | Some rule \<Rightarrow> rule (in_host req));
          s1 = start_flow req s0;
          s2 = s1\<lparr>sv_conn := (sv_conn s1)\<lparr>Intercept := shouldIntercept\<rparr>\<rparr>;
          idle = (\<lambda>s. \<lparr>cn_serve = s, tunnel_end_open = False,
                       intercepting = shouldIntercept, tunnel_ran = False\<rparr>)
      in finish_connect
           (case run_hooks HRequestheaders on_Requestheaders never_stop 0 addons s2 of
              (Go _, s3) \<Rightarrow>
                (case connect_dialled V addons req shouldIntercept s3 of
                   (Panicked p, s4) \<Rightarrow> (Raise p, idle s4)
                 | (Ret (Some err), s4) \<Rightarrow> (case leave_with 502 s4 of (r, s5) \<Rightarrow> (r, idle s5))
                 | (Ret None, s4) \<Rightarrow> connect_tunnel V addons shouldIntercept s4)
            | (r, s3) \<Rightarrow> (r, idle s3)))"

text \<open>\<open>ServeHTTP\<close>\<close>

definition ServeHTTP ::
  "serve_env \<Rightarrow> 's addon_ops list \<Rightarrow> incoming \<Rightarrow> 's serve \<Rightarrow> unit ctl \<times> 's serve" where
  "ServeHTTP V addons req s =
     (if in_method req = ''CONNECT''
      then (case handleConnect V addons req s of (r, cn) \<Rightarrow> (r, cn_serve cn))
      else ServeHTTP_plain V addons req s)"

end
