(* ===== verification/Proxy_Lemmas.thy ===== *)
theory Proxy_Lemmas
  imports Proxy
begin

text \<open>
  Lemmas on the stages of the proxy handler. The first half holds for arbitrary addons: a
  stage never touches the private \<open>done\<close> channel, writes nothing while the handler goes on and a
  status at most once when it leaves, and runs hooks in a fixed order. The second half says
  what the stages do when the addons only observe.
\<close>

section \<open>The order of hooks\<close>

text \<open>
  \<open>hook_seq names n complete t\<close>: the hooks \<open>t\<close> are those of the named kinds, in this order, each kind
  for the addons from the first on. A kind is left before its last addon only when the handler
  ended there, or when it is optional and was skipped as a whole.
\<close>

fun hook_seq :: "(hook_name \<times> bool) list \<Rightarrow> nat \<Rightarrow> bool \<Rightarrow> (hook_name \<times> nat) list \<Rightarrow> bool" where
  "hook_seq [] n complete t = (t = [])"
| "hook_seq ((x, optional) # xs) n complete t =
     (\<exists>k u. t = map (Pair x) [0..<k] @ u \<and> k \<le> n \<and>
        (k < n \<longrightarrow> optional \<and> k = 0 \<or> \<not> complete \<and> u = []) \<and> hook_seq xs n complete u)"

lemma hook_seq_ended: "hook_seq xs n False []"
  by (induction xs) (auto intro!: exI [of _ 0] exI [of _ "[]"])

lemma hook_seq_append:
  "hook_seq xs n True t \<Longrightarrow> hook_seq ys n c u \<Longrightarrow> hook_seq (xs @ ys) n c (t @ u)"
proof (induction xs n True t rule: hook_seq.induct)
  case (2 x optional xs n t)
  then obtain k v where v: "t = map (Pair x) [0..<k] @ v" "k \<le> n"
    "k < n \<longrightarrow> optional \<and> k = 0" "hook_seq xs n True v" by auto
  with 2 have "hook_seq (xs @ ys) n c (v @ u)" by blast
  with v show ?case by auto
qed simp

lemma hook_seq_stop: "hook_seq xs n c t \<Longrightarrow> hook_seq xs n False t"
proof (induction xs n c t rule: hook_seq.induct)
  case (2 x optional xs n c t)
  then obtain k u where u: "t = map (Pair x) [0..<k] @ u" "k \<le> n"
    "k < n \<longrightarrow> optional \<and> k = 0 \<or> \<not> c \<and> u = []" "hook_seq xs n c u" by auto
  with 2 have "hook_seq xs n False u" by blast
  with u show ?case by auto
qed simp

lemma hook_seq_leave: "hook_seq xs n False t \<Longrightarrow> hook_seq (xs @ ys) n False t"
proof (induction xs arbitrary: t)
  case Nil
  then show ?case by (simp add: hook_seq_ended)
next
  case (Cons x xs)
  obtain y b where x: "x = (y, b)" by force
  from Cons.prems obtain k u where u: "t = map (Pair y) [0..<k] @ u" "k \<le> n"
    "k < n \<longrightarrow> b \<and> k = 0 \<or> u = []" "hook_seq xs n False u" by (auto simp: x)
  with Cons.IH [of u] show ?case by (auto simp: x)
qed

section \<open>Stages\<close>

definition is_go :: "'a ctl \<Rightarrow> bool" where
  "is_go r \<longleftrightarrow> (\<exists>x. r = Go x)"

text \<open>What every stage of the handler guarantees, whatever the addons do.\<close>

definition stage_ok ::
  "(hook_name \<times> bool) list \<Rightarrow> nat \<Rightarrow> ('s serve \<Rightarrow> 'a ctl \<times> 's serve) \<Rightarrow> bool" where
  "stage_ok names n m \<longleftrightarrow>
     (\<forall>s r s'. m s = (r, s') \<longrightarrow>
        f_done (sv_flow s') = f_done (sv_flow s) \<and>
        (\<exists>t. sv_trace s' = sv_trace s @ t \<and> hook_seq names n (is_go r) t) \<and>
        (is_go r \<longrightarrow> sv_rw s' = sv_rw s) \<and>
        (rw_status (sv_rw s) = None \<longrightarrow> rw_superfluous (sv_rw s') = rw_superfluous (sv_rw s)))"

lemma stage_okI:
  assumes "\<And>s r s'. m s = (r, s') \<Longrightarrow> f_done (sv_flow s') = f_done (sv_flow s)"
    and "\<And>s r s'. m s = (r, s') \<Longrightarrow> \<exists>t. sv_trace s' = sv_trace s @ t \<and> hook_seq names n (is_go r) t"
    and "\<And>s r s'. m s = (r, s') \<Longrightarrow> is_go r \<Longrightarrow> sv_rw s' = sv_rw s"
    and "\<And>s r s'. m s = (r, s') \<Longrightarrow> rw_status (sv_rw s) = None \<Longrightarrow>
      rw_superfluous (sv_rw s') = rw_superfluous (sv_rw s)"
  shows "stage_ok names n m"
  using assms unfolding stage_ok_def by blast

lemma stage_okD:
  assumes "stage_ok names n m" and "m s = (r, s')"
  shows "f_done (sv_flow s') = f_done (sv_flow s)"
    and "\<exists>t. sv_trace s' = sv_trace s @ t \<and> hook_seq names n (is_go r) t"
    and "is_go r \<Longrightarrow> sv_rw s' = sv_rw s"
    and "rw_status (sv_rw s) = None \<Longrightarrow> rw_superfluous (sv_rw s') = rw_superfluous (sv_rw s)"
  using assms unfolding stage_ok_def by blast+

lemma stage_ok_seq:
  assumes m: "stage_ok xs n m" and k: "\<And>x. stage_ok ys n (k x)"
  shows "stage_ok (xs @ ys) n (seq m k)"
proof (rule stage_okI)
  fix s r s' assume run: "seq m k s = (r, s')"
  obtain r1 s1 where 1: "m s = (r1, s1)" by force
  note m1 = stage_okD [OF m 1]
  from m1(2) obtain t1 where t1: "sv_trace s1 = sv_trace s @ t1" "hook_seq xs n (is_go r1) t1" by blast
  have all: "f_done (sv_flow s') = f_done (sv_flow s) \<and>
    (\<exists>t. sv_trace s' = sv_trace s @ t \<and> hook_seq (xs @ ys) n (is_go r) t) \<and>
    (is_go r \<longrightarrow> sv_rw s' = sv_rw s) \<and>
    (rw_status (sv_rw s) = None \<longrightarrow> rw_superfluous (sv_rw s') = rw_superfluous (sv_rw s))"
  proof (cases r1)
    case (Go x)
    with run 1 have 2: "k x s1 = (r, s')" by (simp add: seq_def)
    note k1 = stage_okD [OF k 2]
    from k1(2) obtain t2 where t2: "sv_trace s' = sv_trace s1 @ t2" "hook_seq ys n (is_go r) t2" by blast
    have "hook_seq (xs @ ys) n (is_go r) (t1 @ t2)"
      using t1(2) t2(2) Go by (simp add: is_go_def hook_seq_append)
    moreover have "sv_rw s1 = sv_rw s" using m1(3) Go by (simp add: is_go_def)
    ultimately show ?thesis using m1(1) k1 t1(1) t2(1) by auto
  qed (use run 1 m1 t1 in \<open>auto simp: seq_def is_go_def intro: hook_seq_leave\<close>)
  show "f_done (sv_flow s') = f_done (sv_flow s)" using all by blast
  show "\<exists>t. sv_trace s' = sv_trace s @ t \<and> hook_seq (xs @ ys) n (is_go r) t" using all by blast
  show "is_go r \<Longrightarrow> sv_rw s' = sv_rw s" using all by blast
  show "rw_status (sv_rw s) = None \<Longrightarrow> rw_superfluous (sv_rw s') = rw_superfluous (sv_rw s)"
    using all by blast
qed

text \<open>A stage that may be preceded by a change of fields that no guarantee mentions.\<close>

lemma stage_ok_pre:
  assumes "stage_ok xs n m" and "\<And>s. f_done (sv_flow (g s)) = f_done (sv_flow s)"
    and "\<And>s. sv_trace (g s) = sv_trace s" and "\<And>s. sv_rw (g s) = sv_rw s"
  shows "stage_ok xs n (\<lambda>s. m (g s))"
proof (rule stage_okI)
  fix s r s' assume "m (g s) = (r, s')"
  note m = stage_okD [OF assms(1) this]
  show "f_done (sv_flow s') = f_done (sv_flow s)" using m(1) assms(2) by simp
  show "\<exists>t. sv_trace s' = sv_trace s @ t \<and> hook_seq xs n (is_go r) t" using m(2) assms(3) by simp
  show "sv_rw s' = sv_rw s" if "is_go r" using m(3) [OF that] assms(4) by simp
  show "rw_superfluous (sv_rw s') = rw_superfluous (sv_rw s)" if "rw_status (sv_rw s) = None"
    using m(4) that assms(4) by simp
qed

section \<open>The writer\<close>

lemma WriteHeader_superfluous:
  "rw_status r = None \<Longrightarrow> rw_superfluous (snd (WriteHeader c r)) = rw_superfluous r"
  by (simp add: WriteHeader_def)

lemma rw_write_superfluous: "rw_superfluous (rw_write b r) = rw_superfluous r"
  by (simp add: rw_write_def WriteHeader_def Let_def split: option.splits)

lemma rw_copy_superfluous: "rw_superfluous (rw_copy b r) = rw_superfluous r"
  by (simp add: rw_copy_def rw_write_superfluous)

lemma reply_header_fields [simp]:
  "rw_status (reply_header rp r) = rw_status r" "rw_superfluous (reply_header rp r) = rw_superfluous r"
  "rw_body (reply_header rp r) = rw_body r" "rw_info (reply_header rp r) = rw_info r"
  by (simp_all add: reply_header_def Let_def)

lemma reply_body_superfluous: "rw_superfluous (reply_body rp b r) = rw_superfluous r"
  by (simp add: reply_body_def Let_def rw_write_superfluous rw_copy_superfluous split: option.splits)

lemma reply_superfluous:
  assumes "rw_status r = None"
  shows "rw_superfluous (snd (reply rp b r)) = rw_superfluous r"
proof -
  obtain x r3 where w: "WriteHeader (StatusCode rp) (reply_header rp r) = (x, r3)" by force
  with WriteHeader_superfluous [of "reply_header rp r" "StatusCode rp"] assms
  have "rw_superfluous r3 = rw_superfluous r" by simp
  with w show ?thesis by (cases x) (simp_all add: reply_def reply_body_superfluous)
qed

text \<open>A stage that only writes and does not go on.\<close>

lemma stage_ok_write:
  assumes "\<And>s. m s = ((if returned (fst (f (sv_rw s))) then Leave else Raise (p s)), s\<lparr>sv_rw := snd (f (sv_rw s))\<rparr>)"
    and "\<And>r. rw_status r = None \<Longrightarrow> rw_superfluous (snd (f r)) = rw_superfluous r"
  shows "stage_ok [] n m"
  by (rule stage_okI) (use assms in \<open>auto simp: is_go_def split: if_splits\<close>)

lemma leave_with_ok: "stage_ok [] n (leave_with c)"
proof (rule stage_ok_write [where f = "WriteHeader c"])
  fix s :: "'a serve"
  show "leave_with c s = ((if returned (fst (WriteHeader c (sv_rw s))) then Leave
      else Raise (case fst (WriteHeader c (sv_rw s)) of Panicked p \<Rightarrow> p | Ret _ \<Rightarrow> NilDeref)),
      s\<lparr>sv_rw := snd (WriteHeader c (sv_rw s))\<rparr>)"
    by (simp add: leave_with_def split: prod.splits outcome.splits)
qed (rule WriteHeader_superfluous)

lemma leave_reply_ok: "stage_ok [] n (leave_reply rp b)"
proof (rule stage_ok_write [where f = "reply rp b"])
  fix s :: "'a serve"
  show "leave_reply rp b s = ((if returned (fst (reply rp b (sv_rw s))) then Leave
      else Raise (case fst (reply rp b (sv_rw s)) of Panicked p \<Rightarrow> p | Ret _ \<Rightarrow> NilDeref)),
      s\<lparr>sv_rw := snd (reply rp b (sv_rw s))\<rparr>)"
    by (simp add: leave_reply_def split: prod.splits outcome.splits)
qed (rule reply_superfluous)

lemma leave_reply_not_go: "\<not> is_go (fst (leave_reply rp b s))"
  by (simp add: leave_reply_def is_go_def split: prod.splits outcome.splits)

section \<open>Hooks and modifiers\<close>

lemma run_hook_fields:
  assumes "run_hook name i h s = (r, s')"
  shows "f_done (sv_flow s') = f_done (sv_flow s)" and "sv_trace s' = sv_trace s @ [(name, i)]"
    and "sv_rw s' = sv_rw s"
  using assms by (auto simp: run_hook_def split: prod.splits)

lemma run_hooks_from:
  assumes "run_hooks name sel stop i as s = (r, s')"
  shows "f_done (sv_flow s') = f_done (sv_flow s) \<and>
    (\<exists>k. sv_trace s' = sv_trace s @ map (Pair name) [i..<k] \<and> i \<le> k \<and> k \<le> i + length as \<and>
       (is_go r \<longrightarrow> k = i + length as)) \<and>
    (is_go r \<longrightarrow> sv_rw s' = sv_rw s) \<and>
    (rw_status (sv_rw s) = None \<longrightarrow> rw_superfluous (sv_rw s') = rw_superfluous (sv_rw s))"
  using assms
proof (induction as arbitrary: i s)
  case (Cons a as)
  obtain r1 s1 where h: "run_hook name i (sel a) s = (r1, s1)" by force
  note f = run_hook_fields [OF h]
  have one: "sv_trace s1 = sv_trace s @ map (Pair name) [i..<Suc i]" using f by simp
  show ?case
  proof (cases "r1 = Ret () \<and> stop (sv_flow s1) = Ret None")
    case True
    with Cons.prems h have "run_hooks name sel stop (Suc i) as s1 = (r, s')" by simp
    note ih = Cons.IH [OF this]
    from conjunct1 [OF conjunct2 [OF ih]] obtain k where
      k: "sv_trace s' = sv_trace s1 @ map (Pair name) [Suc i..<k]" "Suc i \<le> k"
        "k \<le> Suc i + length as" "is_go r \<longrightarrow> k = Suc i + length as"
      by (elim exE conjE)
    from k(2) have "map (Pair name) [i..<k] = (name, i) # map (Pair name) [Suc i..<k]"
      by (simp add: upt_rec)
    with k f have "sv_trace s' = sv_trace s @ map (Pair name) [i..<k] \<and> i \<le> k \<and>
        k \<le> i + length (a # as) \<and> (is_go r \<longrightarrow> k = i + length (a # as))"
      by simp
    with ih f show ?thesis by (intro conjI exI [of _ k]) simp_all
  next
    case False
    have leave: "f_done (sv_flow s') = f_done (sv_flow s1) \<and> sv_trace s' = sv_trace s1 \<and> \<not> is_go r \<and>
        (rw_status (sv_rw s1) = None \<longrightarrow> rw_superfluous (sv_rw s') = rw_superfluous (sv_rw s1))"
    proof (cases "\<exists>rp. stop (sv_flow s1) = Ret (Some rp) \<and> r1 = Ret ()")
      case True
      then obtain rp where l: "leave_reply rp None s1 = (r, s')" using Cons.prems h by auto
      then have "\<not> is_go r" by (metis fst_conv leave_reply_not_go)
      moreover have "sv_trace s' = sv_trace s1"
        using l by (auto simp: leave_reply_def split: prod.splits outcome.splits)
      ultimately show ?thesis using stage_okD(1,4) [OF leave_reply_ok [of 0 rp None] l] by simp
    next
      case nolv: False
      with False Cons.prems h have "s' = s1 \<and> \<not> is_go r"
        by (cases r1; cases "stop (sv_flow s1)") (auto simp: is_go_def split: option.splits)
      then show ?thesis by simp
    qed
    with f one show ?thesis by (intro conjI exI [of _ "Suc i"]) simp_all
  qed
qed (auto simp: is_go_def intro!: exI [of _ i])

lemma run_hooks_ok: "stage_ok [(name, False)] (length as) (run_hooks name sel stop 0 as)"
proof (rule stage_okI)
  fix s r s' assume "run_hooks name sel stop 0 as s = (r, s')"
  note h = run_hooks_from [OF this]
  from h show "f_done (sv_flow s') = f_done (sv_flow s)" by blast
  from h show "is_go r \<Longrightarrow> sv_rw s' = sv_rw s" by blast
  from h show "rw_status (sv_rw s) = None \<Longrightarrow> rw_superfluous (sv_rw s') = rw_superfluous (sv_rw s)" by blast
  from h obtain k where k: "sv_trace s' = sv_trace s @ map (Pair name) [0..<k]" "k \<le> length as"
    "is_go r \<longrightarrow> k = length as" by auto
  then have "hook_seq [(name, False)] (length as) (is_go r) (map (Pair name) [0..<k])" by auto
  with k(1) show "\<exists>t. sv_trace s' = sv_trace s @ t \<and> hook_seq [(name, False)] (length as) (is_go r) t"
    by blast
qed

lemma run_modifiers_from:
  assumes "run_modifiers name sel i as x s = (r, s')"
  shows "f_done (sv_flow s') = f_done (sv_flow s) \<and>
    (\<exists>k. sv_trace s' = sv_trace s @ map (Pair name) [i..<k] \<and> i \<le> k \<and> k \<le> i + length as \<and>
       (is_go r \<longrightarrow> k = i + length as)) \<and> sv_rw s' = sv_rw s"
  using assms
proof (induction as arbitrary: i x s)
  case (Cons a as)
  obtain x1 f st where h: "sel a (sv_flow s) x (sv_addons s) = (x1, f, st)" by (metis prod_cases3)
  define s1 where "s1 = s\<lparr>sv_flow := f\<lparr>f_done := f_done (sv_flow s)\<rparr>, sv_addons := st,
      sv_trace := sv_trace s @ [(name, i)]\<rparr>"
  have f: "f_done (sv_flow s1) = f_done (sv_flow s)" "sv_trace s1 = sv_trace s @ [(name, i)]"
    "sv_rw s1 = sv_rw s" by (simp_all add: s1_def)
  show ?case
  proof (cases x1)
    case (Panicked p)
    with Cons.prems h have "r = Raise p" "s' = s1" by (simp_all add: s1_def Let_def)
    with f show ?thesis by (intro conjI exI [of _ "Suc i"]) (simp_all add: is_go_def)
  next
    case (Ret x2)
    with Cons.prems h have "run_modifiers name sel (Suc i) as x2 s1 = (r, s')"
      by (simp add: s1_def Let_def)
    note ih = Cons.IH [OF this]
    from conjunct1 [OF conjunct2 [OF ih]] obtain k where
      k: "sv_trace s' = sv_trace s1 @ map (Pair name) [Suc i..<k]" "Suc i \<le> k"
        "k \<le> Suc i + length as" "is_go r \<longrightarrow> k = Suc i + length as"
      by (elim exE conjE)
    from k(2) have "map (Pair name) [i..<k] = (name, i) # map (Pair name) [Suc i..<k]"
      by (simp add: upt_rec)
    with k f have "sv_trace s' = sv_trace s @ map (Pair name) [i..<k] \<and> i \<le> k \<and>
        k \<le> i + length (a # as) \<and> (is_go r \<longrightarrow> k = i + length (a # as))"
      by simp
    with ih f show ?thesis by (intro conjI exI [of _ k]) simp_all
  qed
next
  case Nil
  then show ?case by (intro conjI exI [of _ i]) simp_all
qed

lemma run_modifiers_ok: "stage_ok [(name, False)] (length as) (run_modifiers name sel 0 as x)"
proof (rule stage_okI)
  fix s r s' assume "run_modifiers name sel 0 as x s = (r, s')"
  note h = run_modifiers_from [OF this]
  from h show "f_done (sv_flow s') = f_done (sv_flow s)" by blast
  from h show "is_go r \<Longrightarrow> sv_rw s' = sv_rw s" by blast
  from h show "rw_status (sv_rw s) = None \<Longrightarrow> rw_superfluous (sv_rw s') = rw_superfluous (sv_rw s)" by simp
  from h obtain k where k: "sv_trace s' = sv_trace s @ map (Pair name) [0..<k]" "k \<le> length as"
    "is_go r \<longrightarrow> k = length as" by auto
  then have "hook_seq [(name, False)] (length as) (is_go r) (map (Pair name) [0..<k])" by auto
  with k(1) show "\<exists>t. sv_trace s' = sv_trace s @ t \<and> hook_seq [(name, False)] (length as) (is_go r) t"
    by blast
qed

section \<open>The stages\<close>

lemma stage_ok_go: "stage_ok [] n (\<lambda>s. (Go (g s), s))"
  by (rule stage_okI) auto

lemma stage_ok_mono:
  assumes "stage_ok xs n m" and "\<And>c t. hook_seq xs n c t \<Longrightarrow> hook_seq ys n c t"
  shows "stage_ok ys n m"
proof (rule stage_okI)
  fix s r s' assume run: "m s = (r, s')"
  note m = stage_okD [OF assms(1) run]
  show "\<exists>t. sv_trace s' = sv_trace s @ t \<and> hook_seq ys n (is_go r) t" using m(2) assms(2) by blast
qed (use assms(1) in \<open>auto dest: stage_okD\<close>)

text \<open>Hooks of a kind that may be skipped.\<close>

lemma stage_ok_optional: "stage_ok [(x, False)] n m \<Longrightarrow> stage_ok [(x, True)] n m"
  by (erule stage_ok_mono) auto

lemma stage_ok_skipped: "stage_ok [] n m \<Longrightarrow> stage_ok [(x, True)] n m"
  by (erule stage_ok_mono) auto

text \<open>The guarantee for one state, to argue by cases on it.\<close>

definition step_ok ::
  "(hook_name \<times> bool) list \<Rightarrow> nat \<Rightarrow> 's serve \<Rightarrow> 'a ctl \<times> 's serve \<Rightarrow> bool" where
  "step_ok names n s x \<longleftrightarrow>
     (case x of (r, s') \<Rightarrow>
        f_done (sv_flow s') = f_done (sv_flow s) \<and>
        (\<exists>t. sv_trace s' = sv_trace s @ t \<and> hook_seq names n (is_go r) t) \<and>
        (is_go r \<longrightarrow> sv_rw s' = sv_rw s) \<and>
        (rw_status (sv_rw s) = None \<longrightarrow> rw_superfluous (sv_rw s') = rw_superfluous (sv_rw s)))"

lemma stage_ok_step: "stage_ok xs n m \<longleftrightarrow> (\<forall>s. step_ok xs n s (m s))"
  unfolding stage_ok_def step_ok_def by (simp only: prod.split_sel split: prod.split)

lemma step_okI: "(\<And>s. step_ok xs n s (m s)) \<Longrightarrow> stage_ok xs n m"
  by (simp add: stage_ok_step)

lemma step_okD: "stage_ok xs n m \<Longrightarrow> step_ok xs n s (m s)"
  by (simp add: stage_ok_step)

lemma step_ok_from:
  "step_ok xs n s1 x \<Longrightarrow> f_done (sv_flow s1) = f_done (sv_flow s) \<Longrightarrow> sv_trace s1 = sv_trace s \<Longrightarrow>
     sv_rw s1 = sv_rw s \<Longrightarrow> step_ok xs n s x"
  by (simp add: step_ok_def)

lemma step_ok_plain:
  "f_done (sv_flow s') = f_done (sv_flow s) \<Longrightarrow> sv_trace s' = sv_trace s \<Longrightarrow> sv_rw s' = sv_rw s \<Longrightarrow>
     step_ok [] n s (r, s')"
  by (simp add: step_ok_def)

lemma step_ok_skipped: "step_ok [] n s x \<Longrightarrow> step_ok [(y, True)] n s x"
  by (cases x) (auto simp: step_ok_def)

lemma stage_ok_update:
  assumes "\<And>s. f_done (sv_flow (g s)) = f_done (sv_flow s)" and "\<And>s. sv_trace (g s) = sv_trace s"
    and "\<And>s. sv_rw (g s) = sv_rw s"
  shows "stage_ok [] n (\<lambda>s. (h s, g s))"
  by (rule stage_okI) (use assms in auto)

lemma exchange_ok: "stage_ok [] n (exchange V q)"
  by (rule stage_okI) (auto simp: exchange_def Let_def split: sum.splits)

lemma client_Do_ok: "stage_ok [] n (client_Do V k q)"
  by (rule stage_okI)
    (auto simp: client_Do_def exchange_def Let_def
      split: if_splits option.splits http_client.splits outcome.splits prod.splits sum.splits)

lemma request_stage_ok: "stage_ok [(HRequest, True)] (length addons) (request_stage V addons body)"
proof (rule step_okI)
  fix s :: "'a serve"
  let ?run = "seq (run_hooks HRequest on_Request stop_on_response 0 addons)
    (\<lambda>_ s2. (Go (Some (bytes_reader (r_body (f_request (sv_flow s2))))), s2))"
  have "stage_ok ([(HRequest, False)] @ []) (length addons) ?run"
    by (rule stage_ok_seq [OF run_hooks_ok stage_ok_go])
  then have run: "step_ok [(HRequest, True)] (length addons) s1 (?run s1)" for s1
    by (intro step_okD stage_ok_optional) simp
  show "step_ok [(HRequest, True)] (length addons) s (request_stage V addons body s)"
  proof (cases "f_stream (sv_flow s)")
    case True
    then show ?thesis by (simp add: request_stage_def step_ok_skipped step_ok_plain)
  next
    case ns: False
    show ?thesis
    proof (cases "readerToBuffer body (sv_limit V)")
      case (Inl e)
      with ns show ?thesis
        by (simp add: request_stage_def step_ok_skipped step_okD [OF leave_with_ok])
    next
      case (Inr x)
      obtain b r where x: "x = (b, r)" by force
      show ?thesis
      proof (cases b)
        case None
        with ns Inr x show ?thesis by (simp add: request_stage_def step_ok_skipped step_ok_plain)
      next
        case (Some buf)
        let ?s1 = "s\<lparr>sv_flow := (sv_flow s)\<lparr>f_request := (f_request (sv_flow s))\<lparr>r_body := buf\<rparr>\<rparr>\<rparr>"
        have "step_ok [(HRequest, True)] (length addons) s (?run ?s1)"
          by (rule step_ok_from [OF run]) simp_all
        with ns Inr x Some show ?thesis by (simp add: request_stage_def)
      qed
    qed
  qed
qed

lemma forward_stage_ok: "stage_ok [(HStreamRequest, False)] (length addons) (forward_stage V addons b)"
proof -
  have got: "stage_ok [] (length addons) (\<lambda>s2. case r of
       Inl err \<Rightarrow> leave_with 502 s2
     | Inr proxyRes \<Rightarrow> (Go proxyRes, s2\<lparr>sv_open_bodies := Suc (sv_open_bodies s2)\<rparr>))" for r
    by (cases r) (auto intro!: leave_with_ok stage_ok_update)
  have go: "stage_ok [] (length addons) (seq (client_Do V (length addons) q)
      (\<lambda>r s2. case r of
         Inl err \<Rightarrow> leave_with 502 s2
       | Inr proxyRes \<Rightarrow> (Go proxyRes, s2\<lparr>sv_open_bodies := Suc (sv_open_bodies s2)\<rparr>)))" for q
    using stage_ok_seq [OF client_Do_ok got] by simp
  have "stage_ok ([(HStreamRequest, False)] @ []) (length addons) (forward_stage V addons b)"
    unfolding forward_stage_def
  proof (rule stage_ok_seq [OF run_modifiers_ok], rule step_okI)
    fix x and s :: "'a serve"
    let ?nr = "new_request (sv_env V) (r_method (f_request (sv_flow s)))
        (url_string (r_url (f_request (sv_flow s)))) (case x of None \<Rightarrow> bytes_reader [] | Some b \<Rightarrow> b)"
    show "step_ok [] (length addons) s
        (case ?nr of
           Inl err \<Rightarrow> leave_with 502 s
         | Inr proxyReq0 \<Rightarrow>
             (let proxyReq = proxyReq0\<lparr>hq_header := add_headers (hq_header proxyReq0)
                    (r_header (f_request (sv_flow s)))\<rparr>;
                  s1 = s\<lparr>sv_conn := initHttpServerConn (sv_conn s)\<rparr>
              in seq (client_Do V (length addons) proxyReq)
                   (\<lambda>r s2. case r of
                      Inl err \<Rightarrow> leave_with 502 s2
                    | Inr proxyRes \<Rightarrow> (Go proxyRes, s2\<lparr>sv_open_bodies := Suc (sv_open_bodies s2)\<rparr>)) s1))"
    proof (cases ?nr)
      case (Inl e)
      then show ?thesis by (simp add: step_okD [OF leave_with_ok])
    next
      case (Inr q)
      show ?thesis
        unfolding Inr sum.case Let_def
        by (rule step_ok_from [OF step_okD [OF go]]) simp_all
    qed
  qed
  then show ?thesis by simp
qed

lemma buffer_response_ok:
  "stage_ok [(HResponse, True)] (length addons) (\<lambda>s3.
     if f_stream (sv_flow s3) then (Go (Some body), s3)
     else (case readerToBuffer body (sv_limit V) of
             Inl err \<Rightarrow> leave_with 502 s3
           | Inr (None, r) \<Rightarrow> (Go r, s3\<lparr>sv_flow := (sv_flow s3)\<lparr>f_stream := True\<rparr>\<rparr>)
           | Inr (Some resBuf, r) \<Rightarrow>
               (case f_response (sv_flow s3) of
                  None \<Rightarrow> (Raise NilDeref, s3)
                | Some response \<Rightarrow>
                    seq (run_hooks HResponse on_Response never_stop 0 addons)
                      (\<lambda>_ s4. (Go r, s4))
                      (s3\<lparr>sv_flow := (sv_flow s3)\<lparr>f_response := Some (response\<lparr>s_body := Some resBuf\<rparr>)\<rparr>\<rparr>))))"
  (is "stage_ok _ _ ?m")
proof (rule step_okI)
  fix s :: "'a serve"
  have "stage_ok ([(HResponse, False)] @ []) (length addons)
      (seq (run_hooks HResponse on_Response never_stop 0 addons) (\<lambda>_ s4. (Go r, s4)))" for r :: "reader option"
    by (rule stage_ok_seq [OF run_hooks_ok stage_ok_go])
  then have run: "step_ok [(HResponse, True)] (length addons) s1
      (seq (run_hooks HResponse on_Response never_stop 0 addons) (\<lambda>_ s4. (Go r, s4)) s1)"
    for r :: "reader option" and s1
    by (intro step_okD stage_ok_optional) simp
  show "step_ok [(HResponse, True)] (length addons) s (?m s)"
  proof (cases "f_stream (sv_flow s)")
    case True
    then show ?thesis by (simp add: step_ok_skipped step_ok_plain)
  next
    case ns: False
    show ?thesis
    proof (cases "readerToBuffer body (sv_limit V)")
      case (Inl e)
      with ns show ?thesis by (simp add: step_ok_skipped step_okD [OF leave_with_ok])
    next
      case (Inr x)
      obtain b r where x: "x = (b, r)" by force
      show ?thesis
      proof (cases b)
        case None
        with ns Inr x show ?thesis by (simp add: step_ok_skipped step_ok_plain)
      next
        case (Some buf)
        show ?thesis
        proof (cases "f_response (sv_flow s)")
          case None
          with ns Inr x Some show ?thesis by (simp add: step_ok_skipped step_ok_plain)
        next
          case (Some rp)
          let ?s1 = "s\<lparr>sv_flow := (sv_flow s)\<lparr>f_response := Some (rp\<lparr>s_body := Some buf\<rparr>)\<rparr>\<rparr>"
          have "step_ok [(HResponse, True)] (length addons) s
              (seq (run_hooks HResponse on_Response never_stop 0 addons) (\<lambda>_ s4. (Go r, s4)) ?s1)"
            by (rule step_ok_from [OF run]) simp_all
          with ns Inr x \<open>b = Some buf\<close> Some show ?thesis by simp
        qed
      qed
    qed
  qed
qed

lemma response_stage_ok:
  "stage_ok [(HResponseheaders, False), (HResponse, True)] (length addons) (response_stage V addons res)"
proof (rule step_okI)
  fix s :: "'a serve"
  let ?s1 = "if hp_close res then s\<lparr>sv_conn := (sv_conn s)\<lparr>closeAfterResponse := True\<rparr>\<rparr> else s"
  have "stage_ok ([(HResponseheaders, False)] @ [(HResponse, True)]) (length addons)
      (seq (run_hooks HResponseheaders on_Responseheaders stop_on_body 0 addons)
        (\<lambda>_ s3.
     if f_stream (sv_flow s3) then (Go (Some (hp_body res)), s3)
     else (case readerToBuffer (hp_body res) (sv_limit V) of
             Inl err \<Rightarrow> leave_with 502 s3
           | Inr (None, r) \<Rightarrow> (Go r, s3\<lparr>sv_flow := (sv_flow s3)\<lparr>f_stream := True\<rparr>\<rparr>)
           | Inr (Some resBuf, r) \<Rightarrow>
               (case f_response (sv_flow s3) of
                  None \<Rightarrow> (Raise NilDeref, s3)
                | Some response \<Rightarrow>
                    seq (run_hooks HResponse on_Response never_stop 0 addons)
                      (\<lambda>_ s4. (Go r, s4))
                      (s3\<lparr>sv_flow := (sv_flow s3)\<lparr>f_response := Some (response\<lparr>s_body := Some resBuf\<rparr>)\<rparr>\<rparr>)))))"
    by (rule stage_ok_seq [OF run_hooks_ok buffer_response_ok])
  from step_okD [OF this] show
    "step_ok [(HResponseheaders, False), (HResponse, True)] (length addons) s (response_stage V addons res s)"
    unfolding response_stage_def Let_def append.simps by (rule step_ok_from) simp_all
qed

lemma reply_stage_ok: "stage_ok [(HStreamResponse, False)] (length addons) (reply_stage addons b)"
proof -
  have "stage_ok ([(HStreamResponse, False)] @ []) (length addons) (reply_stage addons b)"
    unfolding reply_stage_def
  proof (rule stage_ok_seq [OF run_modifiers_ok], rule step_okI)
    fix x and s :: "'a serve"
    show "step_ok [] (length addons) s
        (case f_response (sv_flow s) of None \<Rightarrow> (Raise NilDeref, s)
         | Some response \<Rightarrow> leave_reply response x s)"
      by (cases "f_response (sv_flow s)") (simp_all add: step_ok_plain step_okD [OF leave_reply_ok])
  qed
  then show ?thesis by simp
qed

end
