(* ===== verification/Conn_Props.thy ===== *)
theory Conn_Props
  imports Connection
begin

text \<open>
  Properties of \<open>connection.go\<close>: the locale \<open>closable\<close> is the contract of a \<open>Close\<close> that does its
  work once, and both wrappers are instances, as long as calls do not overlap; in every state a connection context can reach,
  each addon saw each connect and disconnect exactly as often as it happened; the versions of
  the handshake with the server cover what the client offers; the socket to an upstream proxy
  is closed on every error.
\<close>

section \<open>Close does its work once\<close>

locale closable =
  fixes close :: "'s \<Rightarrow> gerr option outcome \<times> 's"
    and is_closed :: "'s \<Rightarrow> bool"
    and close_err :: "'s \<Rightarrow> gerr option"
    and usable :: "'s \<Rightarrow> bool"
  assumes closed_stays: "is_closed s \<Longrightarrow> close s = (Ret (close_err s), s)"
    and close_closes: "usable s \<Longrightarrow> close s = (r, s') \<Longrightarrow> is_closed s'"
    and close_result_kept: "usable s \<Longrightarrow> close s = (Ret e, s') \<Longrightarrow> close_err s' = e"
begin

lemma close_twice: "usable s \<Longrightarrow> close s = (Ret e, s') \<Longrightarrow> close s' = (Ret e, s')"
  using closed_stays [of s'] close_closes [of s "Ret e" s'] close_result_kept [of s e s'] by simp

lemma close_many: "usable s \<Longrightarrow> ((\<lambda>t. snd (close t)) ^^ Suc m) s = snd (close s)"
proof (induction m)
  case (Suc m)
  have "is_closed (snd (close s))"
    using close_closes [OF Suc.prems, of "fst (close s)" "snd (close s)"] by simp
  with Suc show ?case by (simp add: closed_stays)
qed simp

end

lemma run_conn_hook_fields [simp]:
  "Tls (run_conn_hook n h c) = Tls c" "server_conn (run_conn_hook n h c) = server_conn c"
  "pipe_conn (run_conn_hook n h c) = pipe_conn c" "conns (run_conn_hook n h c) = conns c"
  "closeAfterResponse (run_conn_hook n h c) = closeAfterResponse c"
  "client_closed_flag (run_conn_hook n h c) = client_closed_flag c"
  "client_closeErr (run_conn_hook n h c) = client_closeErr c"
  "client_ctx_set (run_conn_hook n h c) = client_ctx_set c"
  by (simp_all add: run_conn_hook_def)

lemma server_close_open:
  assumes "k < length (conns c)" and "\<not> ws_closed (conns c ! k)" and "Tls c \<longrightarrow> pipe_conn c \<noteq> None"
  shows "\<exists>c'. server_close N n k c = (Ret (close_result N (Some k)), c') \<and>
    hooks_run c' = hooks_run c @ map (\<lambda>i. (ServerDisconnected k, i)) [0..<n] \<and>
    conns c' = (conns c)[k := (conns c ! k)\<lparr>ws_closed := True, ws_closeErr := close_result N (Some k)\<rparr>] \<and>
    Tls c' = Tls c \<and> server_conn c' = server_conn c \<and> client_closed_flag c' = client_closed_flag c \<and>
    client_closeErr c' = client_closeErr c \<and> client_ctx_set c' = client_ctx_set c \<and>
    (pipe_conn c' = None) = (pipe_conn c = None)"
  using assms
  by (auto simp: server_close_def Let_def mark_server_closed_def run_conn_hook_def split: option.splits)

lemma server_close_closed:
  "k < length (conns c) \<Longrightarrow> ws_closed (conns c ! k) \<Longrightarrow>
     server_close N n k c = (Ret (ws_closeErr (conns c ! k)), c)"
  by (simp add: server_close_def)

lemma server_close_marks:
  assumes "server_close N n k c = (r, c')" and "k < length (conns c)"
  shows "length (conns c') = length (conns c) \<and> ws_closed (conns c' ! k) \<and>
    (\<forall>e. r = Ret e \<longrightarrow> ws_closeErr (conns c' ! k) = e) \<and>
    client_closed_flag c' = client_closed_flag c \<and> client_closeErr c' = client_closeErr c"
  using assms
  by (auto simp: server_close_def Let_def mark_server_closed_def run_conn_hook_def
      split: option.splits if_splits)

lemma mark_client_closed_fields [simp]:
  "Tls (mark_client_closed N c) = Tls c" "server_conn (mark_client_closed N c) = server_conn c"
  "pipe_conn (mark_client_closed N c) = pipe_conn c" "conns (mark_client_closed N c) = conns c"
  "client_closed_flag (mark_client_closed N c)" "client_ctx_set (mark_client_closed N c) = client_ctx_set c"
  "hooks_run (mark_client_closed N c) = hooks_run c"
  by (simp_all add: mark_client_closed_def)

lemma server_close_client_fields:
  assumes "server_close N n k c = (r, c')"
  shows "client_closed_flag c' = client_closed_flag c \<and> client_closeErr c' = client_closeErr c"
  using assms server_close_marks [OF assms] by (cases "k < length (conns c)") (auto simp: server_close_def)

lemma client_close_marks:
  assumes "client_close N n c = (r, c')" and "client_ctx_set c"
  shows "client_closed_flag c' \<and> (\<forall>e. r = Ret e \<longrightarrow> client_closeErr c' = e)"
  using assms
  by (auto simp: client_close_def Let_def split: if_splits option.splits prod.splits outcome.splits
      dest!: server_close_client_fields)

interpretation client_conn: closable "client_close N n" client_closed_flag client_closeErr client_ctx_set
  for N n
proof unfold_locales
  show "client_ctx_set c \<Longrightarrow> client_close N n c = (Ret e, c') \<Longrightarrow> client_closeErr c' = e" for c e c'
    using client_close_marks by blast
  show "client_ctx_set c \<Longrightarrow> client_close N n c = (r, c') \<Longrightarrow> client_closed_flag c'" for c r c'
    using client_close_marks by blast
qed (simp add: client_close_def)

interpretation server_wrap: closable "server_close N n k"
    "\<lambda>c. k < length (conns c) \<and> ws_closed (conns c ! k)" "\<lambda>c. ws_closeErr (conns c ! k)"
    "\<lambda>c. k < length (conns c)"
  for N n k
proof unfold_locales
  show "server_close N n k c = (r, c') \<Longrightarrow> k < length (conns c') \<and> ws_closed (conns c' ! k)"
    if "k < length (conns c)" for c r c'
    using server_close_marks [of N n k c r c'] that by simp
qed (auto simp: server_close_closed dest: server_close_marks)

text \<open>
  "Once" is meant of calls that do not overlap, and \<open>server_close\<close> and \<open>client_close\<close> are whole calls.
  The field \<open>closed\<close> is a plain variable, and the HTTP server, a transport and the proxy may close
  a connection at the same time. Here a goroutine looks at the field in one step, and sets it and
  runs the hooks in a later one; \<open>runs\<close> counts how often the hooks ran.
\<close>

datatype closer = Entering | Past_check | Left

inductive close_step :: "bool \<times> closer list \<times> nat \<Rightarrow> bool \<times> closer list \<times> nat \<Rightarrow> bool" where
  looks: "t < length ts \<Longrightarrow> ts ! t = Entering \<Longrightarrow>
    close_step (closed, ts, runs) (closed, ts[t := if closed then Left else Past_check], runs)"
| closes: "t < length ts \<Longrightarrow> ts ! t = Past_check \<Longrightarrow>
    close_step (closed, ts, runs) (True, ts[t := Left], Suc runs)"

text \<open>Two goroutines that look before either has set the field both run the hooks.\<close>

lemma close_not_once: "close_step\<^sup>*\<^sup>* (False, [Entering, Entering], 0) (True, [Left, Left], 2)"
proof -
  have "close_step (False, [Entering, Entering], 0) (False, [Past_check, Entering], 0)"
    using looks [of 0 "[Entering, Entering]" False 0] by simp
  moreover have "close_step (False, [Past_check, Entering], 0) (False, [Past_check, Past_check], 0)"
    using looks [of 1 "[Past_check, Entering]" False 0] by simp
  moreover have "close_step (False, [Past_check, Past_check], 0) (True, [Left, Past_check], 1)"
    using closes [of 0 "[Past_check, Past_check]" False 0] by simp
  moreover have "close_step (True, [Left, Past_check], 1) (True, [Left, Left], 2)"
    using closes [of 1 "[Left, Past_check]" True 1] by (simp add: numeral_2_eq_2)
  ultimately show ?thesis by (meson rtranclp.rtrancl_into_rtrancl rtranclp.rtrancl_refl)
qed

section \<open>The hooks of a connection context\<close>

text \<open>
  The states of a connection context. The steps are the calls the proxy, the HTTP servers and
  the transports make, in any order and number in which the context lets them be made.
\<close>

inductive conn_reachable :: "net_env \<Rightarrow> nat \<Rightarrow> ConnContext \<Rightarrow> bool" for N n where
  accepted: "Accept None = Inr c \<Longrightarrow> conn_reachable N n (newConnContext n c)"
| plain: "conn_reachable N n c \<Longrightarrow> conn_reachable N n (initHttpServerConn c)"
| dialled: "conn_reachable N n c \<Longrightarrow> conn_reachable N n (snd (plain_dial n d addr c))"
| piped: "conn_reachable N n c \<Longrightarrow> conn_reachable N n (c\<lparr>pipe_conn := Some p\<rparr>)"
| connected: "conn_reachable N n c \<Longrightarrow> conn_reachable N n (snd (initServerTcpConn n d c))"
| tls: "conn_reachable N n c \<Longrightarrow> pipe_conn c \<noteq> None \<Longrightarrow>
    conn_reachable N n (snd (initHttpsServerConn (c\<lparr>Tls := True\<rparr>)))"
| shaken: "conn_reachable N n c \<Longrightarrow> conn_reachable N n (snd (tlsHandshake shake ins h c))"
| established: "conn_reachable N n c \<Longrightarrow> conn_reachable N n (run_conn_hook n TlsEstablishedServer c)"
| counted: "conn_reachable N n c \<Longrightarrow> conn_reachable N n (c\<lparr>FlowCount := FlowCount c + 1\<rparr>)"
| last_response: "conn_reachable N n c \<Longrightarrow> conn_reachable N n (c\<lparr>closeAfterResponse := True\<rparr>)"
| intercepted: "conn_reachable N n c \<Longrightarrow> conn_reachable N n (c\<lparr>Intercept := b\<rparr>)"
| server_closed: "conn_reachable N n c \<Longrightarrow> conn_reachable N n (snd (server_close N n k c))"
| client_closed: "conn_reachable N n c \<Longrightarrow> conn_reachable N n (snd (client_close N n c))"

text \<open>How often addon \<open>i\<close> saw a hook.\<close>

definition seen :: "ConnContext \<Rightarrow> conn_hook \<Rightarrow> nat \<Rightarrow> nat" where
  "seen c h i = count_list (hooks_run c) (h, i)"

lemma seen_run_conn_hook:
  "seen (run_conn_hook n h c) h' i = seen c h' i + (if h' = h \<and> i < n then 1 else 0)"
proof -
  have "count_list (map (\<lambda>i. (h, i)) [0..<n]) (h', i) = (if h' = h \<and> i < n then 1 else 0)"
    by (induction n) auto
  then show ?thesis by (simp add: seen_def run_conn_hook_def)
qed

definition hooks_balanced :: "nat \<Rightarrow> ConnContext \<Rightarrow> bool" where
  "hooks_balanced n c \<longleftrightarrow>
     (\<forall>i < n. seen c ClientConnected i = 1 \<and>
        seen c ClientDisconnected i = (if client_closed_flag c then 1 else 0) \<and>
        (\<forall>k. seen c (ServerConnected k) i = (if k < length (conns c) then 1 else 0) \<and>
             seen c (ServerDisconnected k) i =
               (if k < length (conns c) \<and> ws_closed (conns c ! k) then 1 else 0)))"

definition conn_inv :: "nat \<Rightarrow> ConnContext \<Rightarrow> bool" where
  "conn_inv n c \<longleftrightarrow>
     hooks_balanced n c \<and> client_ctx_set c \<and> (Tls c \<longrightarrow> pipe_conn c \<noteq> None) \<and>
     (\<forall>sc k. server_conn c = Some sc \<longrightarrow> sc_conn sc = Some k \<longrightarrow> k < length (conns c))"

lemma conn_inv_frame:
  assumes "conn_inv n c" and "hooks_run c' = hooks_run c" and "conns c' = conns c"
    and "client_closed_flag c' = client_closed_flag c" and "client_ctx_set c' = client_ctx_set c"
    and "Tls c' \<longrightarrow> pipe_conn c' \<noteq> None"
    and "\<And>sc k. server_conn c' = Some sc \<Longrightarrow> sc_conn sc = Some k \<Longrightarrow>
      k < length (conns c)"
  shows "conn_inv n c'"
  using assms by (auto simp: conn_inv_def hooks_balanced_def seen_def)

lemma conn_inv_new_server:
  assumes "conn_inv n c" and "sc_conn sc = None"
  shows "conn_inv n (c\<lparr>server_conn := Some sc\<rparr>)"
  by (rule conn_inv_frame [OF assms(1)]) (use assms in \<open>auto simp: conn_inv_def\<close>)

lemma conn_inv_attach:
  assumes "conn_inv n c"
  shows "conn_inv n (attach_conn n addr sc c)"
  using assms
  by (auto simp: conn_inv_def hooks_balanced_def attach_conn_def seen_run_conn_hook nth_append)
    (auto simp: seen_def)

lemma conn_inv_server_close:
  assumes "conn_inv n c"
  shows "conn_inv n (snd (server_close N n k c)) \<and>
    (k < length (conns c) \<longrightarrow> (\<exists>e. fst (server_close N n k c) = Ret e))"
proof (cases "k < length (conns c) \<and> \<not> ws_closed (conns c ! k)")
  case False
  with assms show ?thesis by (auto simp: server_close_def)
next
  case True
  have tp: "Tls c \<longrightarrow> pipe_conn c \<noteq> None" using assms by (simp add: conn_inv_def)
  obtain c' where c':
    "server_close N n k c = (Ret (close_result N (Some k)), c')"
    "hooks_run c' = hooks_run c @ map (\<lambda>i. (ServerDisconnected k, i)) [0..<n]"
    "conns c' = (conns c)[k := (conns c ! k)\<lparr>ws_closed := True, ws_closeErr := close_result N (Some k)\<rparr>]"
    "Tls c' = Tls c" "server_conn c' = server_conn c" "client_closed_flag c' = client_closed_flag c"
    "client_ctx_set c' = client_ctx_set c" "(pipe_conn c' = None) = (pipe_conn c = None)"
    using server_close_open [OF conjunct1 [OF True] conjunct2 [OF True] tp, of N n]
    by (elim exE conjE) (rule that, assumption+)
  have seen: "seen c' h i = seen c h i + (if h = ServerDisconnected k \<and> i < n then 1 else 0)" for h i
    using seen_run_conn_hook [of n "ServerDisconnected k" c h i] c'(2)
    by (simp add: seen_def run_conn_hook_def)
  have len: "length (conns c') = length (conns c)" by (simp add: c'(3))
  have cl: "ws_closed (conns c' ! j) = (j = k \<or> ws_closed (conns c ! j))" if "j < length (conns c)" for j
    using that True by (simp add: c'(3) nth_list_update)
  have "hooks_balanced n c"
    using assms by (simp add: conn_inv_def)
  then have "hooks_balanced n c'"
    using True by (auto simp: hooks_balanced_def seen len cl c'(6))
  with assms c'(1,4,5,7,8) show ?thesis by (auto simp: conn_inv_def len)
qed

lemma conn_inv_client_close:
  assumes "conn_inv n c"
  shows "conn_inv n (snd (client_close N n c)) \<and> (\<exists>e. fst (client_close N n c) = Ret e)"
proof (cases "client_closed_flag c")
  case True
  with assms show ?thesis by (simp add: client_close_def)
next
  case False
  let ?c1 = "run_conn_hook n ClientDisconnected (mark_client_closed N c)"
  have i: "conn_inv n ?c1"
    using assms False
    by (auto simp: conn_inv_def hooks_balanced_def seen_run_conn_hook) (auto simp: seen_def)
  show ?thesis
  proof (cases "Option.bind (server_conn ?c1) sc_conn")
    case None
    with i assms False show ?thesis by (simp add: client_close_def Let_def conn_inv_def)
  next
    case (Some k)
    then have k: "k < length (conns ?c1)" using i by (auto simp: conn_inv_def bind_eq_Some_conv)
    obtain r c2 where s: "server_close N n k ?c1 = (r, c2)" by force
    with conn_inv_server_close [OF i, of N k] k Some False assms show ?thesis
      by (auto simp: client_close_def Let_def conn_inv_def)
  qed
qed

lemma client_close_closes_server:
  assumes "conn_inv n c"
  shows "client_closed_flag c \<or>
    (case Option.bind (server_conn c) sc_conn of
       None \<Rightarrow> True | Some k \<Rightarrow> ws_closed (conns (snd (client_close N n c)) ! k))"
proof (cases "client_closed_flag c \<or> Option.bind (server_conn c) sc_conn = None")
  case False
  let ?c1 = "run_conn_hook n ClientDisconnected (mark_client_closed N c)"
  from False obtain k where k: "Option.bind (server_conn c) sc_conn = Some k" by auto
  then have len: "k < length (conns ?c1)" using assms by (auto simp: conn_inv_def bind_eq_Some_conv)
  obtain r c2 where s: "server_close N n k ?c1 = (r, c2)" by force
  from server_close_marks [OF s len] have "ws_closed (conns c2 ! k)" by blast
  with False k s assms show ?thesis
    by (cases r) (simp_all add: client_close_def Let_def conn_inv_def)
qed auto

lemma conn_reachable_conn_inv: "conn_reachable N n c \<Longrightarrow> conn_inv n c"
proof (induction rule: conn_reachable.induct)
  case (accepted c)
  have s: "seen (newConnContext n c) h i = seen (run_conn_hook n ClientConnected c) h i" for h i
    by (simp add: seen_def newConnContext_def)
  from accepted have z: "seen c h i = 0" "conns c = []" "\<not> Tls c" "server_conn c = None"
    "\<not> client_closed_flag c" for h i
    by (auto simp: Accept_def seen_def)
  have f: "conns (newConnContext n c) = conns c" "Tls (newConnContext n c) = Tls c"
    "server_conn (newConnContext n c) = server_conn c" "client_ctx_set (newConnContext n c)"
    "client_closed_flag (newConnContext n c) = client_closed_flag c"
    by (simp_all add: newConnContext_def)
  show ?case by (simp add: conn_inv_def hooks_balanced_def s seen_run_conn_hook z f)
next
  case (plain c)
  then show ?case
    by (simp add: initHttpServerConn_def newServerConn_def conn_inv_new_server)
next
  case (dialled c d addr)
  then show ?case by (auto simp: plain_dial_def conn_inv_attach split: option.splits)
next
  case (piped c p)
  show ?case by (rule conn_inv_frame [OF piped.IH]) (use piped.IH in \<open>auto simp: conn_inv_def\<close>)
next
  case (connected c d)
  have "sc_conn newServerConn = None" by (simp add: newServerConn_def)
  with connected show ?case
    by (auto simp: initServerTcpConn_def Let_def conn_inv_attach conn_inv_new_server split: option.splits)
next
  case (tls c)
  show ?case
    by (rule conn_inv_frame [OF tls.IH])
      (use tls.hyps tls.IH in \<open>auto simp: initHttpsServerConn_def conn_inv_def split: option.splits\<close>)
next
  case (shaken c shake ins h)
  show ?case
    by (rule conn_inv_frame [OF shaken.IH])
      (use shaken.IH in \<open>auto simp: tlsHandshake_def Let_def conn_inv_def split: option.splits if_splits\<close>)
next
  case (established c)
  then show ?case
    by (auto simp: conn_inv_def hooks_balanced_def seen_run_conn_hook)
next
  case (counted c)
  show ?case by (rule conn_inv_frame [OF counted.IH]) (use counted.IH in \<open>auto simp: conn_inv_def\<close>)
next
  case (last_response c)
  show ?case
    by (rule conn_inv_frame [OF last_response.IH]) (use last_response.IH in \<open>auto simp: conn_inv_def\<close>)
next
  case (intercepted c b)
  show ?case
    by (rule conn_inv_frame [OF intercepted.IH]) (use intercepted.IH in \<open>auto simp: conn_inv_def\<close>)
next
  case (server_closed c k)
  then show ?case by (simp add: conn_inv_server_close)
next
  case (client_closed c)
  then show ?case by (simp add: conn_inv_client_close)
qed


text \<open>
  closing a client connection that was open closes it and the server connection it uses, and
  closing it again, however often, changes nothing, runs no hook and returns the first error.
\<close>

theorem client_close_once:
  assumes "conn_reachable N n c"
  shows "\<exists>e c'. client_close N n c = (Ret e, c') \<and> client_closed_flag c' \<and>
    client_close N n c' = (Ret e, c') \<and>
    ((\<lambda>t. snd (client_close N n t)) ^^ Suc m) c = c' \<and>
    (client_closed_flag c \<or>
       (case Option.bind (server_conn c) sc_conn of None \<Rightarrow> True | Some k \<Rightarrow> ws_closed (conns c' ! k)))"
proof -
  have ctx: "client_ctx_set c" using conn_reachable_conn_inv [OF assms] by (simp add: conn_inv_def)
  from conn_inv_client_close [OF conn_reachable_conn_inv [OF assms], of N] obtain e c' where
    c: "client_close N n c = (Ret e, c')" by (metis prod.collapse)
  have "client_closed_flag c \<or>
      (case Option.bind (server_conn c) sc_conn of None \<Rightarrow> True | Some k \<Rightarrow> ws_closed (conns c' ! k))"
    using client_close_closes_server [OF conn_reachable_conn_inv [OF assms], of N] unfolding c snd_conv .
  with client_conn.close_twice [OF ctx c] client_conn.close_closes [OF ctx c]
    client_conn.close_many [OF ctx, of m N n] c
  show ?thesis by (intro exI [of _ e] exI [of _ c']) simp
qed

section \<open>A concrete connection\<close>

definition sample_net :: net_env where
  "sample_net = \<lparr>close_result = (\<lambda>_. None), dial = (\<lambda>_ _. None)\<rparr>"

definition fresh_conn :: ConnContext where
  "fresh_conn =
     \<lparr>Tls = False, server_conn = None, Intercept = False, FlowCount = 0, pipe_conn = None,
      closeAfterResponse = False, conns = [], client_ctx_set = False,
      client_closed_flag = False, client_closeErr = None, client_read_shut = False,
      hooks_run = []\<rparr>"

definition dialled_conn :: ConnContext where
  "dialled_conn = snd (plain_dial 2 None ''h:80'' (initHttpServerConn (newConnContext 2 fresh_conn)))"

lemma dialled_conn_reachable: "conn_reachable sample_net 2 dialled_conn"
  unfolding dialled_conn_def
  by (intro conn_reachable.dialled conn_reachable.plain conn_reachable.accepted)
    (simp add: Accept_def fresh_conn_def)


theorem client_close_once_witness:
  "\<exists>e c'. client_close sample_net 2 dialled_conn = (Ret e, c') \<and>
     client_close sample_net 2 c' = (Ret e, c') \<and> ws_closed (conns c' ! 0)"
proof -
  from client_close_once [OF dialled_conn_reachable, of 0] obtain e c' where
    c: "client_close sample_net 2 dialled_conn = (Ret e, c')"
    and again: "client_close sample_net 2 c' = (Ret e, c')" by blast
  have "ws_closed (conns (snd (client_close sample_net 2 dialled_conn)) ! 0)" by code_simp
  with c again show ?thesis by auto
qed

section \<open>The handshake and the upstream proxy\<close>

lemma version_loop_bounds:
  "version_loop vs lo hi = (lo', hi') \<Longrightarrow>
     lo' \<in> insert lo (set vs) \<and> hi' \<in> insert hi (set vs) \<and> lo' \<le> lo \<and> hi \<le> hi' \<and>
     (\<forall>v \<in> set vs. lo' \<le> v \<and> v \<le> hi')"
proof (induction vs arbitrary: lo hi)
  case (Cons v vs)
  from Cons.IH [of "if v < lo then v else lo" "if v > hi then v else hi"] Cons.prems
  show ?case by (auto split: if_splits)
qed simp

text \<open>
  C30: the handshake with the server offers a range of protocol versions whose ends the client
  offered and which contains every version the client offered; the server name and the cipher
  suites are the client's.
\<close>

theorem handshake_covers_client:
  assumes "ch_versions h \<noteq> []"
  shows "MinVersion (handshake_config ins h) \<in> set (ch_versions h) \<and>
    MaxVersion (handshake_config ins h) \<in> set (ch_versions h) \<and>
    (\<forall>v \<in> set (ch_versions h). MinVersion (handshake_config ins h) \<le> v \<and>
       v \<le> MaxVersion (handshake_config ins h)) \<and>
    ServerName (handshake_config ins h) = ch_server_name h \<and>
    CipherSuites (handshake_config ins h) = ch_ciphers h"
proof -
  from assms obtain v vs where h: "ch_versions h = v # vs" by (cases "ch_versions h") auto
  obtain lo hi where "version_loop (v # vs) v v = (lo, hi)" by force
  with version_loop_bounds [OF this] h show ?thesis by (auto simp: handshake_config_def)
qed

theorem handshake_covers_client_witness:
  "let h = \<lparr>ch_server_name = ''h'', ch_versions = [0x0304, 0x0303], ch_ciphers = [1]\<rparr>
   in ch_versions h \<noteq> [] \<and> MinVersion (handshake_config False h) \<le> 0x0303"
proof -
  let ?h = "\<lparr>ch_server_name = ''h'', ch_versions = [0x0304, 0x0303], ch_ciphers = [1]\<rparr>"
  from handshake_covers_client [of ?h False] show ?thesis by simp
qed

text \<open>How many of the sockets in a list of events were dialled and not closed again.\<close>

fun open_sockets :: "sock_event list \<Rightarrow> int" where
  "open_sockets [] = 0"
| "open_sockets (Dialled a # es) = 1 + open_sockets es"
| "open_sockets (SentConnect a h # es) = open_sockets es"
| "open_sockets (SockClosed # es) = open_sockets es - 1"

definition dialled_hosts :: "sock_event list \<Rightarrow> string list" where
  "dialled_hosts es = concat (map (\<lambda>e. case e of Dialled a \<Rightarrow> [a] | _ \<Rightarrow> []) es)"

lemma getProxyConn_sockets:
  assumes "getProxyConn dials reply host user address = (err, es)"
  shows "open_sockets es = (if err = None then 1 else 0) \<and> set (dialled_hosts es) \<subseteq> {host} \<and>
    (err = None \<longrightarrow> (\<exists>status. reply address (connect_header user) = ConnectReply 200 status))"
proof (cases "dials host")
  case (Some e)
  with assms have "err = Some e" "es = []" by (simp_all add: getProxyConn_def)
  then show ?thesis by (simp add: dialled_hosts_def)
next
  case None
  with assms show ?thesis
    by (auto simp: getProxyConn_def dialled_hosts_def Let_def
        split: option.splits connect_reply.splits if_splits)
qed

text \<open>Dialled through a proxy: no other host, and used only after it accepted the CONNECT.\<close>

definition dialled_through ::
  "(URL \<Rightarrow> string option) \<Rightarrow> (string \<Rightarrow> header \<Rightarrow> connect_reply) \<Rightarrow> string \<Rightarrow> URL
     \<Rightarrow> gerr option \<Rightarrow> sock_event list \<Rightarrow> bool" where
  "dialled_through user reply address u err es \<longleftrightarrow>
     set (dialled_hosts es) \<subseteq> {u_host u} \<and>
     (err = None \<longrightarrow> (\<exists>status. reply address (connect_header (user u)) = ConnectReply 200 status))"

lemma direct_dial:
  "(err, es) = (case dials address of Some e \<Rightarrow> (Some e, []) | None \<Rightarrow> (None, [Dialled address])) \<Longrightarrow>
     open_sockets es = (if err = None then 1 else 0) \<and> set (dialled_hosts es) \<subseteq> {address}"
  by (cases "dials address") (simp_all add: dialled_hosts_def)

text \<open>
  C27: dialling for an intercepted connection leaks no socket: with an error none is open, and
  without one exactly one is. When an upstream proxy is configured whose URL parses, only this
  proxy is dialled, and the connection is used only after it accepted the CONNECT for the
  address. When the URL that is configured does not parse, it is ignored without an error, and
  only the address itself is dialled. When none is configured, the proxy of the environment is
  used in the same way, if it names one, and its error is returned.
\<close>

theorem getConnFrom_no_leak:
  assumes "getConnFrom P user dials reply address upstream = (err, es)"
  shows "open_sockets es = (if err = None then 1 else 0) \<and>
    (if upstream \<noteq> []
     then (case parse_url P upstream of
             Inr u \<Rightarrow> dialled_through user reply address u err es
           | Inl _ \<Rightarrow> set (dialled_hosts es) \<subseteq> {address} \<and> err = dials address)
     else (case proxy_from_env P \<lparr>u_scheme = ''https'', u_host = address, u_rest = []\<rparr> of
             Inl e \<Rightarrow> err = Some e \<and> es = []
           | Inr None \<Rightarrow> set (dialled_hosts es) \<subseteq> {address} \<and> err = dials address
           | Inr (Some u) \<Rightarrow> dialled_through user reply address u err es))"
proof -
  have proxied: ?thesis if "clientProxy P upstream \<lparr>u_scheme = ''https'', u_host = address, u_rest = []\<rparr> = Inr (Some u)"
    for u
    using that assms getProxyConn_sockets [of dials reply "u_host u" "user u" address err es]
    by (auto simp: getConnFrom_def clientProxy_def dialled_through_def split: if_splits sum.splits)
  have direct: ?thesis if "clientProxy P upstream \<lparr>u_scheme = ''https'', u_host = address, u_rest = []\<rparr> = Inr None"
    using that assms direct_dial [where err = err and es = es and dials = dials and address = address]
    by (auto simp: getConnFrom_def clientProxy_def split: if_splits sum.splits option.splits)
  have failed: ?thesis if "clientProxy P upstream \<lparr>u_scheme = ''https'', u_host = address, u_rest = []\<rparr> = Inl e"
    for e
    using that assms by (auto simp: getConnFrom_def clientProxy_def split: if_splits)
  show ?thesis
  proof (cases "clientProxy P upstream \<lparr>u_scheme = ''https'', u_host = address, u_rest = []\<rparr>")
    case (Inr p)
    then show ?thesis using proxied direct by (cases p) auto
  qed (rule failed)
qed

theorem getConnFrom_no_leak_witness:
  "case getConnFrom \<lparr>parse_url = (\<lambda>_. Inr \<lparr>u_scheme = ''http'', u_host = ''up:1'', u_rest = []\<rparr>),
       proxy_from_env = (\<lambda>_. Inr None)\<rparr> (\<lambda>_. None) (\<lambda>_. None)
       (\<lambda>_ _. ConnectReply 407 ''407 Proxy Authentication Required'') ''a:443'' ''http://up:1'' of
     (err, es) \<Rightarrow> err = Some (EMsg ''Proxy Authentication Required'') \<and> open_sockets es = 0"
proof -
  let ?P = "\<lparr>parse_url = (\<lambda>_. Inr \<lparr>u_scheme = ''http'', u_host = ''up:1'', u_rest = []\<rparr>),
       proxy_from_env = (\<lambda>_. Inr None)\<rparr>"
  let ?x = "getConnFrom ?P (\<lambda>_. None) (\<lambda>_. None)
       (\<lambda>_ _. ConnectReply 407 ''407 Proxy Authentication Required'') ''a:443'' ''http://up:1''"
  obtain err es where x: "?x = (err, es)" by force
  have "fst ?x = Some (EMsg ''Proxy Authentication Required'')" by code_simp
  with getConnFrom_no_leak [OF x] x show ?thesis by simp
qed

text \<open>
  the credentials sent to an upstream proxy never have the form \<open>Basic <credentials>\<close> that
  the header requires: the scheme and the encoded credentials are joined without the space.
\<close>

theorem proxy_auth_malformed:
  "hget (connect_header (Some user)) ''Proxy-Authorization'' = ''Basic'' @ base64 user \<and>
   \<not> has_prefix (hget (connect_header (Some user)) ''Proxy-Authorization'') ''Basic ''"
proof -
  have c: "canonical_key ''Proxy-Authorization'' = ''Proxy-Authorization''" by code_simp
  have g: "hget (connect_header (Some user)) ''Proxy-Authorization'' = ''Basic'' @ base64 user"
    by (simp add: connect_header_def header_simps)
  have "base64 user = [] \<or> hd (base64 user) \<noteq> CHR '' ''"
  proof -
    have "b64_char n \<noteq> CHR '' ''" if "n < 64" for n
    proof -
      have "(of_char (b64_char n) :: nat) \<noteq> 32"
        using that by (auto simp: b64_char_def)
      then show ?thesis by auto
    qed
    moreover have "(of_char a :: nat) div 4 < 64" for a
    proof -
      have "(of_char a :: nat) mod 256 = of_char a" by (metis char_of_char of_char_of)
      then have "(of_char a :: nat) < 256" using mod_less_divisor [of 256 "of_char a :: nat"] by simp
      then show ?thesis by (intro less_mult_imp_div_less) simp
    qed
    ultimately show ?thesis by (cases user rule: base64.cases) (simp_all add: Let_def)
  qed
  then have "\<not> prefix ''Basic '' (''Basic'' @ base64 user)" by (cases "base64 user") auto
  with g show ?thesis by (simp add: has_prefix_def)
qed

end
