(* ===== verification/Proxy_Order.thy ===== *)
theory Proxy_Order
  imports Proxy_Lemmas Conn_Props
begin

text \<open>
  What \<open>ServeHTTP\<close> and \<open>handleConnect\<close> guarantee whatever the addons do: the order of the hooks,
  one status at most, the flow finished exactly once, the handler returns, and what the client
  gets when an addon panics. The guarantees are composed from those of the stages.
\<close>

section \<open>Returning, and panics\<close>

text \<open>
  No intercepting client of the connection waits for a handshake. The server that decrypts the
  client only calls the handler after \<open>tlsHandshake\<close> closed the channel.
\<close>

definition handshaked :: "ConnContext \<Rightarrow> bool" where
  "handshaked c \<longleftrightarrow>
     (case server_conn c of None \<Rightarrow> True
      | Some sc \<Rightarrow> sc_client sc = Some TlsClient \<longrightarrow> sc_tls sc \<noteq> Pending)"

text \<open>A stage returns, and one that panics has not answered the client.\<close>

definition stage_safe :: "('s serve \<Rightarrow> 'a ctl \<times> 's serve) \<Rightarrow> bool" where
  "stage_safe m \<longleftrightarrow>
     (\<forall>s. handshaked (sv_conn s) \<longrightarrow>
        fst (m s) \<noteq> Blocked \<and> handshaked (sv_conn (snd (m s))) \<and>
        (is_go (fst (m s)) \<longrightarrow> sv_rw (snd (m s)) = sv_rw s) \<and>
        (\<forall>p. fst (m s) = Raise p \<longrightarrow>
           rw_status (sv_rw (snd (m s))) = rw_status (sv_rw s) \<and>
           rw_body (sv_rw (snd (m s))) = rw_body (sv_rw s)))"

lemma stage_safeI:
  fixes m :: "'s serve \<Rightarrow> 'a ctl \<times> 's serve"
  assumes "\<And>s r s'. m s = (r, s') \<Longrightarrow> handshaked (sv_conn s) \<Longrightarrow> r \<noteq> Blocked"
    and "\<And>s r s'. m s = (r, s') \<Longrightarrow> handshaked (sv_conn s) \<Longrightarrow> handshaked (sv_conn s')"
    and "\<And>s r s'. m s = (r, s') \<Longrightarrow> is_go r \<Longrightarrow> sv_rw s' = sv_rw s"
    and "\<And>s p s'. m s = (Raise p, s') \<Longrightarrow>
      rw_status (sv_rw s') = rw_status (sv_rw s) \<and> rw_body (sv_rw s') = rw_body (sv_rw s)"
  shows "stage_safe m"
  unfolding stage_safe_def
proof (intro allI impI conjI)
  fix s :: "'s serve" assume h: "handshaked (sv_conn s)"
  have m: "m s = (fst (m s), snd (m s))" by simp
  show "fst (m s) \<noteq> Blocked" by (rule assms(1) [OF m h])
  show "handshaked (sv_conn (snd (m s)))" by (rule assms(2) [OF m h])
  show "is_go (fst (m s)) \<Longrightarrow> sv_rw (snd (m s)) = sv_rw s" by (rule assms(3) [OF m])
  fix p assume "fst (m s) = Raise p"
  with m have "m s = (Raise p, snd (m s))" by simp
  from assms(4) [OF this] show "rw_status (sv_rw (snd (m s))) = rw_status (sv_rw s)"
    and "rw_body (sv_rw (snd (m s))) = rw_body (sv_rw s)" by simp_all
qed

lemma stage_safeD:
  assumes "stage_safe m" and "m s = (r, s')" and "handshaked (sv_conn s)"
  shows "r \<noteq> Blocked" and "handshaked (sv_conn s')" and "is_go r \<Longrightarrow> sv_rw s' = sv_rw s"
    and "r = Raise p \<Longrightarrow> rw_status (sv_rw s') = rw_status (sv_rw s) \<and> rw_body (sv_rw s') = rw_body (sv_rw s)"
  using assms(1) [unfolded stage_safe_def, rule_format, OF assms(3)] assms(2) by auto

lemma stage_safe_seq:
  fixes m :: "'s serve \<Rightarrow> 'a ctl \<times> 's serve"
  assumes m: "stage_safe m" and k: "\<And>x. stage_safe (k x)"
  shows "stage_safe (seq m k)"
  unfolding stage_safe_def
proof (intro allI impI)
  fix s :: "'s serve" assume h: "handshaked (sv_conn s)"
  obtain r1 s1 where 1: "m s = (r1, s1)" by force
  note m1 = stage_safeD [OF m 1 h]
  let ?x = "seq m k s"
  show "fst ?x \<noteq> Blocked \<and> handshaked (sv_conn (snd ?x)) \<and>
      (is_go (fst ?x) \<longrightarrow> sv_rw (snd ?x) = sv_rw s) \<and>
      (\<forall>p. fst ?x = Raise p \<longrightarrow> rw_status (sv_rw (snd ?x)) = rw_status (sv_rw s) \<and>
         rw_body (sv_rw (snd ?x)) = rw_body (sv_rw s))"
  proof (cases r1)
    case (Go x)
    obtain r s' where 2: "k x s1 = (r, s')" by force
    note k1 = stage_safeD [OF k 2 m1(2)]
    have "sv_rw s1 = sv_rw s" using m1(3) Go by (simp add: is_go_def)
    with Go 1 2 k1 show ?thesis by (auto simp: seq_def)
  qed (use 1 m1 in \<open>auto simp: seq_def is_go_def\<close>)
qed

text \<open>A stage after an update of fields that no guarantee mentions.\<close>

lemma stage_safe_from:
  assumes "stage_safe m" and "\<And>s. sv_rw (g s) = sv_rw s"
    and "\<And>s. handshaked (sv_conn s) \<Longrightarrow> handshaked (sv_conn (g s))"
  shows "stage_safe (\<lambda>s. m (g s))"
  using assms unfolding stage_safe_def by simp

lemma stage_safe_if: "stage_safe m \<Longrightarrow> stage_safe m' \<Longrightarrow> stage_safe (\<lambda>s. if b s then m s else m' s)"
  unfolding stage_safe_def by simp

lemma stage_safe_update:
  assumes "\<And>s. sv_rw (g s) = sv_rw s" and "\<And>s. handshaked (sv_conn s) \<Longrightarrow> handshaked (sv_conn (g s))"
  shows "stage_safe (\<lambda>s. (Go (f s), g s))" and "stage_safe (\<lambda>s. (Raise p, g s))"
  by (rule stage_safeI; use assms in auto)+

lemma WriteHeader_panic: "WriteHeader c r = (Panicked p, r') \<Longrightarrow> r' = r"
  by (auto simp: WriteHeader_def split: if_splits)

lemma leave_with_safe: "stage_safe (leave_with c)"
  by (rule stage_safeI)
    (auto simp: leave_with_def is_go_def split: prod.splits outcome.splits dest: WriteHeader_panic)

lemma leave_reply_safe: "stage_safe (leave_reply rp b)"
  by (rule stage_safeI)
    (auto simp: leave_reply_def reply_def is_go_def split: prod.splits outcome.splits dest!: WriteHeader_panic)

lemma run_hooks_safe:
  fixes sel :: "'s addon_ops \<Rightarrow> 's hook"
  shows "stage_safe (run_hooks name sel stop i as)"
proof (induction as arbitrary: i)
  case Nil
  then show ?case by (rule stage_safeI) auto
next
  case (Cons a as)
  show ?case
    unfolding stage_safe_def
  proof (intro allI impI)
    fix s :: "'s serve" assume h: "handshaked (sv_conn s)"
    obtain r1 s1 where 1: "run_hook name i (sel a) s = (r1, s1)" by force
    then have f: "sv_rw s1 = sv_rw s" "sv_conn s1 = sv_conn s"
      by (auto simp: run_hook_def split: prod.splits)
    obtain x where x: "stop (sv_flow s1) = x" by simp
    note leave = leave_reply_safe [unfolded stage_safe_def, rule_format, of s1]
      and rest = Cons.IH [of "Suc i", unfolded stage_safe_def, rule_format, of s1]
    from h f have h1: "handshaked (sv_conn s1)" by simp
    let ?x = "run_hooks name sel stop i (a # as) s"
    show "fst ?x \<noteq> Blocked \<and> handshaked (sv_conn (snd ?x)) \<and>
        (is_go (fst ?x) \<longrightarrow> sv_rw (snd ?x) = sv_rw s) \<and>
        (\<forall>p. fst ?x = Raise p \<longrightarrow> rw_status (sv_rw (snd ?x)) = rw_status (sv_rw s) \<and>
           rw_body (sv_rw (snd ?x)) = rw_body (sv_rw s))"
    proof (cases r1)
      case (Panicked p)
      with 1 f h1 show ?thesis by (simp add: is_go_def)
    next
      case Ret
      note run = 1 Ret x
      show ?thesis
      proof (cases x)
        case (Panicked p)
        with run f h1 show ?thesis by (simp add: is_go_def)
      next
        case (Ret y)
        with run f leave [OF h1] rest [OF h1] show ?thesis by (cases y) simp_all
      qed
    qed
  qed
qed

lemma run_modifiers_safe:
  fixes sel :: "'s addon_ops \<Rightarrow> 's modifier"
  shows "stage_safe (run_modifiers name sel i as x)"
proof (induction as arbitrary: i x)
  case Nil
  then show ?case by (rule stage_safeI) auto
next
  case (Cons a as)
  show ?case
    unfolding stage_safe_def
  proof (intro allI impI)
    fix s :: "'s serve" assume h: "handshaked (sv_conn s)"
    obtain r1 f st where 1: "sel a (sv_flow s) x (sv_addons s) = (r1, f, st)" by (metis prod_cases3)
    define s1 where "s1 = s\<lparr>sv_flow := f\<lparr>f_done := f_done (sv_flow s)\<rparr>, sv_addons := st,
        sv_trace := sv_trace s @ [(name, i)]\<rparr>"
    have s1: "sv_rw s1 = sv_rw s" "handshaked (sv_conn s1)" using h by (simp_all add: s1_def)
    note rest = Cons.IH [of "Suc i", unfolded stage_safe_def, rule_format, of s1]
    let ?x = "run_modifiers name sel i (a # as) x s"
    show "fst ?x \<noteq> Blocked \<and> handshaked (sv_conn (snd ?x)) \<and>
        (is_go (fst ?x) \<longrightarrow> sv_rw (snd ?x) = sv_rw s) \<and>
        (\<forall>p. fst ?x = Raise p \<longrightarrow> rw_status (sv_rw (snd ?x)) = rw_status (sv_rw s) \<and>
           rw_body (sv_rw (snd ?x)) = rw_body (sv_rw s))"
      using 1 s1 rest by (cases r1) (simp_all add: s1_def [symmetric] is_go_def)
  qed
qed

text \<open>A property of the state that a stage keeps, whatever its outcome.\<close>

definition keeps :: "('s serve \<Rightarrow> bool) \<Rightarrow> ('s serve \<Rightarrow> 'a ctl \<times> 's serve) \<Rightarrow> bool" where
  "keeps Q m \<longleftrightarrow> (\<forall>s. Q s \<longrightarrow> Q (snd (m s)))"

lemma keepsD: "keeps Q m \<Longrightarrow> m s = (r, s') \<Longrightarrow> Q s \<Longrightarrow> Q s'"
  unfolding keeps_def by (metis snd_conv)

lemma keeps_seq:
  fixes m :: "'s serve \<Rightarrow> 'a ctl \<times> 's serve"
  assumes "keeps Q m" and "\<And>x. keeps Q (k x)"
  shows "keeps Q (seq m k)"
  unfolding keeps_def
proof (intro allI impI)
  fix s :: "'s serve" assume q: "Q s"
  obtain r1 s1 where 1: "m s = (r1, s1)" by force
  from keepsD [OF assms(1) 1 q] have "Q s1" .
  with assms(2) 1 show "Q (snd (seq m k s))"
    by (cases r1) (auto simp: seq_def keeps_def)
qed

lemma keeps_from: "keeps Q m \<Longrightarrow> (\<And>s. Q s \<Longrightarrow> Q (g s)) \<Longrightarrow> keeps Q (\<lambda>s. m (g s))"
  by (simp add: keeps_def)

section \<open>The stages\<close>

lemma exchange_safe: "stage_safe (exchange V q)"
  by (rule stage_safeI) (auto simp: exchange_def Let_def split: sum.splits)

lemma plain_dial_handshaked:
  "handshaked c \<Longrightarrow> handshaked (snd (plain_dial n d addr c))"
  by (auto simp: plain_dial_def attach_conn_def handshaked_def split: option.splits)

lemma client_Do_safe: "stage_safe (client_Do V n q)"
proof (rule stage_safeI)
  fix s r and s' :: "'a serve" assume run: "client_Do V n q s = (r, s')"
  note ex = exchange_def Let_def
  show "is_go r \<Longrightarrow> sv_rw s' = sv_rw s"
    using run by (auto simp: client_Do_def ex split: if_splits option.splits http_client.splits
        outcome.splits prod.splits sum.splits)
  assume h: "handshaked (sv_conn s)"
  show "r \<noteq> Blocked"
    using run h by (auto simp: client_Do_def ex tls_dial_def handshaked_def split: if_splits
        option.splits http_client.splits outcome.splits prod.splits sum.splits handshake.splits)
  have "sv_conn s' = sv_conn s \<or> (\<exists>d addr. sv_conn s' = snd (plain_dial n d addr (sv_conn s)))"
    using run by (auto simp: client_Do_def ex split: if_splits option.splits http_client.splits
        outcome.splits prod.splits sum.splits) (metis snd_conv)+
  with h plain_dial_handshaked show "handshaked (sv_conn s')" by metis
next
  fix s p and s' :: "'a serve" assume run: "client_Do V n q s = (Raise p, s')"
  show "rw_status (sv_rw s') = rw_status (sv_rw s) \<and> rw_body (sv_rw s') = rw_body (sv_rw s)"
    using run by (auto simp: client_Do_def exchange_def Let_def split: if_splits option.splits
        http_client.splits outcome.splits prod.splits sum.splits)
qed

lemma request_stage_safe: "stage_safe (request_stage V addons body)"
proof -
  have go: "stage_safe (\<lambda>s2. (Go (g s2), s2))" for g :: "'a serve \<Rightarrow> reader option"
    by (rule stage_safe_update) simp_all
  have "stage_safe (\<lambda>s. case readerToBuffer body (sv_limit V) of
        Inl err \<Rightarrow> leave_with 502 s
      | Inr (None, r) \<Rightarrow> (Go r, s\<lparr>sv_flow := (sv_flow s)\<lparr>f_stream := True\<rparr>\<rparr>)
      | Inr (Some reqBuf, _) \<Rightarrow>
          seq (run_hooks HRequest on_Request stop_on_response 0 addons)
            (\<lambda>_ s2. (Go (Some (bytes_reader (r_body (f_request (sv_flow s2))))), s2))
            (s\<lparr>sv_flow := (sv_flow s)\<lparr>f_request := (f_request (sv_flow s))\<lparr>r_body := reqBuf\<rparr>\<rparr>\<rparr>))"
  proof (cases "readerToBuffer body (sv_limit V)")
    case (Inr x)
    obtain b r where "x = (b, r)" by force
    with Inr show ?thesis
      by (cases b) (auto intro!: stage_safe_update stage_safe_from [OF stage_safe_seq [OF run_hooks_safe go]])
  qed (simp add: leave_with_safe)
  moreover have "stage_safe (\<lambda>s :: 'a serve. (Go (Some body), s))"
    by (rule stage_safe_update) simp_all
  ultimately show ?thesis unfolding request_stage_def by (intro stage_safe_if)
qed

lemma initHttpServerConn_handshaked: "handshaked c \<Longrightarrow> handshaked (initHttpServerConn c)"
  by (simp add: initHttpServerConn_def handshaked_def newServerConn_def)

lemma forward_stage_safe:
  fixes addons :: "'a addon_ops list"
  shows "stage_safe (forward_stage V addons b)"
  unfolding forward_stage_def
proof (rule stage_safe_seq [OF run_modifiers_safe])
  fix x
  have got: "stage_safe (\<lambda>s2. case r of
       Inl err \<Rightarrow> leave_with 502 s2
     | Inr proxyRes \<Rightarrow> (Go proxyRes, s2\<lparr>sv_open_bodies := Suc (sv_open_bodies s2)\<rparr>))" for r
    by (cases r) (auto simp: leave_with_safe intro!: stage_safe_update)
  have go: "stage_safe (seq (client_Do V (length addons) q)
      (\<lambda>r s2. case r of
         Inl err \<Rightarrow> leave_with 502 s2
       | Inr proxyRes \<Rightarrow> (Go proxyRes, s2\<lparr>sv_open_bodies := Suc (sv_open_bodies s2)\<rparr>)))" for q
    by (rule stage_safe_seq [OF client_Do_safe got])
  show "stage_safe (\<lambda>s :: 'a serve. case new_request (sv_env V) (r_method (f_request (sv_flow s)))
        (url_string (r_url (f_request (sv_flow s)))) (case x of None \<Rightarrow> bytes_reader [] | Some b \<Rightarrow> b) of
       Inl err \<Rightarrow> leave_with 502 s
     | Inr proxyReq0 \<Rightarrow>
         (let proxyReq = proxyReq0\<lparr>hq_header := add_headers (hq_header proxyReq0)
                (r_header (f_request (sv_flow s)))\<rparr>;
              s1 = s\<lparr>sv_conn := initHttpServerConn (sv_conn s)\<rparr>
          in seq (client_Do V (length addons) proxyReq)
               (\<lambda>r s2. case r of
                  Inl err \<Rightarrow> leave_with 502 s2
                | Inr proxyRes \<Rightarrow> (Go proxyRes, s2\<lparr>sv_open_bodies := Suc (sv_open_bodies s2)\<rparr>)) s1))"
    (is "stage_safe ?m")
    unfolding stage_safe_def
  proof (intro allI impI)
    fix s :: "'a serve" assume h: "handshaked (sv_conn s)"
    show "fst (?m s) \<noteq> Blocked \<and> handshaked (sv_conn (snd (?m s))) \<and>
        (is_go (fst (?m s)) \<longrightarrow> sv_rw (snd (?m s)) = sv_rw s) \<and>
        (\<forall>p. fst (?m s) = Raise p \<longrightarrow> rw_status (sv_rw (snd (?m s))) = rw_status (sv_rw s) \<and>
           rw_body (sv_rw (snd (?m s))) = rw_body (sv_rw s))"
    proof (cases "new_request (sv_env V) (r_method (f_request (sv_flow s)))
        (url_string (r_url (f_request (sv_flow s)))) (case x of None \<Rightarrow> bytes_reader [] | Some b \<Rightarrow> b)")
      case (Inl e)
      with leave_with_safe [unfolded stage_safe_def, rule_format, OF h] show ?thesis by simp
    next
      case (Inr q)
      with go [unfolded stage_safe_def, rule_format, of "s\<lparr>sv_conn := initHttpServerConn (sv_conn s)\<rparr>"]
        initHttpServerConn_handshaked [OF h] show ?thesis by (simp add: Let_def)
    qed
  qed
qed

lemma stage_safe_response:
  "stage_safe m0 \<Longrightarrow> (\<And>rp. stage_safe (m rp)) \<Longrightarrow>
     stage_safe (\<lambda>s. case f_response (sv_flow s) of None \<Rightarrow> m0 s | Some rp \<Rightarrow> m rp s)"
  unfolding stage_safe_def by (simp split: option.split)

lemma response_stage_safe: "stage_safe (response_stage V addons res)"
proof -
  have go: "stage_safe (\<lambda>s2. (Go r, s2))" for r :: "reader option"
    by (rule stage_safe_update) simp_all
  have hooks: "stage_safe (\<lambda>s3. case f_response (sv_flow s3) of
        None \<Rightarrow> (Raise NilDeref, s3)
      | Some response \<Rightarrow>
          seq (run_hooks HResponse on_Response never_stop 0 addons) (\<lambda>_ s4. (Go r, s4))
            (s3\<lparr>sv_flow := (sv_flow s3)\<lparr>f_response := Some (response\<lparr>s_body := Some resBuf\<rparr>)\<rparr>\<rparr>))"
    for r :: "reader option" and resBuf
    by (rule stage_safe_response, rule stage_safe_update; simp?)
      (auto intro!: stage_safe_from [OF stage_safe_seq [OF run_hooks_safe go]])
  have "stage_safe (\<lambda>s3. case readerToBuffer (hp_body res) (sv_limit V) of
        Inl err \<Rightarrow> leave_with 502 s3
      | Inr (None, r) \<Rightarrow> (Go r, s3\<lparr>sv_flow := (sv_flow s3)\<lparr>f_stream := True\<rparr>\<rparr>)
      | Inr (Some resBuf, r) \<Rightarrow>
          (case f_response (sv_flow s3) of
             None \<Rightarrow> (Raise NilDeref, s3)
           | Some response \<Rightarrow>
               seq (run_hooks HResponse on_Response never_stop 0 addons) (\<lambda>_ s4. (Go r, s4))
                 (s3\<lparr>sv_flow := (sv_flow s3)\<lparr>f_response := Some (response\<lparr>s_body := Some resBuf\<rparr>)\<rparr>\<rparr>)))"
  proof (cases "readerToBuffer (hp_body res) (sv_limit V)")
    case (Inr x)
    obtain b r where "x = (b, r)" by force
    with Inr hooks show ?thesis by (cases b) (auto intro!: stage_safe_update)
  qed (simp add: leave_with_safe)
  note body = stage_safe_if [OF go this]
  show ?thesis
    unfolding response_stage_def Let_def
    by (rule stage_safe_from [OF stage_safe_seq [OF run_hooks_safe body]])
      (simp_all add: handshaked_def)
qed

lemma reply_stage_safe: "stage_safe (reply_stage addons b)"
  unfolding reply_stage_def
  by (rule stage_safe_seq [OF run_modifiers_safe], rule stage_safe_response, rule stage_safe_update)
    (simp_all add: leave_reply_safe)

section \<open>The order of the hooks\<close>

text \<open>The kinds of hooks, ordered by the time at which a request meets them.\<close>

fun hook_rank :: "hook_name \<Rightarrow> nat" where
  "hook_rank HRequestheaders = 0"
| "hook_rank HRequest = 1"
| "hook_rank HStreamRequest = 2"
| "hook_rank HResponseheaders = 3"
| "hook_rank HResponse = 4"
| "hook_rank HStreamResponse = 5"

lemma hook_rank_inject: "hook_rank x = hook_rank y \<Longrightarrow> x = y"
  by (cases x; cases y) simp_all

instantiation hook_name :: linorder
begin

definition less_eq_hook_name :: "hook_name \<Rightarrow> hook_name \<Rightarrow> bool" where
  "less_eq_hook_name x y \<longleftrightarrow> hook_rank x \<le> hook_rank y"

definition less_hook_name :: "hook_name \<Rightarrow> hook_name \<Rightarrow> bool" where
  "less_hook_name x y \<longleftrightarrow> hook_rank x < hook_rank y"

instance
  by standard (auto simp: less_eq_hook_name_def less_hook_name_def intro: hook_rank_inject)

end

lemma hook_seq_member:
  "hook_seq xs n c t \<Longrightarrow> (y, i) \<in> set t \<Longrightarrow> y \<in> fst ` set xs \<and> i < n"
proof (induction xs n c t rule: hook_seq.induct)
  case (2 x optional xs n c t)
  then obtain k u where u: "t = map (Pair x) [0..<k] @ u" "k \<le> n" "hook_seq xs n c u" by auto
  with "2.IH" [OF u(3)] "2.prems"(2) show ?case by auto
qed simp

lemma hook_seq_sorted:
  "hook_seq xs n c t \<Longrightarrow> sorted (map fst xs) \<Longrightarrow> distinct (map fst xs) \<Longrightarrow>
     sorted (map fst t) \<and> distinct t"
proof (induction xs n c t rule: hook_seq.induct)
  case (2 x optional xs n c t)
  then obtain k u where u: "t = map (Pair x) [0..<k] @ u" "hook_seq xs n c u" by auto
  from 2 u have "sorted (map fst u) \<and> distinct u" by auto
  moreover have "x \<le> fst y \<and> x \<noteq> fst y" if "y \<in> set u" for y
  proof -
    have "fst y \<in> fst ` set xs"
      using hook_seq_member [OF u(2), of "fst y" "snd y"] \<open>y \<in> set u\<close> by simp
    then obtain z where "z \<in> set xs" "fst y = fst z" by blast
    with "2.prems"(2,3) show ?thesis by auto
  qed
  ultimately show ?case
    using u(1) by (auto simp: sorted_append distinct_map inj_on_def comp_def map_replicate_const) blast
qed simp

section \<open>The whole handler\<close>

definition serve_order :: "(hook_name \<times> bool) list" where
  "serve_order =
     [(HRequestheaders, False), (HRequest, True), (HStreamRequest, False),
      (HResponseheaders, False), (HResponse, True), (HStreamResponse, False)]"

lemma serve_order_sorted: "sorted (map fst serve_order)" "distinct (map fst serve_order)"
  by (simp_all add: serve_order_def less_eq_hook_name_def)

lemma serve_body_ok: "stage_ok serve_order (length addons) (serve_body V addons req)"
proof -
  have "stage_ok ([(HRequestheaders, False)] @ [(HRequest, True)] @ [(HStreamRequest, False)] @
      [(HResponseheaders, False), (HResponse, True)] @ [(HStreamResponse, False)]) (length addons)
      (seq (run_hooks HRequestheaders on_Requestheaders stop_on_response 0 addons)
       (\<lambda>_. seq (request_stage V addons (in_body req))
         (\<lambda>reqBody. seq (forward_stage V addons reqBody)
           (\<lambda>proxyRes. seq (response_stage V addons proxyRes)
             (\<lambda>resBody. reply_stage addons resBody)))))"
    by (intro stage_ok_seq run_hooks_ok request_stage_ok forward_stage_ok response_stage_ok reply_stage_ok)
  then show ?thesis
    unfolding serve_body_def serve_order_def append.simps by (rule stage_ok_pre) simp_all
qed

lemma serve_body_safe: "stage_safe (serve_body V addons req)"
  unfolding serve_body_def
  by (rule stage_safe_from, intro stage_safe_seq run_hooks_safe request_stage_safe forward_stage_safe
      response_stage_safe reply_stage_safe) (simp_all add: handshaked_def)

lemma serve_body_not_go: "\<not> is_go (fst (serve_body V addons req s))"
  by (auto simp: serve_body_def seq_def reply_stage_def leave_reply_def is_go_def
      split: ctl.splits prod.splits option.splits outcome.splits)

lemma start_flow_fields [flow_simps]:
  "sv_conn (start_flow req s) = sv_conn s" "sv_rw (start_flow req s) = sv_rw s"
  "sv_trace (start_flow req s) = sv_trace s" "sv_addons (start_flow req s) = sv_addons s"
  "sv_sent (start_flow req s) = sv_sent s" "sv_tick (start_flow req s) = sv_tick s"
  "f_done (sv_flow (start_flow req s)) = 0" "f_stream (sv_flow (start_flow req s)) = False"
  "f_response (sv_flow (start_flow req s)) = None" "UseSeparateClient (sv_flow (start_flow req s)) = False"
  by (simp_all add: start_flow_def newFlow_def)

text \<open>A request the proxy forwards: not CONNECT, and with an absolute URL.\<close>

definition proxied :: "incoming \<Rightarrow> bool" where
  "proxied req \<longleftrightarrow> in_method req \<noteq> ''CONNECT'' \<and> url_is_abs (in_url req) \<and> u_host (in_url req) \<noteq> []"

lemma ServeHTTP_proxied:
  "proxied req \<Longrightarrow> ServeHTTP V addons req s = serve_deferred (serve_body V addons req (start_flow req s))"
  by (simp add: proxied_def ServeHTTP_def ServeHTTP_plain_def)

lemma new_rw_fields [simp]:
  "rw_status new_rw = None" "rw_superfluous new_rw = 0" "rw_body new_rw = []" "rw_header new_rw = []"
  "rw_info new_rw = []"
  by (simp_all add: new_rw_def)

lemma ServeHTTP_ordered:
  assumes "ServeHTTP V addons req s = (r, s')" and "proxied req" and "sv_rw s = new_rw"
    and "handshaked (sv_conn s)"
  shows "r = Leave \<and> f_done (sv_flow s') = 1 \<and> sv_open_bodies s' = 0 \<and> rw_superfluous (sv_rw s') = 0 \<and>
    (\<exists>t. sv_trace s' = sv_trace s @ t \<and> hook_seq serve_order (length addons) False t)"
proof -
  obtain r1 s1 where b: "serve_body V addons req (start_flow req s) = (r1, s1)" by force
  have "r1 \<noteq> Blocked" using stage_safeD(1) [OF serve_body_safe b] assms(4) by (simp add: flow_simps)
  with assms(1,2) b have s': "r = Leave" "s' = s1\<lparr>sv_open_bodies := 0, sv_flow := finish (sv_flow s1)\<rparr>"
    by (auto simp: ServeHTTP_proxied serve_deferred_def)
  have "\<not> is_go r1" using serve_body_not_go [of V addons req "start_flow req s"] b by simp
  with stage_okD [OF serve_body_ok b] s' assms(3) show ?thesis
    by (simp add: flow_simps finish_def)
qed

text \<open>
  C4: a proxied request is handled to the end whatever the addons do: the handler returns, the
  flow is finished exactly once, the body of the server's answer is closed, a second status is
  never written, and the hooks run kind by kind in the documented order, no hook twice, each
  kind for the addons from the first on; a kind is only cut short where the handler ends or
  skips it whole.
\<close>

theorem ServeHTTP_hook_order:
  assumes "ServeHTTP V addons req s = (r, s')" and "proxied req" and "sv_rw s = new_rw"
    and "handshaked (sv_conn s)"
  shows "r = Leave \<and> f_done (sv_flow s') = 1 \<and> sv_open_bodies s' = 0 \<and> rw_superfluous (sv_rw s') = 0 \<and>
    (\<exists>t. sv_trace s' = sv_trace s @ t \<and> hook_seq serve_order (length addons) False t \<and>
       sorted (map fst t) \<and> distinct t)"
  using ServeHTTP_ordered [OF assms] hook_seq_sorted [OF _ serve_order_sorted] by blast

lemma ServeHTTP_raised:
  assumes "serve_body V addons req (start_flow req s) = (Raise p, s1)" and "proxied req"
    and "sv_rw s = new_rw" and "handshaked (sv_conn s)"
  shows "\<exists>s'. ServeHTTP V addons req s = (Leave, s') \<and> sv_sent s' = sv_sent s1 \<and>
    rw_status (rw_finish (sv_rw s')) = Some 200 \<and> rw_body (rw_finish (sv_rw s')) = [] \<and>
    f_done (sv_flow s') = 1 \<and> sv_open_bodies s' = 0"
proof -
  have h: "handshaked (sv_conn (start_flow req s))" using assms(4) by (simp add: flow_simps)
  from stage_safeD(4) [OF serve_body_safe assms(1) h refl] assms(3)
  have "rw_status (sv_rw s1) = None" "rw_body (sv_rw s1) = []" by (simp_all add: flow_simps)
  moreover have "f_done (sv_flow s1) = 0"
    using stage_okD(1) [OF serve_body_ok assms(1)] by (simp add: flow_simps)
  ultimately show ?thesis
    using assms(1,2)
    by (simp add: ServeHTTP_proxied serve_deferred_def finish_def rw_finish_def WriteHeader_def)
qed

text \<open>
  C13: when a hook panics, or anything else in the handler, the panic is recovered and logged, and
  the client, which was not answered yet, gets an empty answer with status 200: it cannot tell
  a failure of an addon from a server that sent nothing.
\<close>

theorem hook_panic_empty_200:
  assumes "serve_body V addons req (start_flow req s) = (Raise p, s1)" and "proxied req"
    and "sv_rw s = new_rw" and "handshaked (sv_conn s)"
  shows "\<exists>s'. ServeHTTP V addons req s = (Leave, s') \<and> sv_sent s' = sv_sent s1 \<and>
    rw_status (rw_finish (sv_rw s')) = Some 200 \<and> rw_body (rw_finish (sv_rw s')) = [] \<and>
    f_done (sv_flow s') = 1 \<and> sv_open_bodies s' = 0"
  using ServeHTTP_raised [OF assms] .

section \<open>CONNECT\<close>

lemma run_hooks_never:
  assumes "run_hooks name sel never_stop i as s = (r, s')"
  shows "(is_go r \<or> (\<exists>p. r = Raise p)) \<and> sv_rw s' = sv_rw s \<and> sv_conn s' = sv_conn s"
  using assms
proof (induction as arbitrary: i s)
  case (Cons a as)
  obtain r1 s1 where 1: "run_hook name i (sel a) s = (r1, s1)" by force
  then have f: "sv_rw s1 = sv_rw s" "sv_conn s1 = sv_conn s"
    by (auto simp: run_hook_def split: prod.splits)
  show ?case
  proof (cases r1)
    case Ret
    moreover have "never_stop (sv_flow s1) = Ret None" by (simp add: never_stop_def)
    ultimately have "run_hooks name sel never_stop (Suc i) as s1 = (r, s')"
      using 1 Cons.prems by simp
    from Cons.IH [OF this] f show ?thesis by simp
  qed (use 1 Cons.prems f in auto)
qed (auto simp: is_go_def)

lemma middle_dial_value:
  "fst (middle_dial n d req c) = Ret d \<and> client_ctx_set (snd (middle_dial n d req c)) = client_ctx_set c"
  by (auto simp: middle_dial_def initServerTcpConn_def newPipes_def attach_conn_def close_pipe_conn_def
      Let_def split: option.splits)

lemma connect_dialled_value:
  assumes "connect_dialled V addons req b s = (r, s')"
  shows "r = Ret (connect_dial V) \<and> client_ctx_set (sv_conn s') = client_ctx_set (sv_conn s) \<and>
    sv_rw s' = sv_rw s \<and> sv_trace s' = sv_trace s \<and> sv_flow s' = sv_flow s"
  using assms middle_dial_value [of "length addons" "connect_dial V" req "sv_conn s"]
  by (auto simp: connect_dialled_def split: if_splits prod.splits)

definition connect_order :: "(hook_name \<times> bool) list" where
  "connect_order = [(HRequestheaders, False), (HResponseheaders, False), (HResponse, False)]"

text \<open>The tunnel after the answer to the client.\<close>

lemma established_tunnel_hooks:
  assumes "established_tunnel V addons cn = (r, cn')"
  shows "(r = Leave \<or> (\<exists>p. r = Raise p)) \<and>
    sv_rw (cn_serve cn') = sv_rw (cn_serve cn) \<and> sv_conn (cn_serve cn') = sv_conn (cn_serve cn) \<and>
    f_done (sv_flow (cn_serve cn')) = f_done (sv_flow (cn_serve cn)) \<and>
    (\<exists>t. sv_trace (cn_serve cn') = sv_trace (cn_serve cn) @ t \<and>
       hook_seq [(HResponseheaders, False), (HResponse, False)] (length addons) False t)"
proof (cases "established_err V")
  case (Some e)
  with assms show ?thesis
    using hook_seq_ended [of "[(HResponseheaders, False), (HResponse, False)]" "length addons"]
    by (auto simp: established_tunnel_def)
next
  case None
  let ?m = "seq (run_hooks HResponseheaders on_Responseheaders never_stop 0 addons)
    (\<lambda>_. run_hooks HResponse on_Response never_stop 0 addons)"
  define s1 where "s1 = (cn_serve cn)\<lparr>sv_flow := (sv_flow (cn_serve cn))\<lparr>f_response :=
    Some (new_response 200 (Some []) False)\<rparr>\<rparr>"
  obtain r2 s2 where run: "?m s1 = (r2, s2)" by force
  have "stage_ok ([(HResponseheaders, False)] @ [(HResponse, False)]) (length addons) ?m"
    by (intro stage_ok_seq run_hooks_ok)
  note ok = stage_okD [OF this run]
  obtain ra sa where a: "run_hooks HResponseheaders on_Responseheaders never_stop 0 addons s1 = (ra, sa)"
    by force
  obtain rb sb where b: "run_hooks HResponse on_Response never_stop 0 addons sa = (rb, sb)" by force
  note ab = run_hooks_never [OF a] run_hooks_never [OF b]
  have s1: "sv_rw s1 = sv_rw (cn_serve cn)" "sv_conn s1 = sv_conn (cn_serve cn)"
    "sv_trace s1 = sv_trace (cn_serve cn)" "f_done (sv_flow s1) = f_done (sv_flow (cn_serve cn))"
    by (simp_all add: s1_def)
  have cn': "cn_serve cn' = s2 \<and> (r = Leave \<or> (\<exists>p. r = Raise p)) \<and> sv_rw s2 = sv_rw s1 \<and> sv_conn s2 = sv_conn s1"
    using assms None run a b ab unfolding s1_def [symmetric]
    by (auto simp: established_tunnel_def s1_def [symmetric] seq_def is_go_def Let_def split: ctl.splits)
  from ok(2) obtain t where t: "sv_trace s2 = sv_trace s1 @ t"
    "hook_seq [(HResponseheaders, False), (HResponse, False)] (length addons) (is_go r2) t" by auto
  from hook_seq_stop [OF t(2)]
  have "hook_seq [(HResponseheaders, False), (HResponse, False)] (length addons) False t" .
  with t(1) cn' ok(1) s1 show ?thesis by auto
qed

lemma middle_dial_conns:
  assumes "middle_dial n d req c = (r, c')"
  shows "client_closed_flag c' = client_closed_flag c \<and>
    (case d of
       Some err \<Rightarrow> conns c' = conns c
     | None \<Rightarrow> \<exists>ws. conns c' = conns c @ [ws] \<and> \<not> ws_closed ws \<and>
         Option.bind (server_conn c') sc_conn = Some (length (conns c)))"
  using assms
  by (auto simp: middle_dial_def initServerTcpConn_def newPipes_def attach_conn_def close_pipe_conn_def
      run_conn_hook_def Let_def split: option.splits)

lemma client_close_last:
  assumes "client_ctx_set c" and "\<not> client_closed_flag c"
    and "Option.bind (server_conn c) sc_conn = Some k" and "k < length (conns c)"
  shows "k < length (conns (snd (client_close N n c))) \<and> ws_closed (conns (snd (client_close N n c)) ! k)"
proof -
  let ?c1 = "run_conn_hook n ClientDisconnected (mark_client_closed N c)"
  obtain r c2 where s: "server_close N n k ?c1 = (r, c2)" by force
  from assms server_close_marks [OF s] s show ?thesis
    by (cases r) (simp_all add: client_close_def Let_def)
qed

text \<open>Addons whose \<open>Requestheaders\<close> hooks do not panic.\<close>

definition calm_headers :: "'s addon_ops list \<Rightarrow> bool" where
  "calm_headers addons \<longleftrightarrow> (\<forall>a \<in> set addons. \<forall>f s. fst (on_Requestheaders a f s) = Ret ())"

lemma run_hooks_calm:
  "calm_headers as \<Longrightarrow> is_go (fst (run_hooks name on_Requestheaders never_stop i as s))"
proof (induction as arbitrary: i s)
  case (Cons a as)
  obtain x s1 where 1: "run_hook name i (on_Requestheaders a) s = (x, s1)" by force
  with Cons.prems have "x = Ret ()"
    by (auto simp: run_hook_def calm_headers_def split: prod.splits) (metis fst_conv)
  moreover have "calm_headers as" using Cons.prems by (simp add: calm_headers_def)
  ultimately show ?case using 1 Cons.IH [of "Suc i" s1] by (simp add: never_stop_def)
qed (simp add: is_go_def)

text \<open>
  How a CONNECT ends for such addons; \<open>k\<close> is the position at which an intercepted CONNECT puts its
  new server connection.
\<close>

definition connect_outcome :: "serve_env \<Rightarrow> 's serve \<Rightarrow> unit ctl \<Rightarrow> 's connect \<Rightarrow> bool" where
  "connect_outcome V s0 r cn \<longleftrightarrow>
     (let c = sv_conn (cn_serve cn); k = length (conns (sv_conn s0))
      in if connect_dial V \<noteq> None
         then r = Leave \<and> rw_status (sv_rw (cn_serve cn)) = Some 502 \<and> \<not> client_closed_flag c \<and>
           conns c = conns (sv_conn s0)
         else if hijack_err V \<noteq> None
         then r = Leave \<and> rw_status (sv_rw (cn_serve cn)) = Some 502 \<and> \<not> client_closed_flag c \<and>
           (intercepting cn \<longrightarrow> k < length (conns c) \<and> \<not> ws_closed (conns c ! k))
         else sv_rw (cn_serve cn) = new_rw \<and> client_closed_flag c \<and>
           (intercepting cn \<longrightarrow> k < length (conns c) \<and> ws_closed (conns c ! k)))"

lemma connect_dialled_conns:
  assumes "connect_dialled V addons req b s = (r, s')"
  shows "client_closed_flag (sv_conn s') = client_closed_flag (sv_conn s) \<and>
    (connect_dial V \<noteq> None \<longrightarrow> conns (sv_conn s') = conns (sv_conn s)) \<and>
    (connect_dial V = None \<longrightarrow> b \<longrightarrow>
       (\<exists>ws. conns (sv_conn s') = conns (sv_conn s) @ [ws] \<and> \<not> ws_closed ws \<and>
          Option.bind (server_conn (sv_conn s')) sc_conn = Some (length (conns (sv_conn s)))))"
proof (cases b)
  case True
  obtain x c where d: "middle_dial (length addons) (connect_dial V) req (sv_conn s) = (x, c)" by force
  with assms True have "sv_conn s' = c" by (auto simp: connect_dialled_def)
  with middle_dial_conns [OF d] True show ?thesis by (auto split: option.splits)
qed (use assms in \<open>auto simp: connect_dialled_def\<close>)

lemma established_tunnel_intercepting:
  "established_tunnel V addons cn = (r, cn') \<Longrightarrow> intercepting cn' = intercepting cn"
  by (auto simp: established_tunnel_def Let_def split: option.splits prod.splits ctl.splits)

lemma handleConnect_ends:
  assumes "handleConnect V addons req s0 = (r, cn)" and "client_ctx_set (sv_conn s0)"
    and "\<not> client_closed_flag (sv_conn s0)" and "sv_rw s0 = new_rw"
  shows "(r = Leave \<or> (\<exists>p. r = Raise p)) \<and> f_done (sv_flow (cn_serve cn)) = 1 \<and> \<not> tunnel_end_open cn \<and>
    (\<exists>t. sv_trace (cn_serve cn) = sv_trace s0 @ t \<and> hook_seq connect_order (length addons) False t) \<and>
    (calm_headers addons \<longrightarrow> connect_outcome V s0 r cn)"
proof -
  define b where "b = (case intercept_rule V of None \<Rightarrow> True | Some rule \<Rightarrow> rule (in_host req))"
  define s2 where "s2 = (start_flow req s0)\<lparr>sv_conn := (sv_conn (start_flow req s0))\<lparr>Intercept := b\<rparr>\<rparr>"
  have s2: "client_ctx_set (sv_conn s2)" "\<not> client_closed_flag (sv_conn s2)" "sv_rw s2 = new_rw"
    "sv_trace s2 = sv_trace s0" "f_done (sv_flow s2) = 0" "conns (sv_conn s2) = conns (sv_conn s0)"
    using assms(2-4) by (simp_all add: s2_def flow_simps)
  obtain r3 s3 where 3: "run_hooks HRequestheaders on_Requestheaders never_stop 0 addons s2 = (r3, s3)"
    by force
  note ok3 = stage_okD [OF run_hooks_ok 3]
  note never3 = run_hooks_never [OF 3]
  have calm3: "is_go r3" if "calm_headers addons"
    using run_hooks_calm [OF that, of HRequestheaders 0 s2] 3 by simp
  obtain r4 s4 where 4: "connect_dialled V addons req b s3 = (r4, s4)" by force
  note d4 = connect_dialled_value [OF 4]
  have c4: "client_ctx_set (sv_conn s4)" "\<not> client_closed_flag (sv_conn s4)"
    "connect_dial V \<noteq> None \<Longrightarrow> conns (sv_conn s4) = conns (sv_conn s0)"
    "connect_dial V = None \<Longrightarrow> b \<Longrightarrow> \<exists>ws. conns (sv_conn s4) = conns (sv_conn s0) @ [ws] \<and> \<not> ws_closed ws \<and>
          Option.bind (server_conn (sv_conn s4)) sc_conn = Some (length (conns (sv_conn s0)))"
    using connect_dialled_conns [OF 4] d4 never3 s2 by auto
  from ok3(2) obtain t3 where t3: "sv_trace s3 = sv_trace s2 @ t3"
    "hook_seq [(HRequestheaders, False)] (length addons) (is_go r3) t3" by blast
  have early: "hook_seq connect_order (length addons) False t3"
  proof -
    have "hook_seq [(HRequestheaders, False)] (length addons) False t3"
      by (rule hook_seq_stop [OF t3(2)])
    from hook_seq_leave [OF this, of "[(HResponseheaders, False), (HResponse, False)]"]
    show ?thesis by (simp add: connect_order_def)
  qed
  have w502: "WriteHeader 502 new_rw = (Ret (), new_rw\<lparr>rw_status := Some 502, rw_sent := []\<rparr>)"
    by (simp add: WriteHeader_def)
  show ?thesis
  proof (cases r3)
    case (Go u)
    have e: "handleConnect V addons req s0 = finish_connect
        (case connect_dial V of
           Some err \<Rightarrow> (case leave_with 502 s4 of (r, s5) \<Rightarrow>
              (r, \<lparr>cn_serve = s5, tunnel_end_open = False, intercepting = b, tunnel_ran = False\<rparr>))
         | None \<Rightarrow> connect_tunnel V addons b s4)"
      using 3 4 d4 Go unfolding s2_def
      by (simp add: handleConnect_def b_def [symmetric] s2_def [symmetric] Let_def split: option.splits)
    have rw4: "sv_rw s4 = new_rw" "sv_trace s4 = sv_trace s0 @ t3" "f_done (sv_flow s4) = 0"
      using d4 never3 s2 t3 ok3 by simp_all
    show ?thesis
    proof (cases "connect_dial V")
      case (Some err)
      with assms(1) e rw4 w502 early c4 show ?thesis
        by (auto simp: finish_connect_def finish_def leave_with_def connect_outcome_def Let_def)
    next
      case None
      note dial = this
      show ?thesis
      proof (cases "hijack_err V")
        case (Some err)
        with dial assms(1) e rw4 w502 early c4 show ?thesis
          by (auto simp: finish_connect_def finish_def leave_with_def connect_tunnel_def
              connect_outcome_def Let_def)
      next
        case None
        define cn0 where "cn0 = \<lparr>cn_serve = s4, tunnel_end_open = True, intercepting = b, tunnel_ran = False\<rparr>"
        obtain r5 cn5 where 5: "established_tunnel V addons cn0 = (r5, cn5)" by force
        note t5 = established_tunnel_hooks [OF 5]
        from t5 obtain t where t: "sv_trace (cn_serve cn5) = sv_trace s4 @ t"
          "hook_seq [(HResponseheaders, False), (HResponse, False)] (length addons) False t"
          by (auto simp: cn0_def)
        have conn5: "sv_conn (cn_serve cn5) = sv_conn s4" using t5 by (simp add: cn0_def)
        obtain rc c where c: "client_close (sv_net V) (length addons) (sv_conn s4) = (rc, c)" by force
        with c4(1) client_close_marks have cl: "client_closed_flag c" by blast
        have srv: "length (conns (sv_conn s0)) < length (conns c) \<and> ws_closed (conns c ! length (conns (sv_conn s0)))"
          if "b"
        proof -
          from c4(4) [OF dial that] obtain ws where ws: "conns (sv_conn s4) = conns (sv_conn s0) @ [ws]"
            "Option.bind (server_conn (sv_conn s4)) sc_conn = Some (length (conns (sv_conn s0)))" by blast
          then have "length (conns (sv_conn s0)) < length (conns (sv_conn s4))" by simp
          from client_close_last [OF c4(1,2) ws(2) this, of "sv_net V" "length addons"] c show ?thesis by simp
        qed
        have "hook_seq [(HRequestheaders, False)] (length addons) True t3"
          using t3(2) Go by (simp add: is_go_def)
        from hook_seq_append [OF this t(2)] have "hook_seq connect_order (length addons) False (t3 @ t)"
          by (simp only: connect_order_def append.simps)
        moreover have "connect_tunnel V addons b s4 = (r5, close_both V (length addons) cn5)"
          using None 5 by (simp add: connect_tunnel_def cn0_def [symmetric])
        with assms(1) e dial have cn: "r = r5" "cn_serve cn = (cn_serve cn5)\<lparr>sv_conn := c, sv_flow :=
            finish (sv_flow (cn_serve cn5))\<rparr>" "\<not> tunnel_end_open cn" "intercepting cn = intercepting cn5"
          using c conn5 by (auto simp: finish_connect_def close_both_def)
        moreover have "sv_rw (cn_serve cn5) = new_rw" "f_done (sv_flow (cn_serve cn5)) = 0"
          "sv_trace (cn_serve cn5) = sv_trace s0 @ t3 @ t" "intercepting cn5 = b"
          using t5 rw4 t(1) established_tunnel_intercepting [OF 5] by (simp_all add: cn0_def)
        ultimately show ?thesis using dial None cl t5 srv
          by (auto simp: finish_def connect_outcome_def Let_def)
      qed
    qed
  qed (use assms(1) 3 never3 ok3 s2 t3 early calm3 in
      \<open>auto simp: handleConnect_def b_def [symmetric] s2_def [symmetric] Let_def finish_connect_def
        finish_def is_go_def\<close>)
qed

text \<open>
  C11: a CONNECT is handled to the end whatever the addons do: the handler returns or passes on
  the panic of a hook, the flow is finished exactly once, the handler's end of the tunnel is
  closed, and the hooks run in order. If no \<open>Requestheaders\<close> hook panics: when the dial fails the
  client gets 502 and no server connection is left; when the \<open>Hijack\<close> fails the client gets 502, and
  the server connection of an intercepted CONNECT stays open; otherwise nothing is written to
  the old response writer and the client's connection ends up closed, and with it the server
  connection of an intercepted CONNECT, even if a later hook panics.
\<close>

theorem handleConnect_cleans_up:
  assumes "handleConnect V addons req s0 = (r, cn)" and "client_ctx_set (sv_conn s0)"
    and "\<not> client_closed_flag (sv_conn s0)" and "sv_rw s0 = new_rw"
  shows "(r = Leave \<or> (\<exists>p. r = Raise p)) \<and> f_done (sv_flow (cn_serve cn)) = 1 \<and> \<not> tunnel_end_open cn \<and>
    (\<exists>t. sv_trace (cn_serve cn) = sv_trace s0 @ t \<and> hook_seq connect_order (length addons) False t) \<and>
    (calm_headers addons \<longrightarrow> connect_outcome V s0 r cn)"
  using handleConnect_ends [OF assms] .

section \<open>Closed instances\<close>

definition sample_incoming :: incoming where
  "sample_incoming =
     \<lparr>in_method = ''POST'', in_url = \<lparr>u_scheme = ''http'', u_host = ''a'', u_rest = ''/x''\<rparr>,
      in_proto = ''HTTP/1.1'', in_header = [(''X-Id'', [''1''])], in_host = ''a'',
      in_remote = ''c:1'', in_body = bytes_reader ''hi''\<rparr>"

definition sample_options :: Options where
  "sample_options =
     \<lparr>Addr = '':8080'', StreamLargeBodies = 0, SslInsecure = False, CaRootPath = [], Upstream = []\<rparr>"

definition sample_serve_env :: serve_env where
  "sample_serve_env =
     \<lparr>sv_env = calm_env, sv_net = sample_net, dial_now = Some None,
      sv_limit = stream_limit (NewProxy_options sample_options), intercept_rule = None,
      connect_dial = None, hijack_err = None, established_err = None\<rparr>"

definition sample_serve :: "'s \<Rightarrow> 's serve" where
  "sample_serve st =
     \<lparr>sv_addons = st, sv_conn = newConnContext 1 fresh_conn, sv_rw = new_rw,
      sv_flow = newFlow (newRequest [] \<lparr>u_scheme = [], u_host = [], u_rest = []\<rparr> [] []),
      sv_trace = [], sv_tick = 0, sv_sent = [], sv_open_bodies = 0\<rparr>"

lemma sample_serve_fields [flow_simps]:
  "sv_addons (sample_serve st) = st" "sv_conn (sample_serve st) = newConnContext 1 fresh_conn"
  "sv_rw (sample_serve st) = new_rw" "sv_trace (sample_serve st) = []" "sv_sent (sample_serve st) = []"
  "sv_tick (sample_serve st) = 0"
  by (simp_all add: sample_serve_def)

lemma sample_proxied: "proxied sample_incoming"
  by code_simp

lemma sample_handshaked: "handshaked (sv_conn (sample_serve st))"
  by (simp add: flow_simps handshaked_def newConnContext_def fresh_conn_def)

text \<open>An addon whose \<open>Response\<close> hook panics.\<close>

definition panicking_addon :: "unit addon_ops" where
  "panicking_addon = BaseAddon\<lparr>on_Response := (\<lambda>f s. (Panicked (HookPanic ''x''), f, s))\<rparr>"

theorem ServeHTTP_hook_order_witness:
  "\<exists>s'. ServeHTTP sample_serve_env [BaseAddon, panicking_addon] sample_incoming (sample_serve ()) = (Leave, s') \<and>
     f_done (sv_flow s') = 1 \<and> hook_seq serve_order 2 False (sv_trace s')"
proof -
  obtain r s' where run:
    "ServeHTTP sample_serve_env [BaseAddon, panicking_addon] sample_incoming (sample_serve ()) = (r, s')"
    by force
  from ServeHTTP_hook_order [OF run sample_proxied _ sample_handshaked] run show ?thesis
    by (auto simp: flow_simps numeral_2_eq_2)
qed

theorem hook_panic_empty_200_witness:
  "\<exists>s'. ServeHTTP sample_serve_env [panicking_addon] sample_incoming (sample_serve ()) = (Leave, s') \<and>
     rw_status (rw_finish (sv_rw s')) = Some 200 \<and> rw_body (rw_finish (sv_rw s')) = [] \<and>
     length (sv_sent s') = 1"
proof -
  let ?x = "serve_body sample_serve_env [panicking_addon] sample_incoming
    (start_flow sample_incoming (sample_serve ()))"
  obtain r s1 where x: "?x = (r, s1)" by force
  have "fst ?x = Raise (HookPanic ''x'')" "length (sv_sent (snd ?x)) = 1" by code_simp+
  with x have x1: "?x = (Raise (HookPanic ''x''), s1)" "length (sv_sent s1) = 1" by simp_all
  from hook_panic_empty_200 [OF x1(1) sample_proxied _ sample_handshaked] x1(2) show ?thesis
    by (auto simp: flow_simps)
qed

theorem handleConnect_cleans_up_witness:
  "\<exists>cn. handleConnect sample_serve_env [LogAddon] (sample_incoming\<lparr>in_method := ''CONNECT''\<rparr>)
       (sample_serve []) = (Leave, cn) \<and> f_done (sv_flow (cn_serve cn)) = 1 \<and>
     client_closed_flag (sv_conn (cn_serve cn)) \<and> ws_closed (conns (sv_conn (cn_serve cn)) ! 0)"
proof -
  let ?x = "handleConnect sample_serve_env [LogAddon] (sample_incoming\<lparr>in_method := ''CONNECT''\<rparr>)
    (sample_serve [])"
  obtain r cn where x: "?x = (r, cn)" by force
  have "fst ?x = Leave" "intercepting (snd ?x)" by code_simp+
  with x have x1: "?x = (Leave, cn)" "intercepting cn" by simp_all
  have e: "connect_dial sample_serve_env = None" "hijack_err sample_serve_env = None"
    by (simp_all add: sample_serve_env_def)
  have k: "conns (sv_conn (sample_serve [] :: Flow list serve)) = []" by code_simp
  have c: "client_ctx_set (sv_conn (sample_serve [] :: Flow list serve))"
    "\<not> client_closed_flag (sv_conn (sample_serve [] :: Flow list serve))"
    by code_simp+
  have "calm_headers [LogAddon]" by (simp add: calm_headers_def LogAddon_def BaseAddon_def no_hook_def)
  with handleConnect_cleans_up [OF x1(1) c] e x1 k show ?thesis
    by (simp add: flow_simps connect_outcome_def Let_def)
qed

end
