(* ===== verification/Proxy_Quiet.thy ===== *)
theory Proxy_Quiet
  imports Proxy_Order
begin

text \<open>
  What \<open>ServeHTTP\<close> does when its addons only observe: it forwards the request and the answer
  unchanged, whether it buffers the bodies or streams them, and the state of the addons is the
  result of their hooks in order. The addon of the program is the instance that matters. Also
  the other extreme, an addon that answers the request itself.
\<close>

section \<open>Quiet hooks\<close>

definition quiet_hook :: "('s addon_ops \<Rightarrow> 's hook) \<Rightarrow> 's addon_ops list \<Rightarrow> bool" where
  "quiet_hook sel as \<longleftrightarrow> (\<forall>a \<in> set as. \<forall>f st. \<exists>st'. sel a f st = (Ret (), f, st'))"

definition quiet_modifier :: "('s addon_ops \<Rightarrow> 's modifier) \<Rightarrow> 's addon_ops list \<Rightarrow> bool" where
  "quiet_modifier sel as \<longleftrightarrow> (\<forall>a \<in> set as. \<forall>f r st. \<exists>st'. sel a f r st = (Ret r, f, st'))"

text \<open>The state the addons are left in by a hook, or by a modifier.\<close>

definition hook_state :: "('s addon_ops \<Rightarrow> 's hook) \<Rightarrow> Flow \<Rightarrow> 's addon_ops list \<Rightarrow> 's \<Rightarrow> 's" where
  "hook_state sel f as st = fold (\<lambda>a st. snd (snd (sel a f st))) as st"

definition modifier_state ::
  "('s addon_ops \<Rightarrow> 's modifier) \<Rightarrow> Flow \<Rightarrow> reader option \<Rightarrow> 's addon_ops list \<Rightarrow> 's \<Rightarrow> 's" where
  "modifier_state sel f r as st = fold (\<lambda>a st. snd (snd (sel a f r st))) as st"

lemma quiet_addons:
  assumes "list_all quiet_addon as"
  shows "quiet_hook on_Requestheaders as" "quiet_hook on_Request as" "quiet_hook on_Responseheaders as"
    "quiet_hook on_Response as" "quiet_modifier StreamRequestModifier as"
    "quiet_modifier StreamResponseModifier as"
  using assms
  by (auto simp: list_all_iff quiet_hook_def quiet_modifier_def quiet_addon_def)

lemma flow_unchanged [simp]: "(f::Flow)\<lparr>f_done := f_done f\<rparr> = f"
  by simp

lemma run_hooks_quiet:
  assumes "quiet_hook sel as" and "stop (sv_flow s) = Ret None"
  shows "run_hooks name sel stop i as s =
     (Go (), s\<lparr>sv_addons := hook_state sel (sv_flow s) as (sv_addons s),
               sv_trace := sv_trace s @ map (Pair name) [i..<i + length as]\<rparr>)"
  using assms
proof (induction as arbitrary: i s)
  case (Cons a as)
  from Cons.prems(1) obtain st where st: "sel a (sv_flow s) (sv_addons s) = (Ret (), sv_flow s, st)"
    unfolding quiet_hook_def by (metis list.set_intros(1))
  from Cons.prems(1) have q: "quiet_hook sel as" by (simp add: quiet_hook_def)
  let ?s1 = "s\<lparr>sv_addons := st, sv_trace := sv_trace s @ [(name, i)]\<rparr>"
  have "run_hook name i (sel a) s = (Ret (), ?s1)" using st by (simp add: run_hook_def)
  moreover have "map (Pair name) [i..<i + length (a # as)] = (name, i) # map (Pair name) [Suc i..<Suc i + length as]"
    by (simp add: upt_rec)
  ultimately show ?case
    using Cons.IH [OF q, of ?s1 "Suc i"] Cons.prems(2) st by (simp add: hook_state_def)
qed (simp add: hook_state_def)

lemma run_modifiers_quiet:
  assumes "quiet_modifier sel as"
  shows "run_modifiers name sel i as r s =
     (Go r, s\<lparr>sv_addons := modifier_state sel (sv_flow s) r as (sv_addons s),
              sv_trace := sv_trace s @ map (Pair name) [i..<i + length as]\<rparr>)"
  using assms
proof (induction as arbitrary: i s)
  case (Cons a as)
  from Cons.prems obtain st where st: "sel a (sv_flow s) r (sv_addons s) = (Ret r, sv_flow s, st)"
    unfolding quiet_modifier_def by (metis list.set_intros(1))
  from Cons.prems have q: "quiet_modifier sel as" by (simp add: quiet_modifier_def)
  let ?s1 = "s\<lparr>sv_addons := st, sv_trace := sv_trace s @ [(name, i)]\<rparr>"
  have "map (Pair name) [i..<i + length (a # as)] = (name, i) # map (Pair name) [Suc i..<Suc i + length as]"
    by (simp add: upt_rec)
  then show ?case
    using Cons.IH [OF q, of "Suc i" ?s1] st by (simp add: modifier_state_def Let_def)
qed (simp add: modifier_state_def)

section \<open>The stages for quiet addons\<close>

text \<open>A body that is below the limit is buffered.\<close>

definition buffered :: "serve_env \<Rightarrow> reader \<Rightarrow> bool" where
  "buffered V body \<longleftrightarrow> int (length (rdata body)) < sv_limit V"

lemma bytes_reader_data: "rend r = None \<Longrightarrow> bytes_reader (rdata r) = r"
  by (simp add: bytes_reader_def)

lemma request_stage_quiet:
  assumes "quiet_hook on_Request as" and "rend body = None" and "0 < sv_limit V"
    and "\<not> f_stream (sv_flow s)" and "f_response (sv_flow s) = None"
  shows "request_stage V as body s =
     (Go (Some body),
      if buffered V body
      then (let f = (sv_flow s)\<lparr>f_request := (f_request (sv_flow s))\<lparr>r_body := rdata body\<rparr>\<rparr>
            in s\<lparr>sv_flow := f, sv_addons := hook_state on_Request f as (sv_addons s),
                 sv_trace := sv_trace s @ map (Pair HRequest) [0..<length as]\<rparr>)
      else s\<lparr>sv_flow := (sv_flow s)\<lparr>f_stream := True\<rparr>\<rparr>)"
proof (cases "buffered V body")
  case True
  with assms readerToBuffer_small [of body "sv_limit V"] show ?thesis
    by (simp add: request_stage_def buffered_def seq_def run_hooks_quiet stop_on_response_def
        bytes_reader_data Let_def)
next
  case False
  with assms readerToBuffer_large [of "sv_limit V" body] show ?thesis
    by (simp add: request_stage_def buffered_def)
qed

text \<open>The client for the connection can reach the server.\<close>

definition usable_conn :: "serve_env \<Rightarrow> ConnContext \<Rightarrow> bool" where
  "usable_conn V c \<longleftrightarrow>
     (case server_conn (initHttpServerConn c) of
        None \<Rightarrow> False
      | Some sc \<Rightarrow>
          sc_client sc = Some PlainClient \<and> (dial_now V = None \<or> dial_now V = Some None) \<or>
          sc_client sc = Some TlsClient \<and> sc_tls sc = Handshaked)"

lemma usable_conn_FlowCount: "usable_conn V (c\<lparr>FlowCount := k\<rparr>) = usable_conn V c"
  by (cases "server_conn c") (simp_all add: usable_conn_def initHttpServerConn_def)

lemma client_Do_quiet:
  assumes "usable_conn V c" and "sv_conn s = initHttpServerConn c" and "\<not> UseSeparateClient (sv_flow s)"
  shows "\<exists>c'. client_Do V n q s = exchange V q (s\<lparr>sv_conn := c'\<rparr>)"
proof -
  from assms(1,2) obtain sc where sc: "server_conn (sv_conn s) = Some sc"
    and "sc_client sc = Some PlainClient \<and> (dial_now V = None \<or> dial_now V = Some None) \<or>
      sc_client sc = Some TlsClient \<and> sc_tls sc = Handshaked"
    by (auto simp: usable_conn_def split: option.splits)
  then consider (kept) "sc_client sc = Some PlainClient" "dial_now V = None"
    | (dialled) "sc_client sc = Some PlainClient" "dial_now V = Some None"
    | (tls) "sc_client sc = Some TlsClient" "sc_tls sc = Handshaked" by argo
  then show ?thesis
  proof cases
    case dialled
    with sc assms(3) show ?thesis by (auto simp: client_Do_def plain_dial_def)
  qed (use sc assms(3) in \<open>auto simp: client_Do_def tls_dial_def intro!: exI [of _ "sv_conn s"]\<close>)
qed

text \<open>The request the server gets.\<close>

definition forwarded :: "Request \<Rightarrow> reader \<Rightarrow> http_request" where
  "forwarded q body =
     \<lparr>hq_method = r_method q, hq_url = url_string (r_url q), hq_header = add_headers [] (r_header q),
      hq_body = body\<rparr>"

text \<open>
  What a request should be, without saying how it is built: method, URL and body, and under every
  name the values of a header in their order.
\<close>

definition sends :: "string \<Rightarrow> string \<Rightarrow> header \<Rightarrow> reader \<Rightarrow> http_request \<Rightarrow> bool" where
  "sends m u h b q \<longleftrightarrow>
     hq_method q = m \<and> hq_url q = u \<and> same_values (hq_header q) h \<and> hq_body q = b"

lemma forward_stage_quiet:
  fixes as :: "'s addon_ops list"
  assumes "quiet_modifier StreamRequestModifier as" and "usable_conn V (sv_conn s)"
    and "\<not> UseSeparateClient (sv_flow s)"
    and "bad_request (sv_env V) (r_method (f_request (sv_flow s)))
      (url_string (r_url (f_request (sv_flow s)))) = None"
    and "respond (sv_env V) (sv_tick s) (forwarded (f_request (sv_flow s)) body) = Inr res"
  shows "\<exists>c. forward_stage V as (Some body) s =
     (Go res, s\<lparr>sv_conn := c, sv_tick := Suc (sv_tick s),
        sv_sent := sv_sent s @ [forwarded (f_request (sv_flow s)) body],
        sv_open_bodies := Suc (sv_open_bodies s),
        sv_addons := modifier_state StreamRequestModifier (sv_flow s) (Some body) as (sv_addons s),
        sv_trace := sv_trace s @ map (Pair HStreamRequest) [0..<length as]\<rparr>)"
proof -
  let ?q = "forwarded (f_request (sv_flow s)) body"
  let ?s1 = "s\<lparr>sv_addons := modifier_state StreamRequestModifier (sv_flow s) (Some body) as (sv_addons s),
      sv_trace := sv_trace s @ map (Pair HStreamRequest) [0..<length as],
      sv_conn := initHttpServerConn (sv_conn s)\<rparr>"
  from client_Do_quiet [OF assms(2), of ?s1 "length as" ?q] assms(3) obtain c where
    "client_Do V (length as) ?q ?s1 = exchange V ?q (?s1\<lparr>sv_conn := c\<rparr>)" by auto
  with assms show ?thesis
    by (intro exI [of _ c])
      (simp add: forward_stage_def seq_def run_modifiers_quiet new_request_def forwarded_def
        exchange_def Let_def)
qed

lemma response_stage_quiet:
  assumes "quiet_hook on_Responseheaders as" and "quiet_hook on_Response as"
    and "rend (hp_body res) = None" and "0 < sv_limit V"
  shows "\<exists>c b r st t f. response_stage V as res s = (Go r, s\<lparr>sv_conn := c, sv_flow := f,
        sv_addons := st, sv_trace := t\<rparr>) \<and>
     (r = None \<and> b = Some (rdata (hp_body res)) \<or> r = Some (hp_body res) \<and> b = None) \<and>
     f_response f = Some ((new_response (hp_status res) (Some (hp_header res)) (hp_close res))\<lparr>s_body := b\<rparr>) \<and>
     st = (let f0 = (sv_flow s)\<lparr>f_response := Some (new_response (hp_status res) (Some (hp_header res)) (hp_close res))\<rparr>;
               st0 = hook_state on_Responseheaders f0 as (sv_addons s)
           in if b = None then st0 else hook_state on_Response f as st0)"
proof -
  let ?rp = "new_response (hp_status res) (Some (hp_header res)) (hp_close res)"
  define s1 where "s1 = (if hp_close res then s\<lparr>sv_conn := (sv_conn s)\<lparr>closeAfterResponse := True\<rparr>\<rparr> else s)"
  define s2 where "s2 = s1\<lparr>sv_flow := (sv_flow s1)\<lparr>f_response := Some ?rp\<rparr>\<rparr>"
  have s2: "s2 = s\<lparr>sv_conn := sv_conn s1, sv_flow := (sv_flow s)\<lparr>f_response := Some ?rp\<rparr>\<rparr>"
    by (simp add: s2_def s1_def)
  have sb: "s_body ?rp = None" by (simp add: new_response_def)
  define s3 where "s3 = s2\<lparr>sv_addons := hook_state on_Responseheaders (sv_flow s2) as (sv_addons s2),
      sv_trace := sv_trace s2 @ map (Pair HResponseheaders) [0..<length as]\<rparr>"
  have 3: "run_hooks HResponseheaders on_Responseheaders stop_on_body 0 as s2 = (Go (), s3)"
    using run_hooks_quiet [OF assms(1), of stop_on_body s2 HResponseheaders 0] sb
    by (simp add: s2 s3_def stop_on_body_def)
  show ?thesis
  proof (cases "\<not> f_stream (sv_flow s) \<and> buffered V (hp_body res)")
    case True
    let ?f = "(sv_flow s3)\<lparr>f_response := Some (?rp\<lparr>s_body := Some (rdata (hp_body res))\<rparr>)\<rparr>"
    have "run_hooks HResponse on_Response never_stop 0 as (s3\<lparr>sv_flow := ?f\<rparr>) =
        (Go (), s3\<lparr>sv_flow := ?f, sv_addons := hook_state on_Response ?f as (sv_addons s3),
          sv_trace := sv_trace s3 @ map (Pair HResponse) [0..<length as]\<rparr>)"
      using run_hooks_quiet [OF assms(2), of never_stop "s3\<lparr>sv_flow := ?f\<rparr>" HResponse 0]
      by (simp add: never_stop_def)
    with 3 True assms(3,4) readerToBuffer_small [of "hp_body res" "sv_limit V"]
    have "response_stage V as res s = (Go None, s3\<lparr>sv_flow := ?f,
        sv_addons := hook_state on_Response ?f as (sv_addons s3),
        sv_trace := sv_trace s3 @ map (Pair HResponse) [0..<length as]\<rparr>)"
      unfolding response_stage_def Let_def s1_def [symmetric] s2_def [symmetric]
      by (simp add: seq_def buffered_def s3_def s2)
    then show ?thesis
      by (intro exI [of _ "sv_conn s1"] exI [of _ "Some (rdata (hp_body res))"] exI [of _ None]
          exI [of _ "hook_state on_Response ?f as (sv_addons s3)"]
          exI [of _ "sv_trace s3 @ map (Pair HResponse) [0..<length as]"] exI [of _ ?f])
        (simp add: s3_def s2 Let_def)
  next
    case False
    have "\<exists>f. response_stage V as res s = (Go (Some (hp_body res)), s3\<lparr>sv_flow := f\<rparr>) \<and>
        f_response f = Some ?rp"
    proof (cases "f_stream (sv_flow s)")
      case True
      with 3 show ?thesis
        unfolding response_stage_def Let_def s1_def [symmetric] s2_def [symmetric]
        by (intro exI [of _ "sv_flow s3"]) (simp add: seq_def s3_def s2)
    next
      case ns: False
      with 3 False assms(4) readerToBuffer_large [of "sv_limit V" "hp_body res"] show ?thesis
        unfolding response_stage_def Let_def s1_def [symmetric] s2_def [symmetric]
        by (intro exI [of _ "(sv_flow s3)\<lparr>f_stream := True\<rparr>"]) (simp add: seq_def s3_def s2 buffered_def)
    qed
    then obtain f where f: "response_stage V as res s = (Go (Some (hp_body res)), s3\<lparr>sv_flow := f\<rparr>)"
      "f_response f = Some ?rp" by blast
    moreover have "?rp = ?rp\<lparr>s_body := None\<rparr>" by (simp add: new_response_def)
    ultimately show ?thesis
      by (intro exI [of _ "sv_conn s1"] exI [of _ None] exI [of _ "Some (hp_body res)"]
          exI [of _ "sv_addons s3"] exI [of _ "sv_trace s3"] exI [of _ f])
        (simp add: s3_def s2 Let_def)
  qed
qed

section \<open>The answer to the client\<close>

definition client_header :: "http_response \<Rightarrow> header" where
  "client_header res =
     (let h = add_headers [] (hp_header res)
      in if hp_close res then hadd h ''Connection'' ''close'' else h)"

text \<open>The status and the body of an answer are those of the server's.\<close>

definition answered_with :: "http_response \<Rightarrow> rw \<Rightarrow> bool" where
  "answered_with res r \<longleftrightarrow>
     rw_status r = Some (hp_status res) \<and> rw_sent r = client_header res \<and> rw_info r = [] \<and>
     rw_body r = (if body_allowed (hp_status res) then rdata (hp_body res) else [])"

text \<open>
  What the client should get, without saying how it is built: the status, the body where the
  status allows one, no interim answer, and under every name the values of the server's header,
  with \<open>Connection: close\<close> added when the server closes its connection.
\<close>

definition answer_kept :: "http_response \<Rightarrow> rw \<Rightarrow> bool" where
  "answer_kept res r \<longleftrightarrow>
     rw_status r = Some (hp_status res) \<and> rw_info r = [] \<and>
     rw_body r = (if body_allowed (hp_status res) then rdata (hp_body res) else []) \<and>
     (\<forall>k. hvalues (rw_sent r) k = hvalues (hp_header res) k @
        (if hp_close res \<and> same_key ''Connection'' k then [''close''] else []))"

lemma answered_kept: "canonical_header (hp_header res) \<Longrightarrow> answered_with res r \<Longrightarrow> answer_kept res r"
  using same_values_copied [of "hp_header res"]
  by (auto simp: answered_with_def answer_kept_def client_header_def same_values_def hvalues_hadd Let_def)

lemma reply_answers:
  assumes "200 \<le> hp_status res" and "hp_status res \<le> 999"
    and "b = None \<and> r = Some (hp_body res) \<or> b = Some (rdata (hp_body res)) \<and> r = None"
  shows "\<exists>w. reply ((new_response (hp_status res) (Some (hp_header res)) (hp_close res))\<lparr>s_body := b\<rparr>) r new_rw =
    (Ret (), w) \<and> answered_with res w"
  using assms
  by (auto simp: reply_def WriteHeader_def reply_body_def rw_copy_def rw_write_def reply_header_def
      new_response_def answered_with_def client_header_def Let_def)

lemma reply_stage_quiet:
  assumes "quiet_modifier StreamResponseModifier as" and "sv_rw s = new_rw"
    and "f_response (sv_flow s) =
      Some ((new_response (hp_status res) (Some (hp_header res)) (hp_close res))\<lparr>s_body := b\<rparr>)"
    and "200 \<le> hp_status res" and "hp_status res \<le> 999"
    and "b = None \<and> r = Some (hp_body res) \<or> b = Some (rdata (hp_body res)) \<and> r = None"
  shows "\<exists>w. reply_stage as r s = (Leave, s\<lparr>sv_rw := w,
      sv_addons := modifier_state StreamResponseModifier (sv_flow s) r as (sv_addons s),
      sv_trace := sv_trace s @ map (Pair HStreamResponse) [0..<length as]\<rparr>) \<and> answered_with res w"
proof -
  from reply_answers [OF assms(4-6)] obtain w where
    "reply ((new_response (hp_status res) (Some (hp_header res)) (hp_close res))\<lparr>s_body := b\<rparr>) r new_rw =
     (Ret (), w)" "answered_with res w" by blast
  with assms(1-3) show ?thesis
    by (intro exI [of _ w]) (simp add: reply_stage_def seq_def run_modifiers_quiet leave_reply_def)
qed

section \<open>The handler for quiet addons\<close>

text \<open>The request of a flow when the \<open>Request\<close> hooks run, and after them.\<close>

definition flow_request :: "serve_env \<Rightarrow> incoming \<Rightarrow> Request" where
  "flow_request V req =
     (newRequest (in_method req) (in_url req) (in_proto req) (in_header req))
       \<lparr>r_body := (if buffered V (in_body req) then rdata (in_body req) else [])\<rparr>"

text \<open>
  What the network has to do for a request to be answered: the headers of the client and of the
  server are as they are read from the wire, and the server answers the request that has the
  client's method, URL, header and body with \<open>res\<close>.
\<close>

definition server_answers :: "serve_env \<Rightarrow> incoming \<Rightarrow> 's serve \<Rightarrow> http_response \<Rightarrow> bool" where
  "server_answers V req s res \<longleftrightarrow>
     usable_conn V (sv_conn s) \<and> 0 < sv_limit V \<and>
     bad_request (sv_env V) (in_method req) (url_string (in_url req)) = None \<and>
     (\<forall>q. sends (in_method req) (url_string (in_url req)) (in_header req) (in_body req) q \<longrightarrow>
        respond (sv_env V) (sv_tick s) q = Inr res) \<and>
     canonical_header (in_header req) \<and> canonical_header (hp_header res) \<and>
     rend (in_body req) = None \<and> rend (hp_body res) = None \<and>
     200 \<le> hp_status res \<and> hp_status res \<le> 999"

lemma forwarded_sends:
  "canonical_header (in_header req) \<Longrightarrow>
     sends (in_method req) (url_string (in_url req)) (in_header req) (in_body req)
       (forwarded (flow_request V req) (in_body req))"
  by (simp add: sends_def forwarded_def flow_request_def newRequest_def same_values_copied)

lemma server_answers_forwarded:
  "server_answers V req s res \<Longrightarrow>
     respond (sv_env V) (sv_tick s) (forwarded (flow_request V req) (in_body req)) = Inr res"
  using forwarded_sends [of req V] by (auto simp: server_answers_def)

lemma serve_body_quiet:
  fixes as :: "'s addon_ops list"
  assumes q: "list_all quiet_addon as" and a: "server_answers V req s res" and rw: "sv_rw s = new_rw"
  defines "st0 \<equiv> hook_state on_Requestheaders
    (newFlow (newRequest (in_method req) (in_url req) (in_proto req) (in_header req))) as (sv_addons s)"
  defines "st1 \<equiv> (if buffered V (in_body req)
    then hook_state on_Request (newFlow (flow_request V req)) as st0 else st0)"
  shows "\<exists>s' f2 f3 f4 f5 (b :: bytes option) r. serve_body V as req (start_flow req s) = (Leave, s') \<and>
    sv_sent s' = sv_sent s @ [forwarded (flow_request V req) (in_body req)] \<and>
    answered_with res (sv_rw s') \<and>
    sv_addons s' = modifier_state StreamResponseModifier f5 r as
      (let st3 = hook_state on_Responseheaders f3 as
         (modifier_state StreamRequestModifier f2 (Some (in_body req)) as st1)
       in if b = None then st3 else hook_state on_Response f4 as st3)"
proof -
  note Q = quiet_addons [OF q]
  define s0 where "s0 = (start_flow req s)\<lparr>sv_conn :=
    (sv_conn (start_flow req s))\<lparr>FlowCount := FlowCount (sv_conn (start_flow req s)) + 1\<rparr>\<rparr>"
  have s0: "sv_flow s0 = newFlow (newRequest (in_method req) (in_url req) (in_proto req) (in_header req))"
    "sv_rw s0 = new_rw" "sv_addons s0 = sv_addons s" "sv_sent s0 = sv_sent s" "sv_tick s0 = sv_tick s"
    "usable_conn V (sv_conn s0)"
    using a rw by (simp_all add: s0_def start_flow_def server_answers_def usable_conn_FlowCount)
  define s1 where "s1 = s0\<lparr>sv_addons := st0, sv_trace := sv_trace s0 @ map (Pair HRequestheaders) [0..<length as]\<rparr>"
  have 1: "run_hooks HRequestheaders on_Requestheaders stop_on_response 0 as s0 = (Go (), s1)"
    using run_hooks_quiet [OF Q(1), of stop_on_response s0 HRequestheaders 0] s0
    by (simp add: s1_def st0_def stop_on_response_def newFlow_def)
  obtain s2 where 2: "request_stage V as (in_body req) s1 = (Go (Some (in_body req)), s2)"
    "f_request (sv_flow s2) = flow_request V req" "sv_addons s2 = st1" "sv_rw s2 = new_rw"
    "sv_sent s2 = sv_sent s" "sv_tick s2 = sv_tick s" "sv_conn s2 = sv_conn s0"
    "\<not> UseSeparateClient (sv_flow s2)"
  proof -
    have n: "\<not> f_stream (sv_flow s1)" "f_response (sv_flow s1) = None"
      by (simp_all add: s1_def s0 newFlow_def)
    have b: "rend (in_body req) = None" "0 < sv_limit V" using a by (simp_all add: server_answers_def)
    show thesis
      using request_stage_quiet [OF Q(2) b n] s0
      by (intro that [of "snd (request_stage V as (in_body req) s1)"])
        (simp_all add: flow_request_def st1_def s1_def newFlow_def newRequest_def Let_def)
  qed
  from forward_stage_quiet [OF Q(5), of V s2 "in_body req" res] a server_answers_forwarded [OF a] 2 s0(6) obtain c where
    3: "forward_stage V as (Some (in_body req)) s2 = (Go res, s2\<lparr>sv_conn := c, sv_tick := Suc (sv_tick s2),
        sv_sent := sv_sent s2 @ [forwarded (f_request (sv_flow s2)) (in_body req)],
        sv_open_bodies := Suc (sv_open_bodies s2),
        sv_addons := modifier_state StreamRequestModifier (sv_flow s2) (Some (in_body req)) as (sv_addons s2),
        sv_trace := sv_trace s2 @ map (Pair HStreamRequest) [0..<length as]\<rparr>)"
    by (auto simp: server_answers_def flow_request_def newRequest_def)
  define s3 where "s3 = snd (forward_stage V as (Some (in_body req)) s2)"
  have s3: "sv_rw s3 = new_rw" "sv_sent s3 = sv_sent s @ [forwarded (flow_request V req) (in_body req)]"
    "sv_addons s3 = modifier_state StreamRequestModifier (sv_flow s2) (Some (in_body req)) as st1"
    using 2 3 by (simp_all add: s3_def)
  have rs: "rend (hp_body res) = None" "0 < sv_limit V" using a by (simp_all add: server_answers_def)
  from response_stage_quiet [OF Q(3,4) rs, of s3] obtain c' b r st t f where
    4: "response_stage V as res s3 = (Go r, s3\<lparr>sv_conn := c', sv_flow := f, sv_addons := st, sv_trace := t\<rparr>)"
      "r = None \<and> b = Some (rdata (hp_body res)) \<or> r = Some (hp_body res) \<and> b = None"
      "f_response f = Some ((new_response (hp_status res) (Some (hp_header res)) (hp_close res))\<lparr>s_body := b\<rparr>)"
      "st = (let f0 = (sv_flow s3)\<lparr>f_response := Some (new_response (hp_status res) (Some (hp_header res)) (hp_close res))\<rparr>;
               st0 = hook_state on_Responseheaders f0 as (sv_addons s3)
           in if b = None then st0 else hook_state on_Response f as st0)"
    by blast
  let ?s4 = "s3\<lparr>sv_conn := c', sv_flow := f, sv_addons := st, sv_trace := t\<rparr>"
  from reply_stage_quiet [OF Q(6), where s = ?s4 and res = res and b = b and r = r] a s3 4 obtain w where
    5: "reply_stage as r ?s4 = (Leave, ?s4\<lparr>sv_rw := w, sv_addons := modifier_state StreamResponseModifier f r as st,
        sv_trace := t @ map (Pair HStreamResponse) [0..<length as]\<rparr>)" "answered_with res w"
    by (auto simp: server_answers_def)
  have "forward_stage V as (Some (in_body req)) s2 = (Go res, s3)" using 3 by (simp add: s3_def)
  define s5 where "s5 = ?s4\<lparr>sv_rw := w, sv_addons := modifier_state StreamResponseModifier f r as st,
      sv_trace := t @ map (Pair HStreamResponse) [0..<length as]\<rparr>"
  have "serve_body V as req (start_flow req s) = (Leave, s5)"
    using 1 2(1) 4(1) 5(1) \<open>forward_stage V as (Some (in_body req)) s2 = (Go res, s3)\<close>
    unfolding serve_body_def s0_def [symmetric] s5_def by (simp add: seq_def)
  moreover have "sv_sent s5 = sv_sent s @ [forwarded (flow_request V req) (in_body req)]"
    "answered_with res (sv_rw s5)"
    using s3(2) 5(2) by (simp_all add: s5_def)
  moreover have "sv_addons s5 = modifier_state StreamResponseModifier f r as
      (let st3 = hook_state on_Responseheaders ((sv_flow s3)\<lparr>f_response :=
           Some (new_response (hp_status res) (Some (hp_header res)) (hp_close res))\<rparr>) as
         (modifier_state StreamRequestModifier (sv_flow s2) (Some (in_body req)) as st1)
       in if b = None then st3 else hook_state on_Response f as st3)"
    using 4(4) s3(3) unfolding s5_def by (simp add: Let_def)
  ultimately show ?thesis by blast
qed

lemma stream_limit_positive: "0 < stream_limit (NewProxy_options opts)"
  by (simp add: stream_limit_def NewProxy_options_def default_stream_limit_def)

lemma ServeHTTP_Leave:
  assumes "proxied req" and "serve_body V as req (start_flow req s) = (Leave, s1)"
  shows "ServeHTTP V as req s = (Leave, s1\<lparr>sv_open_bodies := 0, sv_flow := finish (sv_flow s1)\<rparr>)"
  using assms by (simp add: ServeHTTP_proxied serve_deferred_def)

lemma ServeHTTP_transparent:
  assumes "list_all quiet_addon as" and "proxied req" and "server_answers V req s res"
    and "sv_rw s = new_rw"
  shows "\<exists>s' q. ServeHTTP V as req s = (Leave, s') \<and> sv_sent s' = sv_sent s @ [q] \<and>
    sends (in_method req) (url_string (in_url req)) (in_header req) (in_body req) q \<and>
    answer_kept res (sv_rw s')"
proof -
  have c: "canonical_header (in_header req)" "canonical_header (hp_header res)"
    using assms(3) by (simp_all add: server_answers_def)
  obtain s1 where "ServeHTTP V as req s = (Leave, s1\<lparr>sv_open_bodies := 0, sv_flow := finish (sv_flow s1)\<rparr>)"
    "sv_sent s1 = sv_sent s @ [forwarded (flow_request V req) (in_body req)]" "answered_with res (sv_rw s1)"
    using serve_body_quiet [OF assms(1,3,4)] ServeHTTP_Leave [OF assms(2)] by metis
  with forwarded_sends [OF c(1), of V] answered_kept [OF c(2)] show ?thesis by fastforce
qed

text \<open>
  C5: with addons that only observe, the proxy is transparent: the server gets one request, with
  the client's method, URL and body and under every header name the client's values in their
  order, and the client gets the server's status and body and under every header name the
  server's values, with \<open>Connection: close\<close> added exactly when the server closes. This holds below
  the limit of \<open>StreamLargeBodies\<close>, where the bodies are buffered, and above it, where they are
  streamed; \<open>NewProxy\<close> makes sure that the limit is positive.
\<close>

theorem proxy_transparent:
  assumes "list_all quiet_addon as" and "proxied req" and "server_answers V req s res"
    and "sv_rw s = new_rw"
  shows "\<exists>s' q. ServeHTTP V as req s = (Leave, s') \<and> sv_sent s' = sv_sent s @ [q] \<and>
    sends (in_method req) (url_string (in_url req)) (in_header req) (in_body req) q \<and>
    answer_kept res (sv_rw s')"
  using ServeHTTP_transparent [OF assms] .

text \<open>The hooks of the program's addon other than \<open>Request\<close> leave its state alone.\<close>

lemma ipaversion_hooks:
  "hook_state on_Requestheaders f [ipaversion_addon L E] st = st"
  "hook_state on_Request f [ipaversion_addon L E] (c, w) = Addon_Request L E (f_request f) c w"
  "hook_state on_Responseheaders f [ipaversion_addon L E] st = st"
  "hook_state on_Response f [ipaversion_addon L E] st = st"
  "modifier_state StreamRequestModifier f r [ipaversion_addon L E] st = st"
  "modifier_state StreamResponseModifier f r [ipaversion_addon L E] st = st"
  by (simp_all add: hook_state_def modifier_state_def ipaversion_addon_def BaseAddon_def
      no_hook_def no_modifier_def)

lemma ServeHTTP_ipaversion:
  assumes "proxied req" and "server_answers V req s res" and "sv_rw s = new_rw" and "sv_addons s = (c, w)"
  shows "\<exists>s' q. ServeHTTP V [ipaversion_addon L E] req s = (Leave, s') \<and> sv_sent s' = sv_sent s @ [q] \<and>
    sends (in_method req) (url_string (in_url req)) (in_header req) (in_body req) q \<and>
    answer_kept res (sv_rw s') \<and>
    sv_addons s' = (if buffered V (in_body req) then Addon_Request L E (flow_request V req) c w else (c, w))"
proof -
  have q: "list_all quiet_addon [ipaversion_addon L E]" by (simp add: ipaversion.quiet_addon_axioms)
  have f: "f_request (newFlow r) = r" for r by (simp add: newFlow_def)
  from serve_body_quiet [OF q assms(2,3), unfolded ipaversion_hooks assms(4) f Let_def if_cancel]
  obtain s' where
    "serve_body V [ipaversion_addon L E] req (start_flow req s) = (Leave, s')"
    "sv_sent s' = sv_sent s @ [forwarded (flow_request V req) (in_body req)]"
    "answered_with res (sv_rw s')"
    "sv_addons s' = (if buffered V (in_body req) then Addon_Request L E (flow_request V req) c w else (c, w))"
    by blast
  moreover have "canonical_header (in_header req)" "canonical_header (hp_header res)"
    using assms(2) by (simp_all add: server_answers_def)
  ultimately show ?thesis
    using ServeHTTP_Leave [OF assms(1)] forwarded_sends [of req V] answered_kept [of res] by fastforce
qed

text \<open>
  C3: the program behind its proxy: a request that the client sends through it reaches the store
  with the client's method, URL, body and header values, and is answered with the status, body
  and header values of the store, also a purchase; and the addon handles it, with the whole
  body the client sent, exactly when the body is below the limit.
\<close>

theorem purchase_through_proxy:
  assumes "proxied req" and "server_answers V req s res" and "sv_rw s = new_rw" and "sv_addons s = (c, w)"
  shows "\<exists>s' q. ServeHTTP V [ipaversion_addon L E] req s = (Leave, s') \<and> sv_sent s' = sv_sent s @ [q] \<and>
    sends (in_method req) (url_string (in_url req)) (in_header req) (in_body req) q \<and>
    answer_kept res (sv_rw s') \<and>
    sv_addons s' = (if buffered V (in_body req)
      then Addon_Request L E ((newRequest (in_method req) (in_url req) (in_proto req) (in_header req))
             \<lparr>r_body := rdata (in_body req)\<rparr>) c w
      else (c, w))"
  using ServeHTTP_ipaversion [OF assms, of L E]
  by (cases "buffered V (in_body req)") (simp_all add: flow_request_def)

section \<open>An addon that answers\<close>

lemma run_hooks_answer:
  assumes "quiet_hook sel qs" and "stop (sv_flow s) = Ret None"
    and "sel a (sv_flow s) (hook_state sel (sv_flow s) qs (sv_addons s)) = (Ret (), f, st)"
    and "stop (f\<lparr>f_done := f_done (sv_flow s)\<rparr>) = Ret (Some rp)"
  shows "run_hooks name sel stop 0 (qs @ a # as) s =
    leave_reply rp None (s\<lparr>sv_flow := f\<lparr>f_done := f_done (sv_flow s)\<rparr>, sv_addons := st,
      sv_trace := sv_trace s @ map (Pair name) [0..<Suc (length qs)]\<rparr>)"
proof -
  have "run_hooks name sel stop i (qs @ a # as) s =
      leave_reply rp None (s\<lparr>sv_flow := f\<lparr>f_done := f_done (sv_flow s)\<rparr>, sv_addons := st,
        sv_trace := sv_trace s @ map (Pair name) [i..<Suc (i + length qs)]\<rparr>)" for i
    using assms
  proof (induction qs arbitrary: i s)
    case Nil
    then show ?case by (simp add: hook_state_def run_hook_def)
  next
    case (Cons q qs)
    from Cons.prems(1) obtain st1 where st1: "sel q (sv_flow s) (sv_addons s) = (Ret (), sv_flow s, st1)"
      unfolding quiet_hook_def by (metis list.set_intros(1))
    let ?s1 = "s\<lparr>sv_addons := st1, sv_trace := sv_trace s @ [(name, i)]\<rparr>"
    have "quiet_hook sel qs" using Cons.prems(1) by (simp add: quiet_hook_def)
    from Cons.IH [OF this, of ?s1 "Suc i"] Cons.prems(2-4) st1
    have "run_hooks name sel stop (Suc i) (qs @ a # as) ?s1 =
        leave_reply rp None (?s1\<lparr>sv_flow := f\<lparr>f_done := f_done (sv_flow s)\<rparr>, sv_addons := st,
          sv_trace := sv_trace ?s1 @ map (Pair name) [Suc i..<Suc (Suc i + length qs)]\<rparr>)"
      by (simp add: hook_state_def del: upt_Suc)
    moreover have "run_hook name i (sel q) s = (Ret (), ?s1)" using st1 by (simp add: run_hook_def)
    moreover have "map (Pair name) [i..<Suc (i + length (q # qs))] =
        (name, i) # map (Pair name) [Suc i..<Suc (Suc i + length qs)]"
      by (simp add: upt_rec)
    ultimately show ?case using Cons.prems(2) by (simp del: upt_Suc)
  qed
  from this [of 0] show ?thesis by simp
qed

text \<open>The body of a response that an addon made: its reader, then its bytes.\<close>

definition response_bytes :: "Response \<Rightarrow> bytes" where
  "response_bytes rp =
     (case BodyReader rp of None \<Rightarrow> [] | Some b \<Rightarrow> rdata b) @
     (case s_body rp of None \<Rightarrow> [] | Some b \<Rightarrow> b)"

lemma reply_made:
  assumes "200 \<le> StatusCode rp" and "StatusCode rp \<le> 999"
  shows "\<exists>w. reply rp None new_rw = (Ret (), w) \<and> rw_status w = Some (StatusCode rp) \<and>
    rw_body w = (if body_allowed (StatusCode rp) then response_bytes rp else [])"
  using assms
  by (auto simp: reply_def WriteHeader_def reply_body_def rw_copy_def rw_write_def reply_header_def
      response_bytes_def Let_def split: option.splits)

lemma ServeHTTP_answered:
  assumes "list_all quiet_addon qs" and "proxied req" and "sv_rw s = new_rw"
  defines "f0 \<equiv> newFlow (newRequest (in_method req) (in_url req) (in_proto req) (in_header req))"
  assumes a: "on_Requestheaders a f0 (hook_state on_Requestheaders f0 qs (sv_addons s)) = (Ret (), f, st)"
    and rp: "f_response f = Some rp" and code: "200 \<le> StatusCode rp" "StatusCode rp \<le> 999"
  shows "\<exists>s'. ServeHTTP V (qs @ a # as) req s = (Leave, s') \<and>
    sv_sent s' = sv_sent s \<and> server_conn (sv_conn s') = server_conn (sv_conn s) \<and>
    sv_trace s' = sv_trace s @ map (Pair HRequestheaders) [0..<Suc (length qs)] \<and>
    rw_status (sv_rw s') = Some (StatusCode rp) \<and>
    rw_body (sv_rw s') = (if body_allowed (StatusCode rp) then response_bytes rp else [])"
proof -
  define s0 where "s0 = (start_flow req s)\<lparr>sv_conn :=
    (sv_conn (start_flow req s))\<lparr>FlowCount := FlowCount (sv_conn (start_flow req s)) + 1\<rparr>\<rparr>"
  have s0: "sv_flow s0 = f0" "sv_rw s0 = new_rw" "sv_addons s0 = sv_addons s" "sv_sent s0 = sv_sent s"
    "server_conn (sv_conn s0) = server_conn (sv_conn s)" "sv_trace s0 = sv_trace s"
    using assms(3) by (simp_all add: s0_def start_flow_def f0_def)
  from reply_made [OF code] obtain w where w: "reply rp None new_rw = (Ret (), w)"
    "rw_status w = Some (StatusCode rp)"
    "rw_body w = (if body_allowed (StatusCode rp) then response_bytes rp else [])" by blast
  have stop: "stop_on_response (sv_flow s0) = Ret None"
    by (simp add: s0 f0_def stop_on_response_def newFlow_def)
  have "run_hooks HRequestheaders on_Requestheaders stop_on_response 0 (qs @ a # as) s0 =
      leave_reply rp None (s0\<lparr>sv_flow := f\<lparr>f_done := f_done (sv_flow s0)\<rparr>, sv_addons := st,
        sv_trace := sv_trace s0 @ map (Pair HRequestheaders) [0..<Suc (length qs)]\<rparr>)"
    by (rule run_hooks_answer)
      (use a rp stop quiet_addons(1) [OF assms(1)] in \<open>simp_all add: s0 stop_on_response_def\<close>)
  with w(1) have "serve_body V (qs @ a # as) req (start_flow req s) =
      (Leave, s0\<lparr>sv_flow := f\<lparr>f_done := f_done (sv_flow s0)\<rparr>, sv_addons := st, sv_rw := w,
        sv_trace := sv_trace s0 @ map (Pair HRequestheaders) [0..<Suc (length qs)]\<rparr>)"
    unfolding serve_body_def s0_def [symmetric] by (simp add: seq_def leave_reply_def s0(2) del: upt_Suc)
  from ServeHTTP_Leave [OF assms(2) this] w s0 show ?thesis by simp
qed

text \<open>
  C10: the first addon that answers a request in \<open>Requestheaders\<close> decides: its status and body go
  to the client, nothing is sent to the server and no connection to it is set up, and no later
  addon and no later hook sees the request.
\<close>

theorem addon_short_circuits:
  assumes "list_all quiet_addon qs" and "proxied req" and "sv_rw s = new_rw"
    and "f0 = newFlow (newRequest (in_method req) (in_url req) (in_proto req) (in_header req))"
    and "on_Requestheaders a f0 (hook_state on_Requestheaders f0 qs (sv_addons s)) = (Ret (), f, st)"
    and "f_response f = Some rp" and "200 \<le> StatusCode rp" and "StatusCode rp \<le> 999"
  shows "\<exists>s'. ServeHTTP V (qs @ a # as) req s = (Leave, s') \<and>
    sv_sent s' = sv_sent s \<and> server_conn (sv_conn s') = server_conn (sv_conn s) \<and>
    sv_trace s' = sv_trace s @ map (Pair HRequestheaders) [0..<Suc (length qs)] \<and>
    rw_status (sv_rw s') = Some (StatusCode rp) \<and>
    rw_body (sv_rw s') = (if body_allowed (StatusCode rp) then response_bytes rp else [])"
  using ServeHTTP_answered [OF assms(1-3), of a f st rp V as] assms(4-8) by blast

section \<open>Closed instances\<close>

lemma sample_server_answers:
  "server_answers sample_serve_env sample_incoming (sample_serve st) ipa_response"
proof -
  have u: "usable_conn sample_serve_env (sv_conn (sample_serve st))"
    by (simp add: flow_simps usable_conn_def initHttpServerConn_def newConnContext_def fresh_conn_def
        newServerConn_def sample_serve_env_def run_conn_hook_def)
  have "rend (in_body sample_incoming) = None" by (simp add: sample_incoming_def)
  moreover have "canonical_header (in_header sample_incoming)" "canonical_header (hp_header ipa_response)"
    unfolding canonical_header_def by code_simp+
  ultimately show ?thesis using u stream_limit_positive [of sample_options]
    by (simp add: server_answers_def sample_serve_env_def calm_env_def ipa_response_def)
qed

theorem proxy_transparent_witness:
  "\<exists>s'. ServeHTTP sample_serve_env [LogAddon, BaseAddon] sample_incoming (sample_serve []) = (Leave, s') \<and>
     rw_status (sv_rw s') = Some 200 \<and> rw_body (sv_rw s') = ''ipa'' \<and>
     map hq_url (sv_sent s') = [''http://a/x''] \<and> hvalues (hq_header (hd (sv_sent s'))) ''x-id'' = [''1'']"
proof -
  have q: "list_all quiet_addon [LogAddon, BaseAddon]"
    by (simp add: log_addon.quiet_addon_axioms base_addon.quiet_addon_axioms)
  have "body_allowed 200" by (simp add: body_allowed_def)
  moreover have "url_string (in_url sample_incoming) = ''http://a/x''"
    "hvalues (in_header sample_incoming) ''x-id'' = [''1'']" by code_simp+
  ultimately show ?thesis
    using proxy_transparent [OF q sample_proxied sample_server_answers, of "[]"]
    by (auto simp: flow_simps answer_kept_def sends_def same_values_def ipa_response_def)
qed

text \<open>The purchase of the store with two versions, sent through the proxy.\<close>

definition purchase_incoming :: incoming where
  "purchase_incoming =
     \<lparr>in_method = r_method buy_request, in_url = r_url buy_request, in_proto = r_proto buy_request,
      in_header = r_header buy_request, in_host = ''p1-buy.itunes.apple.com'', in_remote = ''c:1'',
      in_body = bytes_reader (r_body buy_request)\<rparr>"

lemma purchase_answers:
  "server_answers sample_serve_env purchase_incoming (sample_serve st) ipa_response"
proof -
  have "usable_conn sample_serve_env (sv_conn (sample_serve st))"
    using sample_server_answers by (simp add: server_answers_def flow_simps)
  moreover have "canonical_header (r_header buy_request)" "canonical_header (hp_header ipa_response)"
    unfolding canonical_header_def by code_simp+
  ultimately show ?thesis using stream_limit_positive [of sample_options]
    by (simp add: server_answers_def sample_serve_env_def calm_env_def ipa_response_def purchase_incoming_def)
qed

theorem purchase_through_proxy_witness:
  "\<exists>s'. ServeHTTP sample_serve_env [ipaversion_addon two_versions_lib (store_env False)] purchase_incoming
       (sample_serve (new_addon, empty_world)) = (Leave, s') \<and>
     rw_body (sv_rw s') = ''ipa'' \<and> done_sent (fst (sv_addons s')) = [True] \<and> locked (fst (sv_addons s'))"
proof -
  have p: "proxied purchase_incoming" by code_simp
  have b: "buffered sample_serve_env (in_body purchase_incoming)" unfolding buffered_def by code_simp
  have url: "contains (url_string (r_url buy_request)) targetUrlSubstr" by code_simp
  have q: "(newRequest (in_method purchase_incoming) (in_url purchase_incoming)
      (in_proto purchase_incoming) (in_header purchase_incoming))
      \<lparr>r_body := rdata (in_body purchase_incoming)\<rparr> = buy_request"
    by (simp add: purchase_incoming_def newRequest_def)
  have "handled True (new_addon\<lparr>locked := True\<rparr>) (fst (handleBuyRequest two_versions_lib (store_env False)
      buy_request (new_addon\<lparr>locked := True\<rparr>) empty_world))"
    using handleBuyRequest_handled [of two_versions_lib "store_env False" buy_request empty_world
        "new_addon\<lparr>locked := True\<rparr>"] buy_reply_sample(1) by (simp add: empty_world_def)
  from handled_fields [OF this] url have "let x = Addon_Request two_versions_lib (store_env False)
      buy_request new_addon empty_world in done_sent (fst x) = [True] \<and> locked (fst x)"
    by (simp add: Addon_Request_def new_addon_def)
  moreover have "body_allowed 200" by (simp add: body_allowed_def)
  ultimately show ?thesis
    using b q purchase_through_proxy [OF p purchase_answers, of _ new_addon empty_world
      two_versions_lib "store_env False"]
    by (auto simp: flow_simps answer_kept_def ipa_response_def Let_def)
qed

text \<open>An addon that blocks every request.\<close>

definition blocking_addon :: "Flow list addon_ops" where
  "blocking_addon = BaseAddon\<lparr>on_Requestheaders := (\<lambda>f s.
     (Ret (), f\<lparr>f_response := Some ((new_response 403 None False)\<lparr>s_body := Some ''no''\<rparr>)\<rparr>, s))\<rparr>"

theorem addon_short_circuits_witness:
  "\<exists>s'. ServeHTTP sample_serve_env [LogAddon, blocking_addon, LogAddon] sample_incoming
       (sample_serve []) = (Leave, s') \<and> sv_sent s' = [] \<and>
     rw_status (sv_rw s') = Some 403 \<and> rw_body (sv_rw s') = ''no'' \<and> length (sv_trace s') = 2"
proof -
  have q: "list_all quiet_addon [LogAddon]" by (simp add: log_addon.quiet_addon_axioms)
  let ?f0 = "newFlow (newRequest (in_method sample_incoming) (in_url sample_incoming)
    (in_proto sample_incoming) (in_header sample_incoming))"
  let ?rp = "(new_response 403 None False)\<lparr>s_body := Some ''no''\<rparr>"
  have a: "on_Requestheaders blocking_addon ?f0 st = (Ret (), ?f0\<lparr>f_response := Some ?rp\<rparr>, st)" for st
    by (simp add: blocking_addon_def)
  have rp: "StatusCode ?rp = 403" "response_bytes ?rp = ''no''" "body_allowed 403"
    by (simp_all add: new_response_def response_bytes_def body_allowed_def)
  from addon_short_circuits [OF q sample_proxied _ refl a, where rp = ?rp and V = sample_serve_env and
      as = "[LogAddon]" and s = "sample_serve []"] rp
  show ?thesis by (auto simp: flow_simps)
qed

end
