(* ===== verification/Cert.thy ===== *)
theory Cert
  imports Conn_Props
begin

text \<open>
  \<open>lib/go-mitmproxy/cert/cert.go\<close>: where the CA is stored, loading it, creating and saving it when
  there is none, and the certificates that are signed for the hosts a client asks for. The
  cryptography (RSA, X.509, PEM, the parser of IP addresses) and the LRU cache are parameters;
  what a statement relies on is a hypothesis of the statement. Error texts that the source has
  in Chinese are given in English.
\<close>

section \<open>Libraries\<close>

type_synonym rsa_key = bytes

text \<open>A parsed certificate: what the program uses of it is the DER bytes it was parsed from.\<close>

record Certificate =
  Raw :: bytes

datatype pkcs8_key = RsaKey rsa_key | OtherKey

record pem_block =
  pem_type :: string
  pem_bytes :: bytes

datatype key_usage = CertSign | CRLSign

datatype ext_key_usage =
    ServerAuth | ClientAuth | EmailProtection | TimeStamping | CodeSigning
  | MicrosoftCommercialCodeSigning | MicrosoftServerGatedCrypto | NetscapeServerGatedCrypto

record cert_template =
  SerialNumber :: int
  CommonName :: string
  Organization :: "string list"
  NotBefore :: int
  NotAfter :: int
  BasicConstraintsValid :: bool
  IsCA :: bool
  KeyUsage :: "key_usage list"
  ExtKeyUsage :: "ext_key_usage list"
  IPAddresses :: "bytes list"
  DNSNames :: "string list"

text \<open>Who signs: the template itself, or the root certificate.\<close>

datatype issuer = SelfSigned | IssuedBy Certificate

record crypto_lib =
  clock :: "nat \<Rightarrow> int"
  generate_key :: "nat \<Rightarrow> gerr + rsa_key"
  create_certificate :: "nat \<Rightarrow> cert_template \<Rightarrow> issuer \<Rightarrow> rsa_key \<Rightarrow> gerr + bytes"
  parse_certificate :: "bytes \<Rightarrow> gerr + Certificate"
  marshal_pkcs8 :: "rsa_key \<Rightarrow> gerr + bytes"
  parse_pkcs8 :: "bytes \<Rightarrow> gerr + pkcs8_key"
  parse_pkcs1 :: "bytes \<Rightarrow> gerr + rsa_key"
  pem_encode :: "pem_block \<Rightarrow> bytes"
  pem_decode :: "bytes \<Rightarrow> (pem_block \<times> bytes) option"
  parse_ip :: "string \<Rightarrow> bytes option"
  raw_bytes :: "content \<Rightarrow> bytes"

record CA =
  PrivateKey :: rsa_key
  RootCert :: Certificate
  StorePath :: string

definition errCaNotFound :: gerr where
  "errCaNotFound = ESentinel ''ca not found''"

section \<open>Creating a root certificate\<close>

definition hour :: int where "hour = 3600000000000"

definition root_template :: "crypto_lib \<Rightarrow> nat \<Rightarrow> cert_template" where
  "root_template X t =
     \<lparr>SerialNumber = clock X t div 100000, CommonName = ''mitmproxy'',
      Organization = [''mitmproxy''], NotBefore = clock X (t + 1) - 48 * hour,
      NotAfter = clock X (t + 2) + 24 * 365 * 3 * hour, BasicConstraintsValid = True,
      IsCA = True, KeyUsage = [CertSign, CRLSign],
      ExtKeyUsage = [ServerAuth, ClientAuth, EmailProtection, TimeStamping, CodeSigning,
        MicrosoftCommercialCodeSigning, MicrosoftServerGatedCrypto, NetscapeServerGatedCrypto],
      IPAddresses = [], DNSNames = []\<rparr>"

definition createCert :: "crypto_lib \<Rightarrow> world \<Rightarrow> (gerr + rsa_key \<times> Certificate) \<times> world" where
  "createCert X w =
     (let t = tick w; w1 = w\<lparr>tick := t + 5\<rparr>
      in case generate_key X t of
           Inl err \<Rightarrow> (Inl err, w1)
         | Inr key \<Rightarrow>
             (case create_certificate X (t + 4) (root_template X (t + 1)) SelfSigned key of
                Inl err \<Rightarrow> (Inl err, w1)
              | Inr certBytes \<Rightarrow>
                  (case parse_certificate X certBytes of
                     Inl err \<Rightarrow> (Inl err, w1)
                   | Inr cert \<Rightarrow> (Inr (key, cert), w1))))"

definition NewCAMemory :: "crypto_lib \<Rightarrow> world \<Rightarrow> (gerr + CA) \<times> world" where
  "NewCAMemory X w =
     (case createCert X w of
        (Inl err, w1) \<Rightarrow> (Inl err, w1)
      | (Inr (key, cert), w1) \<Rightarrow> (Inr \<lparr>PrivateKey = key, RootCert = cert, StorePath = []\<rparr>, w1))"

section \<open>The store\<close>

definition getStorePath ::
  "env \<Rightarrow> gerr + string \<Rightarrow> gerr + string \<Rightarrow> string \<Rightarrow> world \<Rightarrow> (gerr + string) \<times> world" where
  "getStorePath E homeDir getwd path0 w =
     (case (if path0 = [] then (case homeDir of Inl e \<Rightarrow> Inl e | Inr h \<Rightarrow> Inr (path_join h ''.mitmproxy''))
            else Inr path0) of
        Inl err \<Rightarrow> (Inl err, w)
      | Inr path1 \<Rightarrow>
     (case (if \<not> is_abs path1 then (case getwd of Inl e \<Rightarrow> Inl e | Inr d \<Rightarrow> Inr (path_join d path1))
            else Inr path1) of
        Inl err \<Rightarrow> (Inl err, w)
      | Inr path \<Rightarrow>
     (case os_stat E path w of
        (Inl err, w1) \<Rightarrow>
          if is_not_exist err
          then (case os_mkdir_all E path w1 of
                  (Some err2, w2) \<Rightarrow> (Inl err2, w2)
                | (None, w2) \<Rightarrow> (Inr path, w2))
          else (Inl err, w1)
      | (Inr DirNode, w1) \<Rightarrow> (Inr path, w1)
      | (Inr (FileNode _), w1) \<Rightarrow> (Inl (EMsg (path @ '' is not a directory'')), w1))))"

definition caFile :: "CA \<Rightarrow> string" where
  "caFile ca = path_join (StorePath ca) ''mitmproxy-ca.pem''"

definition caCertFile :: "CA \<Rightarrow> string" where
  "caCertFile ca = path_join (StorePath ca) ''mitmproxy-ca-cert.pem''"

definition caCertCerFile :: "CA \<Rightarrow> string" where
  "caCertCerFile ca = path_join (StorePath ca) ''mitmproxy-ca-cert.cer''"

text \<open>The key block: PKCS#8, or PKCS#1 when the error says so.\<close>

definition parse_key :: "crypto_lib \<Rightarrow> bytes \<Rightarrow> gerr + rsa_key" where
  "parse_key X der =
     (case parse_pkcs8 X der of
        Inl err \<Rightarrow>
          if contains (err_text err) ''use ParsePKCS1PrivateKey instead'' then parse_pkcs1 X der
          else Inl err
      | Inr (RsaKey key) \<Rightarrow> Inr key
      | Inr OtherKey \<Rightarrow> Inl (EMsg ''found unknown rsa private key type in PKCS#8 wrapping''))"

text \<open>The two blocks of the CA file.\<close>

definition parse_ca_file :: "crypto_lib \<Rightarrow> string \<Rightarrow> bytes \<Rightarrow> gerr + rsa_key \<times> Certificate" where
  "parse_ca_file X file data =
     (case pem_decode X data of
        None \<Rightarrow> Inl (EMsg (file @ '' has no PRIVATE KEY''))
      | Some (keyDERBlock, rest) \<Rightarrow>
     (case pem_decode X rest of
        None \<Rightarrow> Inl (EMsg (file @ '' has no CERTIFICATE''))
      | Some (certDERBlock, _) \<Rightarrow>
     (case parse_key X (pem_bytes keyDERBlock) of
        Inl err \<Rightarrow> Inl err
      | Inr key \<Rightarrow>
     (case parse_certificate X (pem_bytes certDERBlock) of
        Inl err \<Rightarrow> Inl err
      | Inr cert \<Rightarrow> Inr (key, cert)))))"

definition load_ca :: "crypto_lib \<Rightarrow> env \<Rightarrow> CA \<Rightarrow> world \<Rightarrow> (gerr + CA) \<times> world" where
  "load_ca X E ca w =
     (case os_stat E (caFile ca) w of
        (Inl err, w1) \<Rightarrow> (if is_not_exist err then (Inl errCaNotFound, w1) else (Inl err, w1))
      | (Inr DirNode, w1) \<Rightarrow> (Inl (EMsg (caFile ca @ '' is not a file'')), w1)
      | (Inr (FileNode _), w1) \<Rightarrow>
     (case os_read_file E (caFile ca) w1 of
        (Inl err, w2) \<Rightarrow> (Inl err, w2)
      | (Inr c, w2) \<Rightarrow>
     (case parse_ca_file X (caFile ca) (case c of Bytes b \<Rightarrow> b | _ \<Rightarrow> raw_bytes X c) of
        Inl err \<Rightarrow> (Inl err, w2)
      | Inr (key, cert) \<Rightarrow> (Inr (ca\<lparr>PrivateKey := key, RootCert := cert\<rparr>), w2))))"

section \<open>Saving\<close>

definition key_block :: "bytes \<Rightarrow> pem_block" where
  "key_block b = \<lparr>pem_type = ''PRIVATE KEY'', pem_bytes = b\<rparr>"

definition cert_block :: "bytes \<Rightarrow> pem_block" where
  "cert_block b = \<lparr>pem_type = ''CERTIFICATE'', pem_bytes = b\<rparr>"

definition saveCertTo ::
  "crypto_lib \<Rightarrow> env \<Rightarrow> CA \<Rightarrow> string \<Rightarrow> world \<Rightarrow> gerr option \<times> world" where
  "saveCertTo X E ca out w = file_write E out (pem_encode X (cert_block (Raw (RootCert ca)))) w"

definition saveTo :: "crypto_lib \<Rightarrow> env \<Rightarrow> CA \<Rightarrow> string \<Rightarrow> world \<Rightarrow> gerr option \<times> world" where
  "saveTo X E ca out w =
     (case marshal_pkcs8 X (PrivateKey ca) of
        Inl err \<Rightarrow> (Some err, w)
      | Inr keyBytes \<Rightarrow>
          (case file_write E out (pem_encode X (key_block keyBytes)) w of
             (Some err, w1) \<Rightarrow> (Some err, w1)
           | (None, w1) \<Rightarrow> saveCertTo X E ca out w1))"

definition save_ca :: "crypto_lib \<Rightarrow> env \<Rightarrow> CA \<Rightarrow> world \<Rightarrow> gerr option \<times> world" where
  "save_ca X E ca w =
     (case os_create E (caFile ca) w of
        (Some err, w1) \<Rightarrow> (Some err, w1)
      | (None, w1) \<Rightarrow>
          (case saveTo X E ca (caFile ca) w1 of (r, w2) \<Rightarrow> (r, close_handle (caFile ca) w2)))"

text \<open>\<open>saveCert\<close>: both deferred closes run at its end, the second file's first.\<close>

definition saveCert :: "crypto_lib \<Rightarrow> env \<Rightarrow> CA \<Rightarrow> world \<Rightarrow> gerr option \<times> world" where
  "saveCert X E ca w =
     (case os_create E (caCertFile ca) w of
        (Some err, w1) \<Rightarrow> (Some err, w1)
      | (None, w1) \<Rightarrow>
     (case saveCertTo X E ca (caCertFile ca) w1 of
        (Some err, w2) \<Rightarrow> (Some err, close_handle (caCertFile ca) w2)
      | (None, w2) \<Rightarrow>
     (case os_create E (caCertCerFile ca) w2 of
        (Some err, w3) \<Rightarrow> (Some err, close_handle (caCertFile ca) w3)
      | (None, w3) \<Rightarrow>
          (case saveCertTo X E ca (caCertCerFile ca) w3 of
             (r, w4) \<Rightarrow> (r, close_handle (caCertFile ca) (close_handle (caCertCerFile ca) w4))))))"

definition create_ca :: "crypto_lib \<Rightarrow> env \<Rightarrow> CA \<Rightarrow> world \<Rightarrow> (gerr + CA) \<times> world" where
  "create_ca X E ca w =
     (case createCert X w of
        (Inl err, w1) \<Rightarrow> (Inl err, w1)
      | (Inr (key, cert), w1) \<Rightarrow>
          (let ca1 = ca\<lparr>PrivateKey := key, RootCert := cert\<rparr>
           in case save_ca X E ca1 w1 of
                (Some err, w2) \<Rightarrow> (Inl err, w2)
              | (None, w2) \<Rightarrow>
                  (case saveCert X E ca1 w2 of
                     (Some err, w3) \<Rightarrow> (Inl err, w3)
                   | (None, w3) \<Rightarrow> (Inr ca1, w3))))"

text \<open>A \<open>CA\<close> with the zero values of its key and certificate.\<close>

definition empty_ca :: "string \<Rightarrow> CA" where
  "empty_ca storePath = \<lparr>PrivateKey = [], RootCert = \<lparr>Raw = []\<rparr>, StorePath = storePath\<rparr>"

definition NewCA ::
  "crypto_lib \<Rightarrow> env \<Rightarrow> gerr + string \<Rightarrow> gerr + string \<Rightarrow> string \<Rightarrow> world \<Rightarrow> (gerr + CA) \<times> world" where
  "NewCA X E homeDir getwd path w =
     (case getStorePath E homeDir getwd path w of
        (Inl err, w1) \<Rightarrow> (Inl err, w1)
      | (Inr storePath, w1) \<Rightarrow>
          (case load_ca X E (empty_ca storePath) w1 of
             (Inr ca, w2) \<Rightarrow> (Inr ca, w2)
           | (Inl err, w2) \<Rightarrow>
               if err \<noteq> errCaNotFound then (Inl err, w2)
               else create_ca X E (empty_ca storePath) w2))"

section \<open>Certificates for hosts\<close>

record tls_certificate =
  cert_chain :: "bytes list"
  cert_key :: rsa_key

definition dummy_template :: "crypto_lib \<Rightarrow> string \<Rightarrow> nat \<Rightarrow> cert_template" where
  "dummy_template X commonName t =
     (let template =
        \<lparr>SerialNumber = clock X t div 100000, CommonName = commonName,
         Organization = [''mitmproxy''], NotBefore = clock X (t + 1) - 48 * hour,
         NotAfter = clock X (t + 2) + 24 * 365 * hour, BasicConstraintsValid = False,
         IsCA = False, KeyUsage = [], ExtKeyUsage = [ServerAuth, ClientAuth],
         IPAddresses = [], DNSNames = []\<rparr>
      in case parse_ip X commonName of
           Some ip \<Rightarrow> template\<lparr>IPAddresses := [ip]\<rparr>
         | None \<Rightarrow> template\<lparr>DNSNames := [commonName]\<rparr>)"

definition DummyCert ::
  "crypto_lib \<Rightarrow> CA \<Rightarrow> string \<Rightarrow> nat \<Rightarrow> (gerr + tls_certificate) \<times> nat" where
  "DummyCert X ca commonName t =
     (case create_certificate X (t + 3) (dummy_template X commonName t) (IssuedBy (RootCert ca))
             (PrivateKey ca) of
        Inl err \<Rightarrow> (Inl err, t + 4)
      | Inr certBytes \<Rightarrow> (Inr \<lparr>cert_chain = [certBytes], cert_key = PrivateKey ca\<rparr>, t + 4))"

text \<open>The operations of \<open>groupcache/lru\<close> that the CA uses; a lookup also reorders the cache.\<close>

record 'c lru_ops =
  lru_get :: "'c \<Rightarrow> string \<Rightarrow> tls_certificate option \<times> 'c"
  lru_add :: "'c \<Rightarrow> string \<Rightarrow> tls_certificate \<Rightarrow> 'c"

text \<open>
  \<open>GetCert\<close> for one caller at a time; then \<open>singleflight\<close> runs the function it is given. The
  clock stands for the signatures that were made.
\<close>

definition GetCert ::
  "crypto_lib \<Rightarrow> 'c lru_ops \<Rightarrow> CA \<Rightarrow> string \<Rightarrow> 'c \<Rightarrow> nat \<Rightarrow> (gerr + tls_certificate) \<times> 'c \<times> nat" where
  "GetCert X U ca commonName cache t =
     (case lru_get U cache commonName of
        (Some val, cache1) \<Rightarrow> (Inr val, cache1, t)
      | (None, cache1) \<Rightarrow>
          (case DummyCert X ca commonName t of
             (Inl err, t1) \<Rightarrow> (Inl err, cache1, t1)
           | (Inr cert, t1) \<Rightarrow> (Inr cert, lru_add U cache1 commonName cert, t1)))"

end
