(* ===== verification/Cert_Props.thy ===== *)
theory Cert_Props
  imports Cert
begin

text \<open>
  Properties of \<open>cert.go\<close>: a CA that was created is the one that is loaded afterwards, an existing
  CA file is never overwritten, an interrupted creation is never repaired, and every
  certificate that is served was signed by this CA for the host that was asked for.
\<close>

section \<open>The files of the store\<close>

lemma split_on_no_sep: "c \<notin> set s \<Longrightarrow> split_on c s = [s]"
  by (induction s) auto

lemma split_on_append: "split_on c (s @ c # t) = split_on c s @ split_on c t"
proof (induction s)
  case (Cons a s)
  have "split_on c s \<noteq> []" by (cases s) (auto split: list.splits)
  with Cons show ?case by (auto split: list.splits simp: Cons_eq_append_conv)
qed simp

lemma join_with_snoc: "join_with sep (es @ [f]) = (if es = [] then f else join_with sep es @ sep @ f)"
  by (induction sep es rule: join_with.induct) auto

definition plain_name :: "string \<Rightarrow> bool" where
  "plain_name f \<longleftrightarrow> f \<noteq> [] \<and> CHR ''/'' \<notin> set f \<and> f \<noteq> ''.'' \<and> f \<noteq> ''..''"

lemma path_join_suffix:
  assumes "plain_name f"
  shows "suffix f (path_join d f)"
proof -
  have clean: "suffix f (path_clean p)" if "split_on (CHR ''/'') p = es @ [f]" for p es
    using assms that by (auto simp: path_clean_def plain_name_def Let_def join_with_snoc suffix_def)
  have s: "split_on (CHR ''/'') f = [f]" using assms by (simp add: plain_name_def split_on_no_sep)
  show ?thesis
  proof (cases "d = []")
    case True
    with assms clean [of f "[]"] s show ?thesis by (simp add: path_join_def plain_name_def)
  next
    case False
    with clean [of "d @ CHR ''/'' # f" "split_on (CHR ''/'') d"] s show ?thesis
      by (simp add: path_join_def split_on_append)
  qed
qed

lemma not_same_suffix: "suffix a x \<Longrightarrow> suffix b y \<Longrightarrow> \<not> suffix a b \<Longrightarrow> \<not> suffix b a \<Longrightarrow> x \<noteq> y"
  using suffix_same_cases by blast

lemma ca_files_distinct:
  "caFile ca \<noteq> caCertFile ca" "caFile ca \<noteq> caCertCerFile ca" "caCertFile ca \<noteq> caCertCerFile ca"
proof -
  have a: "suffix ''mitmproxy-ca.pem'' (caFile ca)"
    unfolding caFile_def by (rule path_join_suffix) (simp add: plain_name_def)
  have b: "suffix ''mitmproxy-ca-cert.pem'' (caCertFile ca)"
    unfolding caCertFile_def by (rule path_join_suffix) (simp add: plain_name_def)
  have c: "suffix ''mitmproxy-ca-cert.cer'' (caCertCerFile ca)"
    unfolding caCertCerFile_def by (rule path_join_suffix) (simp add: plain_name_def)
  show "caFile ca \<noteq> caCertFile ca"
    by (rule not_same_suffix [OF a b]) (simp_all add: suffix_to_prefix)
  show "caFile ca \<noteq> caCertCerFile ca"
    by (rule not_same_suffix [OF a c]) (simp_all add: suffix_to_prefix)
  show "caCertFile ca \<noteq> caCertCerFile ca"
    by (rule not_same_suffix [OF b c]) (simp_all add: suffix_to_prefix)
qed

lemma ca_files_store [simp]:
  "caFile (ca\<lparr>PrivateKey := k, RootCert := c\<rparr>) = caFile ca"
  "caCertFile (ca\<lparr>PrivateKey := k, RootCert := c\<rparr>) = caCertFile ca"
  "caCertCerFile (ca\<lparr>PrivateKey := k, RootCert := c\<rparr>) = caCertCerFile ca"
  by (simp_all add: caFile_def caCertFile_def caCertCerFile_def)

section \<open>An existing file is kept\<close>

lemma load_ca_frame: "nodes (snd (load_ca X E ca w)) = nodes w"
proof -
  obtain r w1 where 1: "os_stat E (caFile ca) w = (r, w1)" by force
  obtain r2 w2 where 2: "os_read_file E (caFile ca) w1 = (r2, w2)" by force
  from os_stat_world(1) [of E "caFile ca" w] os_read_file_world(1) [of E "caFile ca" w1] 1 2
  have "nodes w1 = nodes w" "nodes w2 = nodes w" by simp_all
  with 1 2 show ?thesis by (auto simp: load_ca_def split: sum.splits node.splits)
qed

text \<open>The variable \<open>errCaNotFound\<close> is private: no library returns it.\<close>

definition lib_errors :: "crypto_lib \<Rightarrow> bool" where
  "lib_errors X \<longleftrightarrow>
     (\<forall>b. parse_pkcs8 X b \<noteq> Inl errCaNotFound \<and> parse_pkcs1 X b \<noteq> Inl errCaNotFound \<and>
          parse_certificate X b \<noteq> Inl errCaNotFound)"

lemma parse_ca_file_sentinel: "lib_errors X \<Longrightarrow> parse_ca_file X f d \<noteq> Inl errCaNotFound"
  by (auto simp: parse_ca_file_def parse_key_def lib_errors_def errCaNotFound_def
      split: option.splits sum.splits pkcs8_key.splits if_splits)

lemma load_ca_not_found:
  assumes "lib_errors X" and "nodes w (caFile ca) \<noteq> None"
  shows "fst (load_ca X E ca w) \<noteq> Inl errCaNotFound"
proof -
  obtain r w1 where 1: "os_stat E (caFile ca) w = (r, w1)" by force
  obtain r2 w2 where 2: "os_read_file E (caFile ca) w1 = (r2, w2)" by force
  have "r = Inl e \<Longrightarrow> \<not> is_not_exist e \<and> e \<noteq> errCaNotFound" for e
    using 1 assms(2) by (auto simp: os_stat_def sys_def errCaNotFound_def split: option.splits)
  moreover have "r2 \<noteq> Inl errCaNotFound"
    using 2 by (auto simp: os_read_file_def sys_def errCaNotFound_def split: option.splits node.splits)
  ultimately show ?thesis
    using 1 2 parse_ca_file_sentinel [OF assms(1)]
    by (auto simp: load_ca_def errCaNotFound_def split: sum.splits node.splits content.splits)
qed

lemma getStorePath_empty: "caFile (empty_ca sp) = path_join sp ''mitmproxy-ca.pem''"
  by (simp add: caFile_def empty_ca_def)

lemma NewCA_present:
  assumes "lib_errors X" and "getStorePath E home wd path w = (Inr sp, w1)"
    and "nodes w1 (caFile (empty_ca sp)) \<noteq> None"
  shows "NewCA X E home wd path w = load_ca X E (empty_ca sp) w1"
  using assms load_ca_not_found [of X w1 "empty_ca sp" E]
  by (auto simp: NewCA_def split: sum.splits prod.splits)

text \<open>The bytes of a file, whatever wrote it.\<close>

definition content_bytes :: "crypto_lib \<Rightarrow> content \<Rightarrow> bytes" where
  "content_bytes X c = (case c of Bytes b \<Rightarrow> b | _ \<Rightarrow> raw_bytes X c)"

lemma load_ca_InrD:
  assumes "load_ca X E ca w = (Inr ca', w2)"
  shows "\<exists>c. nodes w (caFile ca) = Some (FileNode c) \<and> StorePath ca' = StorePath ca \<and>
    parse_ca_file X (caFile ca) (content_bytes X c) = Inr (PrivateKey ca', RootCert ca')"
proof -
  obtain r w1 where 1: "os_stat E (caFile ca) w = (r, w1)" by force
  obtain r2 w2' where 2: "os_read_file E (caFile ca) w1 = (r2, w2')" by force
  have n: "nodes w1 = nodes w" using os_stat_world(1) [of E "caFile ca" w] 1 by simp
  have "r2 = Inr c \<Longrightarrow> nodes w (caFile ca) = Some (FileNode c)" for c
    using 2 by (auto simp: os_read_file_def sys_def n split: option.splits node.splits)
  with assms 1 2 show ?thesis
    by (auto simp: load_ca_def content_bytes_def split: sum.splits node.splits if_splits)
qed

lemma load_ca_no_faults:
  assumes "no_faults E" and "nodes w (caFile ca) = Some (FileNode c)"
    and "parse_ca_file X (caFile ca) (content_bytes X c) = Inr (k, x)"
  shows "fst (load_ca X E ca w) = Inr (ca\<lparr>PrivateKey := k, RootCert := x\<rparr>)"
  using assms
  by (simp add: load_ca_def os_stat_def os_read_file_def sys_no_faults content_bytes_def)

text \<open>
  C32: a CA file that is there is never overwritten, whatever it contains and whatever fails:
  \<open>NewCA\<close> then changes nothing on disk, and it returns the key and the certificate that the
  file holds, or an error.
\<close>

theorem NewCA_keeps_existing:
  assumes "lib_errors X" and "getStorePath E home wd path w = (Inr sp, w1)"
    and "nodes w1 (caFile (empty_ca sp)) \<noteq> None"
  shows "nodes (snd (NewCA X E home wd path w)) = nodes w1 \<and>
    (\<forall>ca. fst (NewCA X E home wd path w) = Inr ca \<longrightarrow>
       (\<exists>c. nodes w1 (caFile (empty_ca sp)) = Some (FileNode c) \<and> StorePath ca = sp \<and>
          parse_ca_file X (caFile (empty_ca sp)) (content_bytes X c) = Inr (PrivateKey ca, RootCert ca)))"
proof -
  have "StorePath (empty_ca sp) = sp" by (simp add: empty_ca_def)
  then show ?thesis
    using load_ca_frame [of X E "empty_ca sp" w1] load_ca_InrD [of X E "empty_ca sp" w1]
    unfolding NewCA_present [OF assms] by (metis prod.collapse)
qed

section \<open>What is created is loaded again\<close>

text \<open>
  What the program relies on of its libraries: a PEM block that was encoded is decoded first,
  a PKCS#8 key is parsed back, and the raw bytes of a parsed certificate are what was parsed.
\<close>

definition pem_laws :: "crypto_lib \<Rightarrow> bool" where
  "pem_laws X \<longleftrightarrow>
     (\<forall>b rest. pem_decode X (pem_encode X b @ rest) = Some (b, rest)) \<and>
     (\<forall>k b. marshal_pkcs8 X k = Inr b \<longrightarrow> parse_pkcs8 X b = Inr (RsaKey k)) \<and>
     (\<forall>b c. parse_certificate X b = Inr c \<longrightarrow> Raw c = b)"

lemma parse_ca_file_saved:
  assumes "pem_laws X" and "marshal_pkcs8 X key = Inr b" and "parse_certificate X (Raw cert) = Inr cert"
  shows "parse_ca_file X f (pem_encode X (key_block b) @ pem_encode X (cert_block (Raw cert))) =
    Inr (key, cert)"
proof -
  have d: "pem_decode X (pem_encode X x @ rest) = Some (x, rest)" for x rest
    using assms(1) by (simp add: pem_laws_def)
  from d [of "cert_block (Raw cert)" "[]"]
  have "pem_decode X (pem_encode X (cert_block (Raw cert))) = Some (cert_block (Raw cert), [])" by simp
  moreover have "parse_pkcs8 X b = Inr (RsaKey key)" using assms(1,2) by (simp add: pem_laws_def)
  ultimately show ?thesis
    using assms(3) by (simp add: parse_ca_file_def d parse_key_def key_block_def cert_block_def)
qed

lemma save_ca_NoneD:
  assumes "save_ca X E ca w = (None, w1)"
  shows "\<exists>b. marshal_pkcs8 X (PrivateKey ca) = Inr b \<and>
    nodes w1 = (nodes w)(caFile ca \<mapsto> FileNode (Bytes
      (pem_encode X (key_block b) @ pem_encode X (cert_block (Raw (RootCert ca))))))"
proof -
  from assms obtain wa wb where
    a: "os_create E (caFile ca) w = (None, wa)" and b: "saveTo X E ca (caFile ca) wa = (None, wb)"
    and w1: "w1 = close_handle (caFile ca) wb"
    by (auto simp: save_ca_def split: prod.splits option.splits)
  from b obtain kb wc where k: "marshal_pkcs8 X (PrivateKey ca) = Inr kb"
    and c: "file_write E (caFile ca) (pem_encode X (key_block kb)) wa = (None, wc)"
    and d: "file_write E (caFile ca) (pem_encode X (cert_block (Raw (RootCert ca)))) wc = (None, wb)"
    by (auto simp: saveTo_def saveCertTo_def split: sum.splits prod.splits option.splits)
  from os_create_NoneD [OF a] have n: "nodes wa (caFile ca) = Some (FileNode (Bytes []))" by simp
  from file_write_ok [OF n c] have nc: "nodes wc (caFile ca) = Some (FileNode (Bytes (pem_encode X (key_block kb))))"
    by simp
  from file_write_ok [OF nc d] file_write_ok [OF n c] os_create_NoneD [OF a] k show ?thesis
    by (intro exI [of _ kb]) (simp add: w1 world_simps)
qed

lemma saveCert_frame:
  assumes "q \<noteq> caCertFile ca" and "q \<noteq> caCertCerFile ca"
  shows "nodes (snd (saveCert X E ca w)) q = nodes w q"
proof -
  obtain r1 wa where a: "os_create E (caCertFile ca) w = (r1, wa)" by force
  obtain r2 wb where b: "saveCertTo X E ca (caCertFile ca) wa = (r2, wb)" by force
  obtain r3 wc where c: "os_create E (caCertCerFile ca) wb = (r3, wc)" by force
  obtain r4 wd where d: "saveCertTo X E ca (caCertCerFile ca) wc = (r4, wd)" by force
  have "nodes wa q = nodes w q" using a assms(1) os_create_world(2) [of q "caCertFile ca" E w] by simp
  moreover have "nodes wb q = nodes wa q"
    using b file_write_world(3) [OF assms(1), of E _ wa] by (metis saveCertTo_def snd_conv)
  moreover have "nodes wc q = nodes wb q"
    using c assms(2) os_create_world(2) [of q "caCertCerFile ca" E wb] by simp
  moreover have "nodes wd q = nodes wc q"
    using d file_write_world(3) [OF assms(2), of E _ wc] by (metis saveCertTo_def snd_conv)
  ultimately show ?thesis
    using a b c d by (auto simp: saveCert_def world_simps split: option.splits)
qed

lemma createCert_InrD:
  "createCert X w = (Inr (key, cert), w1) \<Longrightarrow>
     nodes w1 = nodes w \<and> (\<exists>b. parse_certificate X b = Inr cert)"
  by (auto simp: createCert_def Let_def split: sum.splits)

lemma create_ca_InrD:
  assumes "pem_laws X" and "create_ca X E ca w = (Inr ca', w2)"
  shows "StorePath ca' = StorePath ca \<and>
    (\<exists>b. nodes w2 (caFile ca) = Some (FileNode (Bytes b)) \<and>
       parse_ca_file X (caFile ca) b = Inr (PrivateKey ca', RootCert ca'))"
proof -
  from assms(2) obtain key cert wa wb where
    a: "createCert X w = (Inr (key, cert), wa)"
    and ca': "ca' = ca\<lparr>PrivateKey := key, RootCert := cert\<rparr>"
    and b: "save_ca X E ca' wa = (None, wb)" and c: "saveCert X E ca' wb = (None, w2)"
    by (auto simp: create_ca_def Let_def split: sum.splits prod.splits option.splits)
  from createCert_InrD [OF a] obtain d where d: "parse_certificate X d = Inr cert" by blast
  with assms(1) have raw: "parse_certificate X (Raw cert) = Inr cert" by (auto simp: pem_laws_def)
  from save_ca_NoneD [OF b] obtain kb where kb: "marshal_pkcs8 X key = Inr kb"
    and n: "nodes wb = (nodes wa)(caFile ca \<mapsto> FileNode (Bytes
      (pem_encode X (key_block kb) @ pem_encode X (cert_block (Raw cert)))))"
    by (auto simp: ca')
  have "nodes w2 (caFile ca) = nodes wb (caFile ca)"
    using saveCert_frame [of "caFile ca" ca' X E wb] c ca_files_distinct [of ca] by (simp add: ca')
  with n parse_ca_file_saved [OF assms(1) kb raw, of "caFile ca"] show ?thesis
    by (simp add: ca')
qed

lemma NewCA_stored:
  assumes "pem_laws X" and "NewCA X E home wd path w = (Inr ca, w2)"
  shows "\<exists>c. nodes w2 (caFile (empty_ca (StorePath ca))) = Some (FileNode c) \<and>
    parse_ca_file X (caFile (empty_ca (StorePath ca))) (content_bytes X c) = Inr (PrivateKey ca, RootCert ca)"
proof -
  have sp: "StorePath (empty_ca s) = s" for s by (simp add: empty_ca_def)
  from assms(2) obtain s w1 where g: "getStorePath E home wd path w = (Inr s, w1)"
    by (auto simp: NewCA_def split: sum.splits prod.splits)
  obtain r wl where l: "load_ca X E (empty_ca s) w1 = (r, wl)" by force
  show ?thesis
  proof (cases r)
    case (Inr ca0)
    with assms(2) g l have "ca = ca0" "w2 = wl" by (auto simp: NewCA_def)
    moreover have "nodes wl = nodes w1" using load_ca_frame [of X E "empty_ca s" w1] l by simp
    ultimately show ?thesis using load_ca_InrD [of X E "empty_ca s" w1 ca0 wl] l Inr sp by auto
  next
    case (Inl err)
    with assms(2) g l have c: "create_ca X E (empty_ca s) wl = (Inr ca, w2)"
      by (auto simp: NewCA_def split: if_splits)
    from create_ca_InrD [OF assms(1) c] sp show ?thesis by (auto simp: content_bytes_def)
  qed
qed

text \<open>
  C31: what \<open>NewCA\<close> returned, created or loaded, is what a later \<open>NewCA\<close> on the same store returns
  when no call fails, as long as the CA file is as it was left: the root certificate that users
  installed stays valid. The later call changes nothing on disk.
\<close>

theorem NewCA_roundtrip:
  assumes "pem_laws X" and "lib_errors X" and "no_faults E2"
    and "NewCA X E home wd path w = (Inr ca, w2)"
    and "getStorePath E2 home2 wd2 path2 w3 = (Inr (StorePath ca), w4)"
    and "nodes w4 (caFile (empty_ca (StorePath ca))) = nodes w2 (caFile (empty_ca (StorePath ca)))"
  shows "fst (NewCA X E2 home2 wd2 path2 w3) = Inr ca \<and>
    nodes (snd (NewCA X E2 home2 wd2 path2 w3)) = nodes w4"
proof -
  from NewCA_stored [OF assms(1,4)] obtain c where
    c: "nodes w4 (caFile (empty_ca (StorePath ca))) = Some (FileNode c)"
      "parse_ca_file X (caFile (empty_ca (StorePath ca))) (content_bytes X c) = Inr (PrivateKey ca, RootCert ca)"
    using assms(6) by auto
  have "nodes w4 (caFile (empty_ca (StorePath ca))) \<noteq> None" using c(1) by simp
  from NewCA_present [OF assms(2,5) this] load_ca_no_faults [OF assms(3) c]
    load_ca_frame [of X E2 "empty_ca (StorePath ca)" w4]
  show ?thesis by (simp add: empty_ca_def)
qed

section \<open>What NewCA writes\<close>

definition store_files :: "string \<Rightarrow> string set" where
  "store_files sp =
     {sp, caFile (empty_ca sp), caCertFile (empty_ca sp), caCertCerFile (empty_ca sp)}"

lemma getStorePath_frame:
  assumes "getStorePath E hm wd path w = (Inr sp, w1)" and "q \<noteq> sp"
  shows "nodes w1 q = nodes w q"
proof -
  obtain r w2 where st: "os_stat E sp w = (r, w2)" by force
  then have n: "nodes w2 = nodes w" using os_stat_world(1) [of E sp w] by simp
  obtain r3 w3 where mk: "os_mkdir_all E sp w2 = (r3, w3)" by force
  then have "nodes w3 q = nodes w2 q" using os_mkdir_all_world(3) [OF assms(2), of E w2] by simp
  moreover have "w1 = w2 \<or> w1 = w3"
    using assms(1) st mk
    by (auto simp: getStorePath_def split: sum.splits prod.splits node.splits option.splits if_splits)
  ultimately show ?thesis using n by auto
qed

lemma saveTo_frame:
  assumes "q \<noteq> p"
  shows "nodes (snd (saveTo X E ca p w)) q = nodes w q"
proof (cases "marshal_pkcs8 X (PrivateKey ca)")
  case (Inr k)
  obtain r w1 where 1: "file_write E p (pem_encode X (key_block k)) w = (r, w1)" by force
  with file_write_world(3) [OF assms, of E _ w] have "nodes w1 q = nodes w q" by (metis snd_conv)
  with file_write_world(3) [OF assms, of E _ w1] 1 Inr show ?thesis
    by (simp add: saveTo_def saveCertTo_def split: option.split)
qed (simp add: saveTo_def)

lemma save_ca_frame:
  assumes "q \<noteq> caFile ca"
  shows "nodes (snd (save_ca X E ca w)) q = nodes w q"
proof -
  obtain r w1 where 1: "os_create E (caFile ca) w = (r, w1)" by force
  obtain r2 w2 where 2: "saveTo X E ca (caFile ca) w1 = (r2, w2)" by force
  from saveTo_frame [OF assms, of X E ca w1] os_create_world(2) [OF assms, of E w] 1 2 show ?thesis
    by (simp add: save_ca_def world_simps split: option.split)
qed

lemma create_ca_frame:
  assumes "q \<notin> {caFile ca, caCertFile ca, caCertCerFile ca}"
  shows "nodes (snd (create_ca X E ca w)) q = nodes w q"
proof -
  obtain r w1 where 1: "createCert X w = (r, w1)" by force
  have w1: "nodes w1 = nodes w" using 1 by (auto simp: createCert_def Let_def split: sum.splits)
  show ?thesis
  proof (cases r)
    case (Inl e)
    with 1 w1 show ?thesis by (simp add: create_ca_def)
  next
    case (Inr x)
    obtain key cert where x: "x = (key, cert)" by force
    let ?ca = "ca\<lparr>PrivateKey := key, RootCert := cert\<rparr>"
    obtain r2 w2 where 2: "save_ca X E ?ca w1 = (r2, w2)" by force
    obtain r3 w3 where 3: "saveCert X E ?ca w2 = (r3, w3)" by force
    have "nodes w2 q = nodes w1 q" "nodes w3 q = nodes w2 q"
      using save_ca_frame [of q ?ca X E w1] saveCert_frame [of q ?ca X E w2] 2 3 assms by simp_all
    with 1 2 3 w1 Inr x show ?thesis by (auto simp: create_ca_def Let_def split: option.split)
  qed
qed

lemma NewCA_frame:
  assumes "NewCA X E hm wd path w = (Inr ca, w1)" and "q \<notin> store_files (StorePath ca)"
  shows "nodes w1 q = nodes w q"
proof -
  have sp: "StorePath (empty_ca s) = s" for s by (simp add: empty_ca_def)
  from assms(1) obtain s wa where g: "getStorePath E hm wd path w = (Inr s, wa)"
    by (auto simp: NewCA_def split: sum.splits prod.splits)
  obtain r wl where l: "load_ca X E (empty_ca s) wa = (r, wl)" by force
  with load_ca_frame [of X E "empty_ca s" wa] have wl: "nodes wl = nodes wa" by simp
  have wa: "q \<noteq> s \<Longrightarrow> nodes wa q = nodes w q" using getStorePath_frame [OF g] by auto
  show ?thesis
  proof (cases r)
    case (Inr ca0)
    with assms(1) g l have "ca = ca0" "w1 = wl" by (auto simp: NewCA_def)
    moreover have "StorePath ca0 = s" using load_ca_InrD [of X E "empty_ca s" wa ca0 wl] l Inr sp by auto
    ultimately show ?thesis using assms(2) wl wa by (simp add: store_files_def)
  next
    case (Inl err)
    with assms(1) g l have c: "create_ca X E (empty_ca s) wl = (Inr ca, w1)"
      by (auto simp: NewCA_def split: if_splits)
    then have "StorePath ca = s"
      using sp by (auto simp: create_ca_def Let_def split: sum.splits prod.splits option.splits)
    with assms(2) wl wa create_ca_frame [of q "empty_ca s" X E wl] c show ?thesis
      by (simp add: store_files_def)
  qed
qed

section \<open>Certificates for hosts\<close>

text \<open>A certificate that this CA signed for a host, with the host as its only name.\<close>

definition signed_for :: "crypto_lib \<Rightarrow> CA \<Rightarrow> string \<Rightarrow> tls_certificate \<Rightarrow> bool" where
  "signed_for X ca h c \<longleftrightarrow>
     cert_key c = PrivateKey ca \<and>
     (\<exists>t der tmpl. cert_chain c = [der] \<and>
        create_certificate X t tmpl (IssuedBy (RootCert ca)) (PrivateKey ca) = Inr der \<and>
        CommonName tmpl = h \<and> \<not> IsCA tmpl \<and>
        (case parse_ip X h of
           Some ip \<Rightarrow> IPAddresses tmpl = [ip] \<and> DNSNames tmpl = []
         | None \<Rightarrow> IPAddresses tmpl = [] \<and> DNSNames tmpl = [h]))"

lemma DummyCert_signed:
  assumes "DummyCert X ca h t = (Inr c, t1)"
  shows "signed_for X ca h c"
proof -
  from assms have "create_certificate X (t + 3) (dummy_template X h t) (IssuedBy (RootCert ca))
      (PrivateKey ca) = Inr (hd (cert_chain c))" "cert_chain c = [hd (cert_chain c)]"
    "cert_key c = PrivateKey ca"
    by (auto simp: DummyCert_def split: sum.splits)
  moreover have "CommonName (dummy_template X h t) = h" "\<not> IsCA (dummy_template X h t)"
    "case parse_ip X h of
       Some ip \<Rightarrow> IPAddresses (dummy_template X h t) = [ip] \<and> DNSNames (dummy_template X h t) = []
     | None \<Rightarrow> IPAddresses (dummy_template X h t) = [] \<and> DNSNames (dummy_template X h t) = [h]"
    by (auto simp: dummy_template_def Let_def split: option.splits)
  ultimately show ?thesis unfolding signed_for_def by blast
qed

text \<open>
  What the program relies on of the LRU cache: a lookup finds only what is in it and keeps its
  contents, an insertion adds nothing but the new entry, and what was just added or found is
  found by the next lookup.
\<close>

definition lru_laws :: "'c lru_ops \<Rightarrow> ('c \<Rightarrow> (string \<times> tls_certificate) set) \<Rightarrow> bool" where
  "lru_laws U entries \<longleftrightarrow>
     (\<forall>c k v c'. lru_get U c k = (Some v, c') \<longrightarrow> (k, v) \<in> entries c) \<and>
     (\<forall>c k r c'. lru_get U c k = (r, c') \<longrightarrow> entries c' = entries c) \<and>
     (\<forall>c k v. entries (lru_add U c k v) \<subseteq> insert (k, v) (entries c)) \<and>
     (\<forall>c k v. fst (lru_get U (lru_add U c k v) k) = Some v) \<and>
     (\<forall>c k v c'. lru_get U c k = (Some v, c') \<longrightarrow> fst (lru_get U c' k) = Some v)"

definition cache_ok :: "crypto_lib \<Rightarrow> CA \<Rightarrow> (string \<times> tls_certificate) set \<Rightarrow> bool" where
  "cache_ok X ca es \<longleftrightarrow> (\<forall>(h, c) \<in> es. signed_for X ca h c)"

lemma GetCert_signed:
  assumes "lru_laws U entries" and "cache_ok X ca (entries cache)"
    and "GetCert X U ca h cache t = (r, cache1, t1)"
  shows "cache_ok X ca (entries cache1) \<and>
    (\<forall>c. r = Inr c \<longrightarrow> signed_for X ca h c \<and>
       (\<exists>cache2. GetCert X U ca h cache1 t2 = (Inr c, cache2, t2))) \<and>
    (is_err r \<longrightarrow> entries cache1 = entries cache)"
proof -
  obtain g cacheg where g: "lru_get U cache h = (g, cacheg)" by force
  have e: "entries cacheg = entries cache" using assms(1) g by (auto simp: lru_laws_def)
  show ?thesis
  proof (cases g)
    case (Some v)
    with assms g have r: "r = Inr v" "cache1 = cacheg" by (auto simp: GetCert_def)
    have "(h, v) \<in> entries cache" and hit: "fst (lru_get U cacheg h) = Some v"
      using assms(1) g Some by (auto simp: lru_laws_def)
    with assms(2) have "signed_for X ca h v" by (auto simp: cache_ok_def)
    moreover from hit have "\<exists>cache2. GetCert X U ca h cacheg t2 = (Inr v, cache2, t2)"
      by (cases "lru_get U cacheg h") (simp add: GetCert_def)
    ultimately show ?thesis using r e assms(2) by simp
  next
    case None
    obtain d td where d: "DummyCert X ca h t = (d, td)" by force
    show ?thesis
    proof (cases d)
      case (Inl err)
      with assms None g d e show ?thesis by (auto simp: GetCert_def)
    next
      case (Inr c)
      with assms None g d have r: "r = Inr c" "cache1 = lru_add U cacheg h c" by (auto simp: GetCert_def)
      have s: "signed_for X ca h c" using DummyCert_signed d Inr by blast
      have sub: "entries (lru_add U cacheg h c) \<subseteq> insert (h, c) (entries cacheg)"
        and hit: "fst (lru_get U cache1 h) = Some c"
        using assms(1) unfolding lru_laws_def r(2) by blast+
      from sub have "entries cache1 \<subseteq> insert (h, c) (entries cache)" by (simp only: r(2) e)
      then have "cache_ok X ca (entries cache1)" using assms(2) s by (auto simp: cache_ok_def)
      moreover from hit have "\<exists>cache2. GetCert X U ca h cache1 t2 = (Inr c, cache2, t2)"
        by (cases "lru_get U cache1 h") (simp add: GetCert_def)
      ultimately show ?thesis using r s by simp
    qed
  qed
qed

text \<open>
  C33: \<open>GetCert\<close> returns only certificates that this CA signed for the host that was asked for, and
  keeps its cache such; asked again for the same host it returns the same certificate without
  signing. A failed signature is returned as an error and is not cached.
\<close>

theorem GetCert_correct:
  assumes "lru_laws U entries" and "cache_ok X ca (entries cache)"
    and "GetCert X U ca h cache t = (r, cache1, t1)"
  shows "cache_ok X ca (entries cache1) \<and>
    (\<forall>c. r = Inr c \<longrightarrow> signed_for X ca h c \<and>
       (\<exists>cache2. GetCert X U ca h cache1 t2 = (Inr c, cache2, t2))) \<and>
    (is_err r \<longrightarrow> entries cache1 = entries cache)"
  using GetCert_signed [OF assms] .

section \<open>Closed instances\<close>

text \<open>A block format with the lengths of its two parts in unary, for the instances.\<close>

definition unary :: "bytes \<Rightarrow> bytes" where
  "unary b = replicate (length b) CHR ''a'' @ CHR ''b'' # b"

definition un_unary :: "bytes \<Rightarrow> (bytes \<times> bytes) option" where
  "un_unary s =
     (let n = length (takeWhile (\<lambda>c. c = CHR ''a'') s)
      in if length s \<le> n then None
         else Some (take n (drop (Suc n) s), drop n (drop (Suc n) s)))"

lemma un_unary: "un_unary (unary b @ rest) = Some (b, rest)"
proof -
  have "takeWhile (\<lambda>c. c = CHR ''a'') (unary b @ rest) = replicate (length b) CHR ''a''"
    by (simp add: unary_def takeWhile_tail)
  then show ?thesis by (simp add: un_unary_def Let_def unary_def)
qed

definition sample_crypto :: crypto_lib where
  "sample_crypto =
     \<lparr>clock = int, generate_key = (\<lambda>t. Inr ''key''), create_certificate = (\<lambda>t m i k. Inr (CommonName m)),
      parse_certificate = (\<lambda>b. Inr \<lparr>Raw = b\<rparr>), marshal_pkcs8 = Inr, parse_pkcs8 = (\<lambda>b. Inr (RsaKey b)),
      parse_pkcs1 = Inr, pem_encode = (\<lambda>b. unary (pem_type b) @ unary (pem_bytes b)),
      pem_decode = (\<lambda>s. case un_unary s of None \<Rightarrow> None
        | Some (ty, r) \<Rightarrow> (case un_unary r of None \<Rightarrow> None
            | Some (b, r2) \<Rightarrow> Some (\<lparr>pem_type = ty, pem_bytes = b\<rparr>, r2))),
      parse_ip = (\<lambda>_. None), raw_bytes = (\<lambda>_. [])\<rparr>"

lemma sample_crypto_laws: "pem_laws sample_crypto" "lib_errors sample_crypto"
  by (auto simp: pem_laws_def lib_errors_def sample_crypto_def un_unary)

definition store_world :: world where
  "store_world = empty_world\<lparr>nodes := Map.empty(''/ca'' \<mapsto> DirNode)\<rparr>"

definition sample_NewCA :: "nat \<Rightarrow> world \<Rightarrow> (gerr + CA) \<times> world" where
  "sample_NewCA n w = NewCA sample_crypto (failing_env n) (Inl (EMsg [])) (Inl (EMsg [])) ''/ca'' w"

lemma sample_store_path:
  "fault E (tick w) = None \<Longrightarrow> nodes w ''/ca'' = Some DirNode \<Longrightarrow>
     getStorePath E hm wd ''/ca'' w = (Inr ''/ca'', w\<lparr>tick := Suc (tick w)\<rparr>)"
  by (simp add: getStorePath_def is_abs_def has_prefix_def os_stat_def sys_def)

lemma sample_created:
  "fst (sample_NewCA 100 store_world) =
     Inr \<lparr>PrivateKey = ''key'', RootCert = \<lparr>Raw = ''mitmproxy''\<rparr>, StorePath = ''/ca''\<rparr>"
  by code_simp

theorem NewCA_roundtrip_witness:
  "\<exists>ca w2. sample_NewCA 100 store_world = (Inr ca, w2) \<and> PrivateKey ca = ''key'' \<and>
     fst (NewCA sample_crypto calm_env (Inl (EMsg [])) (Inl (EMsg [])) ''/ca'' w2) = Inr ca"
proof -
  let ?ca = "\<lparr>PrivateKey = ''key'', RootCert = \<lparr>Raw = ''mitmproxy''\<rparr>, StorePath = ''/ca''\<rparr>"
  obtain w2 where run: "sample_NewCA 100 store_world = (Inr ?ca, w2)"
    using sample_created by (metis prod.collapse)
  have "nodes (snd (sample_NewCA 100 store_world)) ''/ca'' = Some DirNode" by code_simp
  then have "nodes w2 ''/ca'' = Some DirNode" using run by simp
  then have "getStorePath calm_env (Inl (EMsg [])) (Inl (EMsg [])) ''/ca'' w2 =
      (Inr (StorePath ?ca), w2\<lparr>tick := Suc (tick w2)\<rparr>)"
    by (simp add: sample_store_path calm_env_def)
  from NewCA_roundtrip [OF sample_crypto_laws no_faults_calm run [unfolded sample_NewCA_def] this]
  show ?thesis using run by auto
qed

theorem NewCA_keeps_existing_witness:
  "nodes (snd (sample_NewCA 100 (store_world\<lparr>nodes := (nodes store_world)(''/ca/mitmproxy-ca.pem'' \<mapsto>
       FileNode (Bytes ''junk''))\<rparr>))) ''/ca/mitmproxy-ca.pem'' = Some (FileNode (Bytes ''junk''))"
proof -
  let ?w = "store_world\<lparr>nodes := (nodes store_world)(''/ca/mitmproxy-ca.pem'' \<mapsto> FileNode (Bytes ''junk''))\<rparr>"
  have n: "nodes ?w ''/ca'' = Some DirNode" by (simp add: store_world_def)
  have f: "fault (failing_env 100) (tick ?w) = None"
    by (simp add: failing_env_def store_world_def empty_world_def)
  have c: "caFile (empty_ca ''/ca'') = ''/ca/mitmproxy-ca.pem''" by code_simp
  note g = sample_store_path [OF f n, of "Inl (EMsg [])" "Inl (EMsg [])"]
  have "nodes (?w\<lparr>tick := Suc (tick ?w)\<rparr>) (caFile (empty_ca ''/ca'')) \<noteq> None" by (simp add: c)
  from NewCA_keeps_existing [OF sample_crypto_laws(2) g this] show ?thesis
    by (simp add: sample_NewCA_def)
qed

text \<open>
  a creation that is interrupted leaves an empty CA file behind, and that file is never
  repaired: every later \<open>NewCA\<close> finds it, cannot parse it, and returns an error.
\<close>

theorem NewCA_interrupted_stuck:
  "is_err (fst (sample_NewCA 8 store_world)) \<and>
   fst (sample_NewCA 100 (snd (sample_NewCA 8 store_world))) =
     Inl (EMsg ''/ca/mitmproxy-ca.pem has no PRIVATE KEY'')"
  by code_simp

definition list_lru :: "(string \<times> tls_certificate) list lru_ops" where
  "list_lru = \<lparr>lru_get = (\<lambda>c k. (map_of c k, c)), lru_add = (\<lambda>c k v. AList.update k v c)\<rparr>"

lemma list_lru_laws: "lru_laws list_lru (\<lambda>c. {(k, v). map_of c k = Some v})"
  by (auto simp: lru_laws_def list_lru_def update_conv' split: if_splits)

theorem GetCert_correct_witness:
  "\<exists>c cache1 t1 cache2. GetCert sample_crypto list_lru (empty_ca ''/ca'') ''a.com'' [] 0 = (Inr c, cache1, t1) \<and>
     signed_for sample_crypto (empty_ca ''/ca'') ''a.com'' c \<and>
     GetCert sample_crypto list_lru (empty_ca ''/ca'') ''a.com'' cache1 5 = (Inr c, cache2, 5)"
proof -
  let ?X = sample_crypto and ?ca = "empty_ca ''/ca''"
  obtain c cache1 t1 where r: "GetCert ?X list_lru ?ca ''a.com'' [] 0 = (Inr c, cache1, t1)"
    by (simp add: GetCert_def list_lru_def DummyCert_def sample_crypto_def)
  have ok: "cache_ok ?X ?ca ((\<lambda>c. {(k, v). map_of c k = Some v}) [])" by (simp add: cache_ok_def)
  from GetCert_correct [OF list_lru_laws ok r, of 5] r show ?thesis by auto
qed

end
