(* ===== verification/Interceptor.thy ===== *)
theory Interceptor
  imports Proxy_Quiet Cert_Props
begin

text \<open>
  \<open>interceptor.go\<close>, \<open>websocket.go\<close> and the rest of \<open>proxy.go\<close>: the proxy object with its
  certificate authority, starting and closing it, the in-memory listener that hands intercepted
  connections to the decrypting server, the classification of what comes through a CONNECT
  tunnel, the certificate callback, the handler for decrypted requests, and the forwarding of
  web sockets. \<open>dial\<close> and the pipes of a CONNECT are in \<open>Proxy\<close>.
\<close>

section \<open>The in-memory listener\<close>

text \<open>
  \<open>middleListener\<close>: the connections whose goroutines wait to send on the unbuffered \<open>connChan\<close>,
  and whether \<open>doneChan\<close> was closed.
\<close>

record middleListener =
  connChan :: "pipeConn list"
  doneChan_closed :: bool

definition errServerClosed :: gerr where
  "errServerClosed = ESentinel ''http: Server closed''"

text \<open>\<open>Accept\<close>: the \<open>select\<close> takes any case that is ready; with none it waits.\<close>

inductive listener_accept :: "middleListener \<Rightarrow> gerr + pipeConn \<Rightarrow> middleListener \<Rightarrow> bool" where
  conn: "connChan l = xs @ c # ys \<Longrightarrow> listener_accept l (Inr c) (l\<lparr>connChan := xs @ ys\<rparr>)"
| done_closed: "doneChan_closed l \<Longrightarrow> listener_accept l (Inl errServerClosed) l"

inductive_simps listener_accept_conn: "listener_accept l (Inr c) l'"

inductive_simps listener_accept_closed: "listener_accept l (Inl e) l'"

text \<open>Every connection is handed out once; after \<open>close\<close> with none waiting there is only the error.\<close>

lemma accept_once:
  "listener_accept l (Inr c) l' \<Longrightarrow>
     count_list (connChan l) d = count_list (connChan l') d + (if d = c then 1 else 0) \<and>
     doneChan_closed l' = doneChan_closed l"
  by (auto simp: listener_accept_conn)

lemma accept_after_close:
  "connChan l = [] \<Longrightarrow> doneChan_closed l \<Longrightarrow> listener_accept l r l' \<longleftrightarrow> r = Inl errServerClosed \<and> l' = l"
  by (cases r) (auto simp: listener_accept_conn listener_accept_closed)

text \<open>\<open>middle.close\<close>; closing a closed channel is a panic.\<close>

definition middle_close :: "middleListener \<Rightarrow> gerr option outcome \<times> middleListener" where
  "middle_close l =
     (if doneChan_closed l then (Panicked ClosedChannel, l)
      else (Ret None, l\<lparr>doneChan_closed := True\<rparr>))"

section \<open>The proxy object\<close>

record 's Proxy =
  Opts :: Options
  Addons :: "'s addon_ops list"
  middle_ca :: CA
  listener :: middleListener
  shouldIntercept :: "(string \<Rightarrow> bool) option"

definition newMiddle ::
  "crypto_lib \<Rightarrow> env \<Rightarrow> gerr + string \<Rightarrow> gerr + string \<Rightarrow> Options \<Rightarrow> world
     \<Rightarrow> (gerr + CA \<times> middleListener) \<times> world" where
  "newMiddle X E homeDir getwd opts w =
     (case NewCA X E homeDir getwd (CaRootPath opts) w of
        (Inl err, w1) \<Rightarrow> (Inl err, w1)
      | (Inr c, w1) \<Rightarrow> (Inr (c, \<lparr>connChan = [], doneChan_closed = False\<rparr>), w1))"

text \<open>\<open>NewProxy\<close>, without the \<open>http.Client\<close> and the \<open>http.Server\<close>, whose callbacks are modelled.\<close>

definition NewProxy ::
  "crypto_lib \<Rightarrow> env \<Rightarrow> gerr + string \<Rightarrow> gerr + string \<Rightarrow> Options \<Rightarrow> world
     \<Rightarrow> (gerr + 's Proxy) \<times> world" where
  "NewProxy X E homeDir getwd opts0 w =
     (let opts = NewProxy_options opts0
      in case newMiddle X E homeDir getwd opts w of
           (Inl err, w1) \<Rightarrow> (Inl err, w1)
         | (Inr (c, l), w1) \<Rightarrow>
             (Inr \<lparr>Opts = opts, Addons = [], middle_ca = c, listener = l, shouldIntercept = None\<rparr>, w1))"

definition Proxy_AddAddon :: "'s Proxy \<Rightarrow> 's addon_ops \<Rightarrow> 's Proxy" where
  "Proxy_AddAddon p addon = p\<lparr>Addons := AddAddon (Addons p) addon\<rparr>"

definition SetShouldInterceptRule :: "'s Proxy \<Rightarrow> (string \<Rightarrow> bool) \<Rightarrow> 's Proxy" where
  "SetShouldInterceptRule p rule = p\<lparr>shouldIntercept := Some rule\<rparr>"

definition Proxy_GetCertificate :: "'s Proxy \<Rightarrow> Certificate" where
  "Proxy_GetCertificate p = RootCert (middle_ca p)"

text \<open>
  \<open>Start\<close>, with the result of \<open>net.Listen\<close> for an address and what \<open>Serve\<close> returns in the end: its
  error, and whether the interceptor was started.
\<close>

definition Proxy_Start :: "(string \<Rightarrow> gerr option) \<Rightarrow> gerr \<Rightarrow> 's Proxy \<Rightarrow> gerr \<times> bool" where
  "Proxy_Start listen served p =
     (let addr = (if Addr (Opts p) = [] then '':http'' else Addr (Opts p))
      in case listen addr of
           Some err \<Rightarrow> (err, False)
         | None \<Rightarrow> (served, True))"

text \<open>\<open>Close\<close>, and \<open>Shutdown\<close>, which differs in the call of the server whose error it returns.\<close>

definition Proxy_Close :: "gerr option \<Rightarrow> 's Proxy \<Rightarrow> gerr option outcome \<times> 's Proxy" where
  "Proxy_Close server_err p =
     (case middle_close (listener p) of
        (Panicked e, l) \<Rightarrow> (Panicked e, p\<lparr>listener := l\<rparr>)
      | (Ret _, l) \<Rightarrow> (Ret server_err, p\<lparr>listener := l\<rparr>))"

definition Proxy_Shutdown :: "gerr option \<Rightarrow> 's Proxy \<Rightarrow> gerr option outcome \<times> 's Proxy" where
  "Proxy_Shutdown server_err p =
     (case middle_close (listener p) of
        (Panicked e, l) \<Rightarrow> (Panicked e, p\<lparr>listener := l\<rparr>)
      | (Ret _, l) \<Rightarrow> (Ret server_err, p\<lparr>listener := l\<rparr>))"

section \<open>Web sockets\<close>

text \<open>What is done with the sockets of a web socket; deferred closes come in reverse order.\<close>

datatype ws_event =
    WsDial string
  | WsUpgrade bytes
  | WsTransfer
  | WsCloseServer
  | WsCloseClient

text \<open>\<open>webSocket.ws\<close>, with the result of \<open>net.Dial\<close> for a host.\<close>

definition ws :: "(string \<Rightarrow> gerr option) \<Rightarrow> string \<Rightarrow> ws_event list" where
  "ws dials h =
     WsDial h #
       (case dials h of
          Some err \<Rightarrow> []
        | None \<Rightarrow> [WsTransfer, WsCloseServer]) @ [WsCloseClient]"

definition wss_host :: "string \<Rightarrow> string" where
  "wss_host h = (if \<not> contains h '':'' then h @ '':443'' else h)"

text \<open>
  \<open>webSocket.wss\<close>: the results of \<open>DumpRequest\<close>, \<open>Hijack\<close>, \<open>tls.Dial\<close> and of the first write are
  parameters. It answers 502 as long as the connection is not its own.
\<close>

definition wss ::
  "gerr + bytes \<Rightarrow> gerr option \<Rightarrow> (string \<Rightarrow> gerr option) \<Rightarrow> gerr option \<Rightarrow> string \<Rightarrow> rw
     \<Rightarrow> unit outcome \<times> rw \<times> ws_event list" where
  "wss dump hijack dials wrote h0 r =
     (case dump of
        Inl err \<Rightarrow> (case WriteHeader 502 r of (x, r1) \<Rightarrow> (x, r1, []))
      | Inr upgradeBuf \<Rightarrow>
     (case hijack of
        Some err \<Rightarrow> (case WriteHeader 502 r of (x, r1) \<Rightarrow> (x, r1, []))
      | None \<Rightarrow>
          (let h = wss_host h0
           in (Ret (), r,
               WsDial h #
                 (case dials h of
                    Some err \<Rightarrow> []
                  | None \<Rightarrow>
                      WsUpgrade upgradeBuf #
                        (case wrote of Some err \<Rightarrow> [] | None \<Rightarrow> [WsTransfer]) @ [WsCloseServer])
                 @ [WsCloseClient]))))"

section \<open>What comes through a tunnel\<close>

text \<open>\<open>bufio.Reader.Peek\<close>\<close>

definition Peek :: "reader \<Rightarrow> nat \<Rightarrow> gerr + bytes" where
  "Peek r k =
     (if length (rdata r) < k then Inl (case rend r of None \<Rightarrow> EMsg ''EOF'' | Some e \<Rightarrow> e)
      else Inr (take k (rdata r)))"

text \<open>The first three bytes of a TLS record.\<close>

definition is_tls_magic :: "bytes \<Rightarrow> bool" where
  "is_tls_magic buf \<longleftrightarrow>
     of_char (buf ! 0) = (0x16 :: nat) \<and> of_char (buf ! 1) = (0x03 :: nat) \<and> of_char (buf ! 2) \<le> (0x03 :: nat)"

text \<open>How \<open>intercept\<close> ends: the pipe is closed, given to the listener, or served as a web socket.\<close>

datatype intercepted = PeekFailed gerr | ToListener pipeConn | Forwarded "ws_event list"

definition intercept ::
  "(string \<Rightarrow> gerr option) \<Rightarrow> reader \<Rightarrow> pipeConn \<Rightarrow> ConnContext \<Rightarrow> intercepted outcome \<times> ConnContext" where
  "intercept dials r p c =
     (case Peek r 3 of
        Inl err \<Rightarrow> (Ret (PeekFailed err), close_pipe_conn c)
      | Inr buf \<Rightarrow>
          if is_tls_magic buf
          then (case initHttpsServerConn (c\<lparr>Tls := True\<rparr>) of
                  (Panicked e, c1) \<Rightarrow> (Panicked e, c1)
                | (Ret _, c1) \<Rightarrow> (Ret (ToListener p), c1))
          else (Ret (Forwarded (ws dials (pipe_host p))), close_pipe_conn c))"

text \<open>
  The callback \<open>GetCertificate\<close> of the decrypting server: the handshake with the real server
  first, then the hooks of the \<open>n\<close> addons, then the certificate for the name the client wants.
\<close>

definition GetCertificate ::
  "crypto_lib \<Rightarrow> 'c lru_ops \<Rightarrow> CA \<Rightarrow> (tls_config \<Rightarrow> gerr option) \<Rightarrow> bool \<Rightarrow> nat \<Rightarrow> client_hello
     \<Rightarrow> ConnContext \<times> 'c \<times> nat \<Rightarrow> (gerr + tls_certificate) outcome \<times> ConnContext \<times> 'c \<times> nat" where
  "GetCertificate X U ca shake insecure n clientHello =
     (\<lambda>(c, cache, t).
        case tlsHandshake shake insecure clientHello c of
          (Panicked e, c1) \<Rightarrow> (Panicked e, c1, cache, t)
        | (Ret (Some err), c1) \<Rightarrow> (Ret (Inl err), c1, cache, t)
        | (Ret None, c1) \<Rightarrow>
            (case GetCert X U ca (ch_server_name clientHello) cache t of
               (r, cache1, t1) \<Rightarrow> (Ret r, run_conn_hook n TlsEstablishedServer c1, cache1, t1)))"

section \<open>Decrypted requests\<close>

definition is_wss :: "header \<Rightarrow> bool" where
  "is_wss h \<longleftrightarrow>
     equal_fold (hget h ''Connection'') ''Upgrade'' \<and> equal_fold (hget h ''Upgrade'') ''websocket''"

text \<open>The scheme and host that \<open>middle.ServeHTTP\<close> fills in.\<close>

definition middle_request :: "incoming \<Rightarrow> incoming" where
  "middle_request req =
     (let u = in_url req;
          u1 = (if u_scheme u = [] then u\<lparr>u_scheme := ''https''\<rparr> else u);
          u2 = (if u_host u1 = [] then u1\<lparr>u_host := in_host req\<rparr> else u1)
      in req\<lparr>in_url := u2\<rparr>)"

text \<open>\<open>middle.ServeHTTP\<close>; a web socket does not touch the state of the handler but its writer.\<close>

definition middle_ServeHTTP ::
  "(rw \<Rightarrow> unit outcome \<times> rw \<times> ws_event list) \<Rightarrow> serve_env \<Rightarrow> 's addon_ops list \<Rightarrow> incoming \<Rightarrow> 's serve
     \<Rightarrow> unit ctl \<times> 's serve \<times> ws_event list" where
  "middle_ServeHTTP upgrade V addons req s =
     (if is_wss (in_header req)
      then (case upgrade (sv_rw s) of
              (Ret _, r, es) \<Rightarrow> (Leave, s\<lparr>sv_rw := r\<rparr>, es)
            | (Panicked e, r, es) \<Rightarrow> (Raise e, s\<lparr>sv_rw := r\<rparr>, es))
      else (case ServeHTTP V addons (middle_request req) s of (x, s1) \<Rightarrow> (x, s1, [])))"

end
