(* ===== verification/Cli.thy ===== *)
theory Cli
  imports Interceptor
begin

text \<open>
  \<open>main.go\<close>: the flags, the order in which they are served, the system proxy variable, the run
  of the addon over the requests the proxy delivers, and the prompt loop \<open>handleInput\<close>. The proxy
  is made by \<open>NewProxy\<close>; how the goroutine that runs its \<open>Start\<close> fares is part of the input. The
  sysproxy package is third-party: the calls made to it are recorded. What standard input
  delivers is a list of results of \<open>ReadString\<close>; the loop is run over that list, and \<open>None\<close>
  says that it still waits for input at its end.
\<close>

section \<open>The system proxy\<close>

datatype sp_call = SpNew | SpOn string int | SpOff string int | SpShow

record cli =
  systemProxy :: bool \<comment> \<open>is the variable not nil\<close>
  sp_calls :: "sp_call list"

definition host :: string where "host = ''127.0.0.1''"

definition port :: int where "port = 8080"

definition call_sp :: "sp_call \<Rightarrow> cli \<Rightarrow> cli" where
  "call_sp x s = s\<lparr>sp_calls := sp_calls s @ [x]\<rparr>"

definition ensure_sp :: "cli \<Rightarrow> cli" where
  "ensure_sp s = (if systemProxy s then s else (call_sp SpNew s)\<lparr>systemProxy := True\<rparr>)"

definition turnOnProxy :: "cli \<Rightarrow> world \<Rightarrow> cli \<times> world" where
  "turnOnProxy s w = (call_sp (SpOn host port) (ensure_sp s), println ''Turn on system proxy...'' w)"

definition turnOffProxy :: "cli \<Rightarrow> world \<Rightarrow> cli \<times> world" where
  "turnOffProxy s w =
     (let w1 = println ''Turn off system proxy...'' w
      in if \<not> systemProxy s then (s, println ''Skip. As systemProxy is nil.'' w1)
         else (call_sp (SpOff host port) s, w1))"

definition showProxy :: "cli \<Rightarrow> cli" where
  "showProxy s = call_sp SpShow (ensure_sp s)"

section \<open>The prompt\<close>

definition availableCommands :: "(string \<times> string) list" where
  "availableCommands =
     [(''?'', ''show help message''), (''exit'', ''exit''),
      (''d|dump <index>'', ''dump response data (of the given index) to file'')]"

text \<open>\<open>%-20s\<close>\<close>

definition pad20 :: "string \<Rightarrow> string" where
  "pad20 s = s @ replicate (20 - length s) CHR '' ''"

definition printAvailableCommands :: "world \<Rightarrow> world" where
  "printAvailableCommands w =
     fold (\<lambda>(cmd, help). println (pad20 cmd @ '' '' @ help)) availableCommands w"

definition prompt :: string where
  "prompt = ''Enter index number to download, or '' @ [CHR 0x27] @ ''?'' @ [CHR 0x27] @
            '' for available commands: ''"

datatype loop = Continue | Break

definition dump_filename :: "AppInfo \<Rightarrow> string" where
  "dump_filename a =
     BundleDisplayName a @ ''_'' @ BundleShortVersionString a @ ''_'' @
     uint64_str (SoftwareVersionExternalIdentifier a) @ ''.xml''"

text \<open>An input that starts with a digit: an index to download.\<close>

definition handle_number ::
  "plist_lib \<Rightarrow> env \<Rightarrow> AppInfo list \<Rightarrow> string \<Rightarrow> string \<Rightarrow> world \<Rightarrow> loop outcome \<times> world" where
  "handle_number L E historyVersions clientUserAgent input w =
     (case atoi input of
        None \<Rightarrow> (Ret Continue, println ''Invalid input.'' w)
      | Some selectedIndex \<Rightarrow>
          if selectedIndex < 0 then (Ret Break, w)
          else if selectedIndex \<ge> int (length historyVersions)
          then (Ret Continue, println ''Invalid input: index out of range.'' w)
          else (case DownloadApp L E (historyVersions ! nat selectedIndex) clientUserAgent True w of
                  (Panicked p, w1) \<Rightarrow> (Panicked p, w1)
                | (Ret (filename, _, Some err), w1) \<Rightarrow>
                    (Ret Continue, println (''[ERROR] '' @ err_text err) w1)
                | (Ret (filename, _, None), w1) \<Rightarrow>
                    (Ret Break, println (''File ['' @ filename @ ''] saved.'') w1)))"

text \<open>The \<open>dump\<close> command with its words after the command.\<close>

definition handle_dump :: "env \<Rightarrow> AppInfo list \<Rightarrow> string list \<Rightarrow> world \<Rightarrow> loop \<times> world" where
  "handle_dump E historyVersions args w =
     (case args of
        [] \<Rightarrow> (Continue, println [] (printAvailableCommands w))
      | a # _ \<Rightarrow>
          (case atoi a of
             None \<Rightarrow> (Continue, println ''Invalid input or index out of range.'' w)
           | Some selectedIndex \<Rightarrow>
               if selectedIndex < 0 \<or> selectedIndex \<ge> int (length historyVersions)
               then (Continue, println ''Invalid input or index out of range.'' w)
               else (let v = historyVersions ! nat selectedIndex;
                         w1 = println (''Saving response data to ['' @ dump_filename v @ '']...'') w
                     in case os_write_file E (dump_filename v) (Data v) w1 of
                          (Some err, w2) \<Rightarrow> (Continue, println (''[ERROR] '' @ err_text err) w2)
                        | (None, w2) \<Rightarrow> (Continue, println [] w2))))"

text \<open>One turn of the loop, from the prompt on.\<close>

definition handle_line ::
  "plist_lib \<Rightarrow> env \<Rightarrow> AppInfo list \<Rightarrow> string \<Rightarrow> gerr + string \<Rightarrow> world \<Rightarrow> loop outcome \<times> world" where
  "handle_line L E historyVersions clientUserAgent line w0 =
     (let w = print prompt w0
      in case line of
           Inl err \<Rightarrow> (Ret Continue, println (err_text err) w)
         | Inr s \<Rightarrow>
             (let input = trim_space s
              in case input of
                   [] \<Rightarrow> (Panicked IndexOutOfRange, w)
                 | c # _ \<Rightarrow>
                     if is_digit c then handle_number L E historyVersions clientUserAgent input w
                     else (case Go_Strings.fields input of
                             [] \<Rightarrow> (Panicked IndexOutOfRange, w)
                           | command # args \<Rightarrow>
                               if command = ''?''
                               then (Ret Continue, println [] (printAvailableCommands w))
                               else if command = ''exit'' then (Ret Break, w)
                               else if command = ''d'' \<or> command = ''dump''
                               then apfst Ret (handle_dump E historyVersions args w)
                               else (Ret Continue, println (''Unsupported command: '' @ command) w))))"

fun handleInput ::
  "plist_lib \<Rightarrow> env \<Rightarrow> AppInfo list \<Rightarrow> string \<Rightarrow> (gerr + string) list \<Rightarrow> world
     \<Rightarrow> unit outcome option \<times> world" where
  "handleInput L E hist ua [] w = (None, print prompt w)"
| "handleInput L E hist ua (line # lines) w =
     (case handle_line L E hist ua line w of
        (Panicked p, w1) \<Rightarrow> (Some (Panicked p), w1)
      | (Ret Break, w1) \<Rightarrow> (Some (Ret ()), w1)
      | (Ret Continue, w1) \<Rightarrow> handleInput L E hist ua lines w1)"

section \<open>The program\<close>

record flags =
  V :: bool
  H :: bool
  I :: string
  PS :: bool
  C :: bool
  S :: bool
  DUMP :: bool
  START :: int
  END :: int

text \<open>
  How the goroutine \<open>log.Fatal(p.Start())\<close> fares: it serves until the process ends; \<open>Start\<close> fails
  before \<open>main\<close> got its message (the port is taken, for example), or after so many lines were
  typed; or the deferred \<open>p.Close\<close>, with which \<open>main\<close> returns, makes \<open>Start\<close> return in time for its
  \<open>log.Fatal\<close> to end the process first.
\<close>

datatype serving = Serves | Start_fails gerr | Fails_at_prompt gerr nat | Closed_first

text \<open>
  What a run meets: the crypto library, the home directory of the user and the working directory,
  with which \<open>proxy.NewProxy\<close> finds or makes its certificate authority, how the server fares, the
  requests the proxy delivers to the addon, and the lines typed. \<open>usage\<close> is the text of the flag
  package, and \<open>zip_bytes\<close> the bytes in which the zip package stored an archive.
\<close>

record run_env =
  usage :: string
  program :: string
  git_hash :: string
  crypto :: crypto_lib
  user_home :: "gerr + string"
  work_dir :: "gerr + string"
  serving :: serving
  delivered :: "Request list"
  typed :: "(gerr + string) list"
  zip_bytes :: "content \<Rightarrow> bytes"

text \<open>The options of \<open>main\<close>.\<close>

definition main_options :: Options where
  "main_options =
     \<lparr>Addr = CHR '':'' # int_str port, StreamLargeBodies = 1024 * 1024 * 5, SslInsecure = False,
      CaRootPath = [], Upstream = []\<rparr>"

definition start_proxy :: "env \<Rightarrow> run_env \<Rightarrow> world \<Rightarrow> (gerr + (Addon \<times> world) Proxy) \<times> world" where
  "start_proxy E R w = NewProxy (crypto R) E (user_home R) (work_dir R) main_options w"

datatype run_end =
    Exited            \<comment> \<open>\<open>main\<close> returned\<close>
  | Fatal gerr        \<comment> \<open>\<open>log.Fatal\<close>: the process exits, deferred calls do not run\<close>
  | Waiting           \<comment> \<open>blocked in \<open><-done\<close>\<close>
  | Prompting         \<comment> \<open>still in the loop of \<open>handleInput\<close>\<close>
  | Crashed gpanic    \<comment> \<open>a panic that nothing recovers\<close>
  | Recovered gpanic  \<comment> \<open>a panic recovered by the deferred function of \<open>main\<close>\<close>

text \<open>\<open>-i\<close>: read a saved response and download its app.\<close>

definition run_input_file ::
  "plist_lib \<Rightarrow> env \<Rightarrow> run_env \<Rightarrow> string \<Rightarrow> world \<Rightarrow> run_end \<times> world" where
  "run_input_file L E R file w0 =
     (let w = println (''Reading response data from ['' @ file @ '']...'') w0
      in case os_read_file E file w of
           (Inl err, w1) \<Rightarrow> (Fatal err, w1)
         | (Inr c, w1) \<Rightarrow>
      (case GetAppInfo L (case c of Bytes b \<Rightarrow> b | _ \<Rightarrow> zip_bytes R c) of
           Panicked p \<Rightarrow> (Crashed p, w1)
         | Ret (Inl err) \<Rightarrow> (Fatal err, w1)
         | Ret (Inr appInfo) \<Rightarrow>
      (case DownloadApp L E appInfo [] False w1 of
           (Panicked p, w2) \<Rightarrow> (Crashed p, w2)
         | (Ret (filename, exists, Some err), w2) \<Rightarrow> (Fatal err, w2)
         | (Ret (filename, True, None), w2) \<Rightarrow>
             (Exited, println (''File ['' @ filename @ ''] already exists. [Skip]'') w2)
         | (Ret (filename, False, None), w2) \<Rightarrow>
             (Exited, println (''File ['' @ filename @ ''] saved'') w2))))"

definition new_main_addon :: "flags \<Rightarrow> Addon" where
  "new_main_addon f =
     \<lparr>locked = False, done_sent = [], Start = START f, End = END f, HistoryVersions = [],
      ClientUserAgent = [], DumpResponses = DUMP f, counter = 0\<rparr>"

text \<open>
  The deferred calls of \<open>main\<close> after a panic: with \<open>-s\<close> there is no recovery, otherwise the
  proxy is turned off. (\<open>p.Close\<close> and \<open>mu.Unlock\<close> run before; the lock is held by then.)
\<close>

definition recover_main :: "flags \<Rightarrow> gpanic \<Rightarrow> cli \<Rightarrow> world \<Rightarrow> run_end \<times> cli \<times> world" where
  "recover_main f p s w =
     (if S f then (Crashed p, s, w)
      else (case turnOffProxy s
              (println (''[WARN] Recovered from main: '' @ panic_text p) w) of
              (s1, w1) \<Rightarrow> (Recovered p, s1, w1)))"

text \<open>
  \<open>main\<close> has got its message: the proxy off, the prompt, and the deferred calls, of which \<open>p.Close\<close>
  is the first.
\<close>

definition run_prompt ::
  "plist_lib \<Rightarrow> env \<Rightarrow> flags \<Rightarrow> run_env \<Rightarrow> bool \<Rightarrow> Addon \<Rightarrow> cli \<Rightarrow> world \<Rightarrow> run_end \<times> cli \<times> world" where
  "run_prompt L E f R ok addon s w =
     (let w2 = (if ok then w else println ''[ERROR] Error happened in the Addon.'' w);
          (s3, w3) = (if S f then (s, w2) else turnOffProxy s w2);
          lines = (case serving R of Fails_at_prompt err n \<Rightarrow> take n (typed R) | _ \<Rightarrow> typed R)
      in case handleInput L E (HistoryVersions addon) (ClientUserAgent addon) lines w3 of
           (None, w4) \<Rightarrow>
             (case serving R of Fails_at_prompt err n \<Rightarrow> (Fatal err, s3, w4) | _ \<Rightarrow> (Prompting, s3, w4))
         | (Some (Panicked p), w4) \<Rightarrow>
             (if serving R = Closed_first then (Fatal errServerClosed, s3, w4)
              else recover_main f p s3 w4)
         | (Some (Ret _), w4) \<Rightarrow>
             (if serving R = Closed_first then Fatal errServerClosed else Exited, s3,
              print ''Press [Enter] to quit: '' w4))"

text \<open>From the creation of the proxy server to the end of \<open>main\<close>.\<close>

definition run_server ::
  "plist_lib \<Rightarrow> env \<Rightarrow> flags \<Rightarrow> run_env \<Rightarrow> cli \<Rightarrow> world \<Rightarrow> run_end \<times> cli \<times> world" where
  "run_server L E f R s w =
     (case start_proxy E R w of
        (Inl err, w1) \<Rightarrow> (Fatal err, s, w1)
      | (Inr p, w1) \<Rightarrow>
     (case Addon_Requests L E (delivered R) (new_main_addon f) w1 of
        (addon, w2) \<Rightarrow>
     (case serving R of
        Start_fails err \<Rightarrow> (Fatal err, s, w2)
      | _ \<Rightarrow>
     (case done_sent addon of
        [] \<Rightarrow> (Waiting, s, w2)
      | ok # _ \<Rightarrow> run_prompt L E f R ok addon s w2))))"

definition Version :: string where "Version = ''v0.2.1''"

definition run_main ::
  "plist_lib \<Rightarrow> env \<Rightarrow> flags \<Rightarrow> run_env \<Rightarrow> cli \<Rightarrow> world \<Rightarrow> run_end \<times> cli \<times> world" where
  "run_main L E f R s w =
     (if H f then (Exited, s, printAvailableCommands (print (usage R) w))
      else if V f
      then (Exited, s, println (program R @ '' version '' @ Version @ '' '' @ git_hash R) w)
      else if I f \<noteq> [] then (case run_input_file L E R (I f) w of (e, w1) \<Rightarrow> (e, s, w1))
      else if PS f then (Exited, showProxy s, w)
      else if C f then (case turnOffProxy s w of (s1, w1) \<Rightarrow> (Exited, s1, w1))
      else (let (s1, w1) = (if S f then (s, w) else turnOnProxy s w)
            in run_server L E f R s1 w1))"

text \<open>The goroutine that waits for an interrupt: clean up, then \<open>os.Exit(1)\<close>.\<close>

definition on_interrupt :: "cli \<Rightarrow> world \<Rightarrow> cli \<times> world" where
  "on_interrupt s w = turnOffProxy s (println (CHR 0x0A # ''cleanup...'') w)"

end
