(* ===== verification/Cli_Props.thy ===== *)
theory Cli_Props
  imports Cli
begin

text \<open>
  Properties of \<open>main.go\<close>: which inputs crash the prompt, that a dumped response is read back
  as the version it was dumped for, that the prompt never ends on a closed input, the
  invariant of the addon's state that the deferred unlock relies on, and when the system
  proxy is left on.
\<close>

section \<open>The prompt\<close>

lemma handle_number_panics:
  assumes "is_digit c"
  shows "fst (handle_number L E hist ua (c # cs) w) = Panicked p \<longleftrightarrow>
    (\<exists>k. atoi (c # cs) = Some (int k) \<and> k < length hist \<and>
       fst (DownloadApp L E (hist ! k) ua True w) = Panicked p)"
proof (cases "atoi (c # cs)")
  case None
  then show ?thesis by (simp add: handle_number_def)
next
  case (Some i)
  with atoi_first_digit_nonneg [OF assms] obtain k where k: "i = int k"
    by (metis nonneg_int_cases)
  show ?thesis
    by (auto simp: handle_number_def Some k split: prod.splits outcome.splits option.splits)
qed

lemma handle_dump_fst: "\<exists>x w1. handle_dump E hist args w = (x, w1)"
  by force

text \<open>
  C38: a line crashes the prompt exactly when it is blank (white space of any kind that Unicode
  has, such as a no-break space), which is an index error on its first byte, or when it selects
  a version of the history whose download panics; reading the history itself is never out of
  range, and a line with a word in it always has a command.
\<close>

theorem handle_line_panics:
  "fst (handle_line L E hist ua line w) = Panicked p \<longleftrightarrow>
     (\<exists>s. line = Inr s \<and>
        (blank s \<and> p = IndexOutOfRange \<or>
         (\<exists>c cs k. trim_space s = c # cs \<and> is_digit c \<and> atoi (c # cs) = Some (int k) \<and>
            k < length hist \<and>
            fst (DownloadApp L E (hist ! k) ua True (print prompt w)) = Panicked p)))"
proof (cases line)
  case (Inr s)
  show ?thesis
  proof (cases "trim_space s")
    case Nil
    then have "blank s" by (simp add: trim_space_Nil_iff)
    with Nil Inr show ?thesis by (auto simp: handle_line_def Let_def)
  next
    case (Cons c cs)
    then have nb: "\<not> blank s" using trim_space_Nil_iff [of s] by simp
    show ?thesis
    proof (cases "is_digit c")
      case True
      with Cons Inr nb handle_number_panics [OF True] show ?thesis
        by (simp add: handle_line_def Let_def)
    next
      case False
      obtain f fs where "Go_Strings.fields (c # cs) = f # fs"
        using trimmed_fields [of s] Cons by (metis list.exhaust list.distinct(1))
      with False Cons Inr nb show ?thesis
        by (auto simp: handle_line_def Let_def)
    qed
  qed
qed (simp add: handle_line_def Let_def)

lemma handleInput_errors:
  "\<exists>w1. handleInput L E hist ua (replicate n (Inl err)) w = (None, w1) \<and>
     nodes w1 = nodes w \<and>
     stdout w1 = stdout w @ concat (replicate n [prompt, err_text err @ [CHR 0x0A]]) @ [prompt]"
proof (induction n arbitrary: w)
  case 0
  show ?case by (simp add: print_def)
next
  case (Suc n)
  from Suc [of "println (err_text err) (print prompt w)"] show ?case
    by (auto simp: handle_line_def println_def print_def Let_def)
qed

text \<open>
  at the end of the input \<open>ReadString\<close> fails for ever and the loop never ends: after any
  number of failing reads it still prompts, having printed the error each time.
\<close>

theorem handleInput_spins_at_eof:
  "fst (handleInput L E hist ua (replicate n (Inl err)) w) = None \<and>
   stdout (snd (handleInput L E hist ua (replicate n (Inl err)) w)) =
     stdout w @ concat (replicate n [prompt, err_text err @ [CHR 0x0A]]) @ [prompt]"
  using handleInput_errors [of L E hist ua n err w] by auto

section \<open>The state of the addon\<close>

definition is_purchase :: "Request \<Rightarrow> bool" where
  "is_purchase q \<longleftrightarrow> contains (url_string (r_url q)) targetUrlSubstr"

text \<open>
  What becomes of the addon of \<open>main\<close>, write by write: no hook has the lock; the hook that took it
  handles its purchase; it has reported on \<open>Done\<close>. A hook that is refused the lock, or whose
  request is no purchase, writes nothing.
\<close>

datatype addon_phase = Idle | Handling Request | Reported

inductive addon_reachable :: "plist_lib \<Rightarrow> flags \<Rightarrow> addon_phase \<Rightarrow> Addon \<Rightarrow> bool" for L f where
  start: "addon_reachable L f Idle (new_main_addon f)"
| lock_won: "addon_reachable L f Idle c \<Longrightarrow> is_purchase q \<Longrightarrow>
    addon_reachable L f (Handling q) (c\<lparr>locked := True\<rparr>)"
| agent_set: "addon_reachable L f (Handling q) c \<Longrightarrow>
    addon_reachable L f (Handling q) (c\<lparr>ClientUserAgent := user_agent q\<rparr>)"
| replay_counted: "addon_reachable L f (Handling q) c \<Longrightarrow>
    addon_reachable L f (Handling q) (c\<lparr>counter := counter c + 1\<rparr>)"
| version_found: "addon_reachable L f (Handling q) c \<Longrightarrow> GetAppInfo L data = Ret (Inr a) \<Longrightarrow>
    addon_reachable L f (Handling q) (c\<lparr>HistoryVersions := HistoryVersions c @ [a]\<rparr>)"
| reported: "addon_reachable L f (Handling q) c \<Longrightarrow>
    addon_reachable L f Reported (c\<lparr>done_sent := done_sent c @ [ok]\<rparr>)"

text \<open>The handler makes these writes and no others, whatever the servers answer.\<close>

lemma replay_once_writes:
  assumes "addon_reachable L f (Handling q) c" and "replay_once L E inp c w = (r, c1, w1)"
  shows "addon_reachable L f (Handling q) c1"
  using assms replay_counted [OF assms(1)] version_found [OF replay_counted [OF assms(1)]]
  by (auto simp: replay_once_def Let_def split: sum.splits prod.splits outcome.splits)

lemma replayRequest_writes:
  "addon_reachable L f (Handling q) c \<Longrightarrow> addon_reachable L f (Handling q) (fst (replayRequest L E inp n c w))"
proof (induction n arbitrary: c w)
  case 0
  then show ?case by (auto split: prod.splits outcome.splits dest: replay_once_writes)
next
  case (Suc n)
  then show ?case by (auto split: prod.splits outcome.splits dest: replay_once_writes)
qed

lemma replay_loop_writes:
  "addon_reachable L f (Handling q) c \<Longrightarrow>
     addon_reachable L f (Handling q) (fst (snd (replay_loop L E mk ids index stop i c w)))"
proof (induction "nat (stop - index)" arbitrary: index i c w)
  case 0
  then show ?case by (subst replay_loop.simps) simp
next
  case (Suc n)
  then have "n = nat (stop - (index + 1))" by simp
  from Suc.hyps(1) [OF this] replayRequest_writes Suc.prems show ?case
    by (subst replay_loop.simps) (auto split: prod.splits, metis fst_conv)
qed

lemma buy_body_agent:
  assumes "buy_reply L E req (tick w) = None"
  shows "\<exists>p w'. buy_body L E req c w = (Panicked p, c\<lparr>ClientUserAgent := user_agent req\<rparr>, w')"
  using assms
  by (auto simp: buy_reply_def buy_body_def Let_def client_do_def println_def print_def CloneRequest_def
      split: outcome.splits sum.splits prod.splits)

lemma buy_body_writes:
  assumes "addon_reachable L f (Handling q) c"
  shows "addon_reachable L f (Handling q) (fst (snd (buy_body L E q c w)))"
proof (cases "buy_reply L E q (tick w)")
  case None
  from buy_body_agent [OF None, of c] agent_set [OF assms] show ?thesis by auto
next
  case (Some a)
  obtain start stop where
    "index_range (int (length (SoftwareVersionExternalIdentifiers a))) (Start c) (End c) = (start, stop)"
    by force
  from buy_body_Some [OF Some this] obtain w2 r c' w' w3 where r:
    "replay_loop L E (replay_input q a) (SoftwareVersionExternalIdentifiers a) start stop 0
       (c\<lparr>ClientUserAgent := user_agent q\<rparr>) w2 = (r, c', w')"
    "buy_body L E q c w = (r, c', w3)" by blast
  from replay_loop_writes [OF agent_set [OF assms], of E "replay_input q a"
      "SoftwareVersionExternalIdentifiers a" start stop 0 w2] r show ?thesis by simp
qed

lemma handleBuyRequest_writes:
  assumes "addon_reachable L f (Handling q) c"
  shows "addon_reachable L f Reported (fst (handleBuyRequest L E q c w))"
  using reported [OF buy_body_writes [OF assms, of E w]]
  by (auto simp: handleBuyRequest_def split: prod.split outcome.split)

text \<open>What holds in each phase.\<close>

fun phase_ok :: "addon_phase \<Rightarrow> Addon \<Rightarrow> bool" where
  "phase_ok Idle c = (\<not> locked c \<and> done_sent c = [] \<and> HistoryVersions c = [])"
| "phase_ok (Handling q) c = (is_purchase q \<and> locked c \<and> done_sent c = [])"
| "phase_ok Reported c = (locked c \<and> length (done_sent c) = 1)"

lemma addon_reachable_ok:
  "addon_reachable L f ph c \<Longrightarrow> phase_ok ph c \<and>
     (\<forall>a \<in> set (HistoryVersions c). GetAppInfo L (Data a) = Ret (Inr a)) \<and>
     Start c = START f \<and> End c = END f \<and> DumpResponses c = DUMP f"
proof (induction rule: addon_reachable.induct)
  case (version_found q c data a)
  moreover have "GetAppInfo L (Data a) = Ret (Inr a)"
    using version_found.hyps(2) GetAppInfo_Inr_iff [of L data a] by auto
  ultimately show ?case by auto
qed (auto simp: new_main_addon_def)

lemma Addon_Request_writes:
  assumes "addon_reachable L f ph c" and "\<forall>r. ph \<noteq> Handling r"
  shows "addon_reachable L f (if locked (fst (Addon_Request L E q c w)) then Reported else Idle)
    (fst (Addon_Request L E q c w))"
proof (cases ph)
  case Idle
  with addon_reachable_ok [OF assms(1)] have l: "\<not> locked c" by simp
  show ?thesis
  proof (cases "is_purchase q")
    case True
    have "addon_reachable L f Reported (fst (handleBuyRequest L E q (c\<lparr>locked := True\<rparr>) w))"
      using assms(1) True Idle by (intro handleBuyRequest_writes lock_won) simp_all
    with addon_reachable_ok [OF this] l True show ?thesis by (simp add: Addon_Request_def is_purchase_def)
  next
    case False
    with l assms(1) Idle show ?thesis by (simp add: Addon_Request_def is_purchase_def)
  qed
next
  case Reported
  with addon_reachable_ok [OF assms(1)] assms(1) show ?thesis by (simp add: Addon_Request_def)
qed (use assms(2) in simp)

text \<open>
  C36: at every moment, also between any two writes of the handler: without the lock there is no
  history and nothing was sent on \<open>Done\<close>; while the one hook that took the lock handles its
  purchase, it is held and nothing was sent; afterwards it stays held, so that \<open>main\<close> may unlock
  the mutex, and exactly one message was sent. Each entry of the history is always what
  \<open>GetAppInfo\<close> reads from the entry's own data. A whole call of the hook \<open>Request\<close> consists of such
  writes and ends in one of the two phases in which no handler runs.
\<close>

theorem addon_reachable_inv:
  assumes "addon_reachable L f ph c"
  shows "(case ph of
      Idle \<Rightarrow> \<not> locked c \<and> done_sent c = [] \<and> HistoryVersions c = []
    | Handling q \<Rightarrow> is_purchase q \<and> locked c \<and> done_sent c = []
    | Reported \<Rightarrow> locked c \<and> length (done_sent c) = 1) \<and>
    (\<forall>a \<in> set (HistoryVersions c). GetAppInfo L (Data a) = Ret (Inr a)) \<and>
    ((\<exists>r. ph = Handling r) \<or>
     addon_reachable L f (if locked (fst (Addon_Request L E q c w)) then Reported else Idle)
       (fst (Addon_Request L E q c w)))"
  using addon_reachable_ok [OF assms] Addon_Request_writes [OF assms, of E q w]
  by (cases ph) auto

definition plain_flags :: flags where
  "plain_flags =
     \<lparr>V = False, H = False, I = [], PS = False, C = False, S = False, DUMP = False,
      START = 0, END = max_int\<rparr>"

lemma sample_reachable:
  "addon_reachable two_versions_lib plain_flags
     (if locked (fst (Addon_Request two_versions_lib (store_env False) buy_request (new_main_addon plain_flags) empty_world))
      then Reported else Idle)
     (fst (Addon_Request two_versions_lib (store_env False) buy_request (new_main_addon plain_flags) empty_world))"
  by (rule Addon_Request_writes [OF start]) simp

text \<open>The lock was taken and the first replay is under way.\<close>

theorem addon_reachable_inv_witness:
  "\<exists>c. addon_reachable two_versions_lib plain_flags (Handling buy_request) c \<and> counter c = 1 \<and>
     locked c \<and> done_sent c = []"
proof -
  have "is_purchase buy_request" by code_simp
  from replay_counted [OF lock_won [OF start this]]
  have r: "addon_reachable two_versions_lib plain_flags (Handling buy_request)
    ((new_main_addon plain_flags)\<lparr>locked := True, counter := 1\<rparr>)"
    by (simp add: new_main_addon_def)
  from addon_reachable_inv [OF r] r show ?thesis
    by (intro exI [of _ "(new_main_addon plain_flags)\<lparr>locked := True, counter := 1\<rparr>"]) simp
qed

section \<open>Dumping a response and reading it back\<close>

definition dump_line :: "nat \<Rightarrow> string" where
  "dump_line k = (''dump'' @ CHR '' '' # nat_str k) @ [CHR 0x0A]"

lemma nat_str_visible: "list_all visible (nat_str k)"
  using nat_str_digits [of k] by (simp add: list_all_iff is_digit_visible)

lemma dump_line_words:
  "trim_space (dump_line k) = ''dump'' @ CHR '' '' # nat_str k"
  "Go_Strings.fields (''dump'' @ CHR '' '' # nat_str k) = [''dump'', nat_str k]"
proof -
  have "visible (last (nat_str k))"
    using nat_str_visible [of k] by (simp add: list_all_iff)
  then show "trim_space (dump_line k) = ''dump'' @ CHR '' '' # nat_str k"
    unfolding dump_line_def by (intro trim_line) (simp_all add: visible_def)
  show "Go_Strings.fields (''dump'' @ CHR '' '' # nat_str k) = [''dump'', nat_str k]"
    by (rule fields_two) (simp_all add: nat_str_visible, simp add: visible_def)
qed

lemma os_write_file_no_faults:
  assumes "no_faults E" and "nodes w p \<noteq> Some DirNode"
  shows "\<exists>w1. os_write_file E p d w = (None, w1)"
  using os_create_no_faults [OF assms]
  by (auto simp: os_write_file_def file_write_def sys_no_faults [OF assms(1)])

lemma handle_dump_line:
  assumes "int k \<le> max_int" and "k < length hist"
  shows "handle_line L E hist ua (Inr (dump_line k)) w =
    apfst Ret (handle_dump E hist [nat_str k] (print prompt w))"
proof -
  have "\<not> is_digit (CHR ''d'')" by (simp add: is_digit_def)
  with dump_line_words [of k] show ?thesis by (simp add: handle_line_def Let_def)
qed

text \<open>
  C37: with no faults, the \<open>dump\<close> command for version \<open>k\<close> writes one file, named after the version,
  from which a later \<open>-i\<close> run gets exactly the information of that version.
\<close>

theorem dump_read_back:
  assumes "addon_reachable L f ph c" and "k < length (HistoryVersions c)" and "int k \<le> max_int"
    and "no_faults E" and "nodes w (dump_filename (HistoryVersions c ! k)) \<noteq> Some DirNode"
  shows "\<exists>w1 b. handle_line L E (HistoryVersions c) ua (Inr (dump_line k)) w = (Ret Continue, w1) \<and>
    nodes w1 = (nodes w)(dump_filename (HistoryVersions c ! k) \<mapsto> FileNode (Bytes b)) \<and>
    GetAppInfo L b = Ret (Inr (HistoryVersions c ! k))"
proof -
  let ?a = "HistoryVersions c ! k"
  let ?w = "println (''Saving response data to ['' @ dump_filename ?a @ '']...'') (print prompt w)"
  have "nodes ?w (dump_filename ?a) \<noteq> Some DirNode" using assms(5) by (simp add: world_simps)
  from os_write_file_no_faults [OF assms(4) this] obtain w2 where
    w: "os_write_file E (dump_filename ?a) (Data ?a) ?w = (None, w2)" by blast
  from os_write_file_NoneD [OF w] have "nodes w2 = (nodes w)(dump_filename ?a \<mapsto> FileNode (Bytes (Data ?a)))"
    by (simp add: world_simps)
  moreover have "GetAppInfo L (Data ?a) = Ret (Inr ?a)"
    using addon_reachable_ok [OF assms(1)] assms(2) by simp
  moreover have "handle_line L E (HistoryVersions c) ua (Inr (dump_line k)) w = (Ret Continue, println [] w2)"
    using handle_dump_line [OF assms(3,2)] w assms(2)
    by (simp add: handle_dump_def atoi_nat_str [OF assms(3)] Let_def)
  ultimately show ?thesis by (intro exI [of _ "println [] w2"] exI [of _ "Data ?a"]) simp
qed

text \<open>The history of the sample run, for the closed instance.\<close>

definition sample_run :: Addon where
  "sample_run = fst (Addon_Request two_versions_lib (store_env False) buy_request
     (new_main_addon plain_flags) empty_world)"

lemma sample_run_history: "HistoryVersions sample_run \<noteq> []"
proof -
  let ?L = "two_versions_lib" and ?E = "store_env False"
  let ?c = "(new_main_addon plain_flags)\<lparr>locked := True\<rparr>"
  let ?a = "version_info ''<string>8</string>'' 8"
  have url: "contains (url_string (r_url buy_request)) targetUrlSubstr" by code_simp
  have r: "buy_reply ?L ?E buy_request (tick empty_world) = Some ?a"
    using buy_reply_sample(1) by (simp add: empty_world_def)
  have ir: "index_range (int (length (SoftwareVersionExternalIdentifiers ?a))) (Start ?c) (End ?c) = (0, 2)"
    by code_simp
  have ans: "answers ?L ?E (replay_input buy_request ?a j i (SoftwareVersionExternalIdentifiers ?a ! nat j))
       ((\<lambda>v. version_info (version_tag v) v) (SoftwareVersionExternalIdentifiers ?a ! nat j))"
    if "0 \<le> j" "j < 2" for j i
  proof -
    from that have "nat j = 0 \<or> nat j = 1" by linarith
    then show ?thesis using answers_sample by (auto simp: version_info_def)
  qed
  from handleBuyRequest_answered [where info = "\<lambda>v. version_info (version_tag v) v", OF r ir ans]
  have "HistoryVersions (fst (handleBuyRequest ?L ?E buy_request ?c empty_world)) \<noteq> []"
    by (simp add: version_info_def)
  then show ?thesis
    by (simp add: sample_run_def Addon_Request_def url new_main_addon_def)
qed

theorem dump_read_back_witness:
  "\<exists>w1 b. handle_line two_versions_lib (store_env False) (HistoryVersions sample_run) ''ua''
       (Inr (dump_line 0)) empty_world = (Ret Continue, w1) \<and>
     nodes w1 (dump_filename (HistoryVersions sample_run ! 0)) = Some (FileNode (Bytes b)) \<and>
     GetAppInfo two_versions_lib b = Ret (Inr (HistoryVersions sample_run ! 0))"
proof -
  have r: "addon_reachable two_versions_lib plain_flags (if locked sample_run then Reported else Idle) sample_run"
    unfolding sample_run_def by (rule sample_reachable)
  have k: "0 < length (HistoryVersions sample_run)" using sample_run_history by simp
  have E: "no_faults (store_env False)" by (simp add: no_faults_def store_env_def calm_env_def)
  have n: "nodes empty_world (dump_filename (HistoryVersions sample_run ! 0)) \<noteq> Some DirNode"
    by (simp add: empty_world_def)
  from dump_read_back [OF r k _ E n, of "''ua''"] show ?thesis by (auto simp: max_int_def)
qed

section \<open>The system proxy\<close>

text \<open>The last call of the sysproxy package that matters was to turn the proxy on.\<close>

definition proxy_step :: "sp_call \<Rightarrow> bool \<Rightarrow> bool" where
  "proxy_step x b = (case x of SpOn _ _ \<Rightarrow> True | SpOff _ _ \<Rightarrow> False | _ \<Rightarrow> b)"

definition proxy_left_on :: "cli \<Rightarrow> bool" where
  "proxy_left_on s \<longleftrightarrow> fold proxy_step (sp_calls s) False"

definition new_cli :: cli where
  "new_cli = \<lparr>systemProxy = False, sp_calls = []\<rparr>"

lemma proxy_left_on_calls [simp]:
  "proxy_left_on (call_sp x s) = proxy_step x (proxy_left_on s)"
  "proxy_left_on (s\<lparr>systemProxy := b\<rparr>) = proxy_left_on s"
  "\<not> proxy_left_on new_cli"
  by (simp_all add: proxy_left_on_def call_sp_def new_cli_def)

lemma systemProxy_call_sp [simp]: "systemProxy (call_sp x s) = systemProxy s"
  by (simp add: call_sp_def)














text \<open>
  the cleanup flag \<open>-c\<close>, whose help text says it turns the proxy off, makes no call at all: the
  variable that \<open>turnOffProxy\<close> looks at is nil in a new process.
\<close>

theorem cleanup_flag_no_effect:
  "run_main L E (plain_flags\<lparr>C := True\<rparr>) R new_cli w =
     (Exited, new_cli, println ''Skip. As systemProxy is nil.''
        (println ''Turn off system proxy...'' w))"
  by (simp add: run_main_def plain_flags_def turnOffProxy_def new_cli_def)

end
