(* ===== verification/Addon_Threads.thy ===== *)
theory Addon_Threads
  imports Cli_Props
begin

text \<open>
  The \<open>Request\<close> hooks of \<open>ipaversionlib/ipaversion.go\<close> as the proxy runs them: each in the goroutine of
  its request, while \<open>main\<close> waits on the channel \<open>Done\<close>. \<open>TryLock\<close>, the handler of the one that got
  the lock, and the send on the unbuffered channel are separate steps, so that other hooks run
  in between. The handler itself is one step: an invariant shows that while it runs no other
  goroutine touches the state of the addon, and that \<open>main\<close> reads it only when it is final.
\<close>

section \<open>Steps\<close>

datatype task = Arrived Request | Holding Request | Sending | Returned

record threads =
  th_addon :: Addon
  th_world :: world
  tasks :: "task list"
  main_got :: "bool option"

inductive hook_step :: "plist_lib \<Rightarrow> env \<Rightarrow> threads \<Rightarrow> threads \<Rightarrow> bool" for L E where
  arrives: "hook_step L E s (s\<lparr>tasks := tasks s @ [Arrived q]\<rparr>)"
| passes: "i < length (tasks s) \<Longrightarrow> tasks s ! i = Arrived q \<Longrightarrow> \<not> is_purchase q \<Longrightarrow>
     hook_step L E s (s\<lparr>tasks := (tasks s)[i := Returned]\<rparr>)"
| lock_refused: "i < length (tasks s) \<Longrightarrow> tasks s ! i = Arrived q \<Longrightarrow> is_purchase q \<Longrightarrow>
     locked (th_addon s) \<Longrightarrow> hook_step L E s (s\<lparr>tasks := (tasks s)[i := Returned]\<rparr>)"
| lock_taken: "i < length (tasks s) \<Longrightarrow> tasks s ! i = Arrived q \<Longrightarrow> is_purchase q \<Longrightarrow>
     \<not> locked (th_addon s) \<Longrightarrow>
     hook_step L E s (s\<lparr>tasks := (tasks s)[i := Holding q], th_addon := (th_addon s)\<lparr>locked := True\<rparr>\<rparr>)"
| handled_request: "i < length (tasks s) \<Longrightarrow> tasks s ! i = Holding q \<Longrightarrow>
     handleBuyRequest L E q (th_addon s) (th_world s) = (c, w) \<Longrightarrow>
     hook_step L E s (s\<lparr>tasks := (tasks s)[i := Sending], th_addon := c, th_world := w\<rparr>)"
| done_received: "i < length (tasks s) \<Longrightarrow> tasks s ! i = Sending \<Longrightarrow> main_got s = None \<Longrightarrow>
     hook_step L E s (s\<lparr>tasks := (tasks s)[i := Returned], main_got := Some (last (done_sent (th_addon s)))\<rparr>)"

definition hooks_start :: "flags \<Rightarrow> world \<Rightarrow> threads" where
  "hooks_start f w = \<lparr>th_addon = new_main_addon f, th_world = w, tasks = [], main_got = None\<rparr>"

inductive hooks_reachable :: "plist_lib \<Rightarrow> env \<Rightarrow> flags \<Rightarrow> world \<Rightarrow> threads \<Rightarrow> bool" for L E f w where
  started: "hooks_reachable L E f w (hooks_start f w)"
| stepped: "hooks_reachable L E f w s \<Longrightarrow> hook_step L E s s' \<Longrightarrow> hooks_reachable L E f w s'"

section \<open>The invariant\<close>

definition active :: "task \<Rightarrow> bool" where
  "active t \<longleftrightarrow> (case t of Arrived q \<Rightarrow> False | Holding q \<Rightarrow> True | Sending \<Rightarrow> True | Returned \<Rightarrow> False)"

lemma active_simps [simp]: "\<not> active (Arrived q)" "active (Holding q)" "active Sending" "\<not> active Returned"
  by (simp_all add: active_def)

text \<open>The lock is free, held by a handler, or kept for ever by the handler that used it.\<close>

definition lock_free :: "flags \<Rightarrow> world \<Rightarrow> threads \<Rightarrow> bool" where
  "lock_free f w s \<longleftrightarrow> th_addon s = new_main_addon f \<and> th_world s = w \<and>
     filter active (tasks s) = [] \<and> main_got s = None"

definition lock_held :: "flags \<Rightarrow> world \<Rightarrow> Request \<Rightarrow> threads \<Rightarrow> bool" where
  "lock_held f w q s \<longleftrightarrow> th_addon s = (new_main_addon f)\<lparr>locked := True\<rparr> \<and> th_world s = w \<and>
     filter active (tasks s) = [Holding q] \<and> main_got s = None"

definition lock_kept :: "plist_lib \<Rightarrow> env \<Rightarrow> flags \<Rightarrow> world \<Rightarrow> Request \<Rightarrow> threads \<Rightarrow> bool" where
  "lock_kept L E f w q s \<longleftrightarrow>
     handleBuyRequest L E q ((new_main_addon f)\<lparr>locked := True\<rparr>) w = (th_addon s, th_world s) \<and>
     (filter active (tasks s) = [Sending] \<and> main_got s = None \<or>
      filter active (tasks s) = [] \<and> main_got s = Some (last (done_sent (th_addon s))))"

definition hooks_inv :: "plist_lib \<Rightarrow> env \<Rightarrow> flags \<Rightarrow> world \<Rightarrow> threads \<Rightarrow> bool" where
  "hooks_inv L E f w s \<longleftrightarrow>
     lock_free f w s \<or> (\<exists>q. is_purchase q \<and> (lock_held f w q s \<or> lock_kept L E f w q s))"

lemma filter_at: "i < length xs \<Longrightarrow>
    filter P xs = filter P (take i xs) @ filter P [xs ! i] @ filter P (drop (Suc i) xs)"
  by (subst id_take_nth_drop [of i xs]) auto

lemma filter_update: "i < length xs \<Longrightarrow>
    filter P (xs[i := y]) = filter P (take i xs) @ filter P [y] @ filter P (drop (Suc i) xs)"
  by (simp add: upd_conv_take_nth_drop)

lemma active_inactive:
  "i < length ts \<Longrightarrow> \<not> active (ts ! i) \<Longrightarrow> \<not> active t \<Longrightarrow> filter active (ts[i := t]) = filter active ts"
  by (simp add: filter_update filter_at [of i ts])

lemma active_starts:
  "i < length ts \<Longrightarrow> filter active ts = [] \<Longrightarrow> active t \<Longrightarrow> filter active (ts[i := t]) = [t]"
  by (simp add: filter_update filter_at [of i ts])

lemma active_only:
  assumes "i < length ts" and "filter active ts = [u]" and "active (ts ! i)"
  shows "ts ! i = u" and "filter active (ts[i := t]) = filter active [t]"
  using assms by (auto simp: filter_update filter_at [of i ts] append_eq_Cons_conv)

lemma some_active: "i < length ts \<Longrightarrow> active (ts ! i) \<Longrightarrow> filter active ts \<noteq> []"
  by (simp add: filter_at [of i ts])

lemma kept_fields:
  assumes "lock_kept L E f w q s"
  shows "locked (th_addon s)" and "\<exists>b. done_sent (th_addon s) = [b]"
proof -
  have "fst (handleBuyRequest L E q ((new_main_addon f)\<lparr>locked := True\<rparr>) w) = th_addon s"
    using assms by (simp add: lock_kept_def)
  with handled_fields [OF handleBuyRequest_handled [of L E q w "(new_main_addon f)\<lparr>locked := True\<rparr>"]]
  show "locked (th_addon s)" "\<exists>b. done_sent (th_addon s) = [b]"
    by (simp_all add: new_main_addon_def)
qed

lemma lock_free_step:
  assumes "hook_step L E s s'" and "lock_free f w s"
  shows "lock_free f w s' \<or> (\<exists>q. is_purchase q \<and> lock_held f w q s')"
proof -
  from assms(2) have s: "th_addon s = new_main_addon f" "th_world s = w" "filter active (tasks s) = []"
    "main_got s = None" by (simp_all add: lock_free_def)
  from assms(1) show ?thesis
  proof (cases rule: hook_step.cases)
    case (arrives q)
    with s show ?thesis by (simp add: lock_free_def)
  next
    case (passes i q)
    with s active_inactive [of i "tasks s" Returned] show ?thesis by (simp add: lock_free_def)
  next
    case (lock_refused i q)
    with s show ?thesis by (simp add: new_main_addon_def)
  next
    case (lock_taken i q)
    with s active_starts [of i "tasks s" "Holding q"] show ?thesis by (auto simp: lock_held_def)
  next
    case (handled_request i q c w)
    with s(3) some_active [of i "tasks s"] show ?thesis by simp
  next
    case (done_received i)
    with s(3) some_active [of i "tasks s"] show ?thesis by simp
  qed
qed

lemma lock_held_step:
  assumes "hook_step L E s s'" and "lock_held f w q s"
  shows "lock_held f w q s' \<or> lock_kept L E f w q s'"
proof -
  from assms(2) have s: "th_addon s = (new_main_addon f)\<lparr>locked := True\<rparr>" "th_world s = w"
    "filter active (tasks s) = [Holding q]" "main_got s = None" by (simp_all add: lock_held_def)
  from assms(1) show ?thesis
  proof (cases rule: hook_step.cases)
    case (arrives r)
    with s show ?thesis by (simp add: lock_held_def)
  next
    case (passes i r)
    with s active_inactive [of i "tasks s" Returned] show ?thesis by (simp add: lock_held_def)
  next
    case (lock_refused i r)
    with s active_inactive [of i "tasks s" Returned] show ?thesis by (simp add: lock_held_def)
  next
    case (lock_taken i r)
    with s show ?thesis by simp
  next
    case (handled_request i r c w')
    with s active_only(1) [of i "tasks s" "Holding q"] active_only(2) [of i "tasks s" "Holding q" Sending]
    show ?thesis by (simp add: lock_kept_def)
  next
    case (done_received i)
    with s(3) active_only(1) [of i "tasks s" "Holding q"] show ?thesis by simp
  qed
qed

lemma lock_kept_step:
  assumes "hook_step L E s s'" and "lock_kept L E f w q s"
  shows "lock_kept L E f w q s' \<and> th_addon s' = th_addon s \<and> th_world s' = th_world s"
proof -
  have l: "locked (th_addon s)" by (rule kept_fields(1) [OF assms(2)])
  from assms(2) consider
      (send) "filter active (tasks s) = [Sending]" "main_got s = None"
    | (sent) "filter active (tasks s) = []" "main_got s = Some (last (done_sent (th_addon s)))"
    by (auto simp: lock_kept_def)
  note phases = this
  from assms(1) show ?thesis
  proof (cases rule: hook_step.cases)
    case (arrives r)
    with assms(2) show ?thesis by (simp add: lock_kept_def)
  next
    case (passes i r)
    with assms(2) active_inactive [of i "tasks s" Returned] show ?thesis by (simp add: lock_kept_def)
  next
    case (lock_refused i r)
    with assms(2) active_inactive [of i "tasks s" Returned] show ?thesis by (simp add: lock_kept_def)
  next
    case (lock_taken i r)
    with l show ?thesis by simp
  next
    case (handled_request i r c w')
    with phases active_only(1) [of i "tasks s" Sending] some_active [of i "tasks s"] show ?thesis by auto
  next
    case (done_received i)
    with assms(2) active_only(2) [of i "tasks s" Sending Returned] some_active [of i "tasks s"] show ?thesis
      by (auto simp: lock_kept_def)
  qed
qed

lemma hooks_inv_step: "hook_step L E s s' \<Longrightarrow> hooks_inv L E f w s \<Longrightarrow> hooks_inv L E f w s'"
  unfolding hooks_inv_def by (blast dest: lock_free_step lock_held_step lock_kept_step)

lemma hooks_reachable_inv: "hooks_reachable L E f w s \<Longrightarrow> hooks_inv L E f w s"
proof (induction rule: hooks_reachable.induct)
  case started
  show ?case by (simp add: hooks_inv_def lock_free_def hooks_start_def)
next
  case (stepped s s')
  then show ?case by (blast intro: hooks_inv_step)
qed

section \<open>Properties\<close>

lemma hooks_inv_active: "hooks_inv L E f w s \<Longrightarrow> length (filter active (tasks s)) \<le> 1"
  by (auto simp: hooks_inv_def lock_free_def lock_held_def lock_kept_def)

lemma hooks_inv_received:
  assumes "hooks_inv L E f w s" and "main_got s = Some ok"
  obtains q where "is_purchase q" "lock_kept L E f w q s" "done_sent (th_addon s) = [ok]"
proof -
  from assms obtain q where q: "is_purchase q" "lock_kept L E f w q s"
    by (auto simp: hooks_inv_def lock_free_def lock_held_def)
  moreover have "main_got s = Some (last (done_sent (th_addon s)))"
    using q(2) assms(2) by (simp add: lock_kept_def)
  ultimately show thesis using kept_fields(2) [OF q(2)] assms(2) that by auto
qed

text \<open>Every goroutine that has not returned can move.\<close>

lemma hook_progress:
  assumes "hooks_inv L E f w s" and "i < length (tasks s)" and "tasks s ! i \<noteq> Returned"
  shows "\<exists>s'. hook_step L E s s' \<and> length (tasks s') = length (tasks s) \<and> tasks s' ! i \<noteq> tasks s ! i"
proof -
  have moved: ?thesis if "hook_step L E s (s\<lparr>tasks := (tasks s)[i := t], th_addon := c, th_world := v, main_got := g\<rparr>)"
    "t \<noteq> tasks s ! i" for t c v g
    using that assms(2) by (intro exI [of _ "s\<lparr>tasks := (tasks s)[i := t], th_addon := c, th_world := v, main_got := g\<rparr>"]) simp
  show ?thesis
  proof (cases "tasks s ! i")
    case (Arrived q)
    show ?thesis
    proof (cases "is_purchase q \<and> \<not> locked (th_addon s)")
      case True
      with lock_taken [OF assms(2) Arrived, of L E] Arrived show ?thesis
        by (intro moved [where t = "Holding q" and c = "(th_addon s)\<lparr>locked := True\<rparr>" and v = "th_world s" and g = "main_got s"]) simp_all
    next
      case False
      with passes [OF assms(2) Arrived, of L E] lock_refused [OF assms(2) Arrived, of L E] Arrived show ?thesis
        by (intro moved [where t = Returned and c = "th_addon s" and v = "th_world s" and g = "main_got s"]) auto
    qed
  next
    case (Holding q)
    obtain c v where "handleBuyRequest L E q (th_addon s) (th_world s) = (c, v)" by force
    from handled_request [OF assms(2) Holding this] Holding show ?thesis
      by (intro moved [where t = Sending and c = c and v = v and g = "main_got s"]) simp_all
  next
    case Sending
    have "main_got s = None"
      using assms(1) some_active [OF assms(2)] Sending
      by (auto simp: hooks_inv_def lock_free_def lock_held_def lock_kept_def)
    from done_received [OF assms(2) Sending this, of L E] Sending show ?thesis
      by (intro moved [where t = Returned and c = "th_addon s" and v = "th_world s" and g = "Some (last (done_sent (th_addon s)))"]) simp_all
  qed (use assms(3) in simp)
qed

text \<open>
  C21: the hooks are free of races and of deadlocks. In every interleaving of the goroutines of any
  number of requests at most one of them works on the addon or waits to report; every goroutine
  that has not returned can go on; and when \<open>main\<close> has received its message, the state is what the
  handler of one purchase makes of the initial state, it is never changed again, and the
  message was the only one.
\<close>

theorem hooks_race_free:
  assumes "hooks_reachable L E f w s"
  shows "length (filter active (tasks s)) \<le> 1 \<and>
    (\<forall>i < length (tasks s). tasks s ! i \<noteq> Returned \<longrightarrow>
       (\<exists>s'. hook_step L E s s' \<and> length (tasks s') = length (tasks s) \<and> tasks s' ! i \<noteq> tasks s ! i)) \<and>
    (\<forall>ok. main_got s = Some ok \<longrightarrow>
       (\<exists>q. is_purchase q \<and> done_sent (th_addon s) = [ok] \<and>
          handleBuyRequest L E q ((new_main_addon f)\<lparr>locked := True\<rparr>) w = (th_addon s, th_world s) \<and>
          (\<forall>s'. hook_step L E s s' \<longrightarrow> th_addon s' = th_addon s \<and> th_world s' = th_world s)))"
proof (intro conjI allI impI)
  note i = hooks_reachable_inv [OF assms]
  show "length (filter active (tasks s)) \<le> 1" by (rule hooks_inv_active [OF i])
  show "\<exists>s'. hook_step L E s s' \<and> length (tasks s') = length (tasks s) \<and> tasks s' ! k \<noteq> tasks s ! k"
    if "k < length (tasks s)" "tasks s ! k \<noteq> Returned" for k
    by (rule hook_progress [OF i that])
  fix ok assume "main_got s = Some ok"
  with i obtain q where q: "is_purchase q" "lock_kept L E f w q s" "done_sent (th_addon s) = [ok]"
    by (rule hooks_inv_received)
  moreover have "th_addon s' = th_addon s \<and> th_world s' = th_world s" if "hook_step L E s s'" for s'
    using lock_kept_step [OF that q(2)] by simp
  ultimately show "\<exists>q. is_purchase q \<and> done_sent (th_addon s) = [ok] \<and>
      handleBuyRequest L E q ((new_main_addon f)\<lparr>locked := True\<rparr>) w = (th_addon s, th_world s) \<and>
      (\<forall>s'. hook_step L E s s' \<longrightarrow> th_addon s' = th_addon s \<and> th_world s' = th_world s)"
    by (auto simp: lock_kept_def)
qed

text \<open>
  The states of the addon between the steps of the goroutines are among those that the writes of one
  handler reach (\<open>addon_reachable\<close>).
\<close>

lemma hooks_addon_reachable:
  assumes "hooks_reachable L E f w s"
  shows "\<exists>ph. addon_reachable L f ph (th_addon s)"
proof -
  have taken: "addon_reachable L f (Handling q) ((new_main_addon f)\<lparr>locked := True\<rparr>)" if "is_purchase q" for q
    using that by (intro addon_reachable.intros)
  from hooks_reachable_inv [OF assms] consider "lock_free f w s"
    | q where "is_purchase q" "lock_held f w q s" | q where "is_purchase q" "lock_kept L E f w q s"
    by (auto simp: hooks_inv_def)
  then show ?thesis
  proof cases
    case 1
    then show ?thesis using addon_reachable.start [of L f] by (auto simp: lock_free_def)
  next
    case (2 q)
    then show ?thesis using taken [of q] by (auto simp: lock_held_def)
  next
    case (3 q)
    with handleBuyRequest_writes [OF taken, of q E w] show ?thesis by (auto simp: lock_kept_def)
  qed
qed

section \<open>A closed instance\<close>

lemma buy_request_is_purchase: "is_purchase buy_request"
  by code_simp

lemma sample_handler:
  "\<exists>c v. handleBuyRequest two_versions_lib (store_env False) buy_request
      ((new_main_addon plain_flags)\<lparr>locked := True\<rparr>) empty_world = (c, v) \<and> done_sent c = [True]"
proof -
  let ?c = "(new_main_addon plain_flags)\<lparr>locked := True\<rparr>"
  let ?x = "handleBuyRequest two_versions_lib (store_env False) buy_request ?c empty_world"
  have "handled True ?c (fst ?x)"
    using handleBuyRequest_handled [of two_versions_lib "store_env False" buy_request empty_world ?c]
      buy_reply_sample(1) by (simp add: empty_world_def)
  from handled_fields [OF this] have "done_sent (fst ?x) = [True]" by (simp add: new_main_addon_def)
  then show ?thesis by (metis prod.collapse)
qed

text \<open>Two purchases arrive; the second one takes the lock, the first one is refused, \<open>main\<close> hears of it.\<close>

lemma sample_threads:
  "\<exists>c v. done_sent c = [True] \<and> hooks_reachable two_versions_lib (store_env False) plain_flags empty_world
     \<lparr>th_addon = c, th_world = v, tasks = [Returned, Returned], main_got = Some True\<rparr>"
proof -
  let ?L = two_versions_lib and ?E = "store_env False" and ?f = plain_flags
  let ?a = "(new_main_addon ?f)\<lparr>locked := True\<rparr>"
  obtain c v where h: "handleBuyRequest ?L ?E buy_request ?a empty_world = (c, v)" "done_sent c = [True]"
    using sample_handler by blast
  define st where "st = (\<lambda>a w ts g. \<lparr>th_addon = a, th_world = w, tasks = ts, main_got = g\<rparr>)"
  have f: "\<not> locked (new_main_addon ?f)" by (simp add: new_main_addon_def)
  have 0: "hooks_reachable ?L ?E ?f empty_world (st (new_main_addon ?f) empty_world [] None)"
    using started [of ?L ?E ?f empty_world] by (simp add: hooks_start_def st_def)
  have 1: "hooks_reachable ?L ?E ?f empty_world
      (st (new_main_addon ?f) empty_world [Arrived buy_request, Arrived buy_request] None)"
    using stepped [OF stepped [OF 0 arrives [of ?L ?E _ buy_request]] arrives [of ?L ?E _ buy_request]]
    by (simp add: st_def)
  have 2: "hooks_reachable ?L ?E ?f empty_world
      (st ?a empty_world [Arrived buy_request, Holding buy_request] None)"
    using stepped [OF 1 lock_taken [of 1 _ buy_request]] f buy_request_is_purchase by (simp add: st_def)
  have 3: "hooks_reachable ?L ?E ?f empty_world (st ?a empty_world [Returned, Holding buy_request] None)"
    using stepped [OF 2 lock_refused [of 0 _ buy_request]] buy_request_is_purchase by (simp add: st_def)
  have 4: "hooks_reachable ?L ?E ?f empty_world (st c v [Returned, Sending] None)"
    using stepped [OF 3 handled_request [of 1 _ buy_request ?L ?E c v]] h(1) by (simp add: st_def)
  have "hooks_reachable ?L ?E ?f empty_world (st c v [Returned, Returned] (Some True))"
    using stepped [OF 4 done_received [of 1]] h(2) by (simp add: st_def)
  with h(2) show ?thesis by (auto simp: st_def)
qed

theorem hooks_race_free_witness:
  "\<exists>s. hooks_reachable two_versions_lib (store_env False) plain_flags empty_world s \<and>
     tasks s = [Returned, Returned] \<and> (\<exists>q. is_purchase q \<and> done_sent (th_addon s) = [True])"
proof -
  from sample_threads obtain c v where
    r: "hooks_reachable two_versions_lib (store_env False) plain_flags empty_world
      \<lparr>th_addon = c, th_world = v, tasks = [Returned, Returned], main_got = Some True\<rparr>" by blast
  from hooks_race_free [OF r] r show ?thesis
    by (intro exI [of _ "\<lparr>th_addon = c, th_world = v, tasks = [Returned, Returned], main_got = Some True\<rparr>"]) auto
qed

end
