(* ===== verification/Proxy_Keeps.thy ===== *)
theory Proxy_Keeps
  imports Proxy_Quiet
begin

text \<open>
  Properties of the handler's state that survive \<open>ServeHTTP\<close>. The locale \<open>answer_property\<close> is what
  such a property needs to survive everything but the \<open>Request\<close> hooks, \<open>handler_property\<close> adds
  these. \<open>conn_property\<close> is the contract for properties of the connection context alone, and gives
  \<open>handler_property\<close>; it is interpreted for the reachable contexts of \<open>Conn_Props\<close> and for the
  contexts whose handshake with the server is done. The state of the program's addon, which
  only its \<open>Request\<close> hook changes, is an instance of \<open>answer_property\<close>.
\<close>

section \<open>The stages\<close>

locale answer_property =
  fixes Q :: "'s serve \<Rightarrow> bool" and V :: serve_env and as :: "'s addon_ops list"
  assumes requestheaders_kept: "keeps Q (run_hooks HRequestheaders on_Requestheaders stop_on_response 0 as)"
    and responseheaders_kept: "keeps Q (run_hooks HResponseheaders on_Responseheaders stop_on_body 0 as)"
    and response_kept: "keeps Q (run_hooks HResponse on_Response never_stop 0 as)"
    and stream_request_kept: "keeps Q (run_modifiers HStreamRequest StreamRequestModifier 0 as x)"
    and stream_response_kept: "keeps Q (run_modifiers HStreamResponse StreamResponseModifier 0 as x)"
    and client_kept: "keeps Q (client_Do V (length as) q)"
    and writer_kept: "Q s \<Longrightarrow> Q (s\<lparr>sv_rw := r\<rparr>)"
    and flow_kept: "Q s \<Longrightarrow> Q (s\<lparr>sv_flow := f\<rparr>)"
    and bodies_kept: "Q s \<Longrightarrow> Q (s\<lparr>sv_open_bodies := k\<rparr>)"
    and counted_kept: "Q s \<Longrightarrow> Q (s\<lparr>sv_conn := (sv_conn s)\<lparr>FlowCount := FlowCount (sv_conn s) + 1\<rparr>\<rparr>)"
    and prepared_kept: "Q s \<Longrightarrow> Q (s\<lparr>sv_conn := initHttpServerConn (sv_conn s)\<rparr>)"
    and last_kept: "Q s \<Longrightarrow> Q (s\<lparr>sv_conn := (sv_conn s)\<lparr>closeAfterResponse := True\<rparr>\<rparr>)"
begin

lemma leave_kept: "Q s \<Longrightarrow> Q (snd (leave_with code s))" "Q s \<Longrightarrow> Q (snd (leave_reply rp b s))"
  by (simp_all add: leave_with_def leave_reply_def writer_kept split: prod.split outcome.split)

lemma go_keeps: "keeps Q (\<lambda>s. (r s, s))"
  by (simp add: keeps_def)

lemma forward_stage_keeps: "keeps Q (forward_stage V as b)"
  unfolding forward_stage_def
proof (rule keeps_seq [OF stream_request_kept])
  fix x
  have got: "keeps Q (\<lambda>s2. case r of
       Inl err \<Rightarrow> leave_with 502 s2
     | Inr proxyRes \<Rightarrow> (Go proxyRes, s2\<lparr>sv_open_bodies := Suc (sv_open_bodies s2)\<rparr>))" for r
    by (cases r) (auto simp: keeps_def bodies_kept leave_kept)
  show "keeps Q (\<lambda>s :: 's serve. case new_request (sv_env V) (r_method (f_request (sv_flow s)))
        (url_string (r_url (f_request (sv_flow s)))) (case x of None \<Rightarrow> bytes_reader [] | Some b \<Rightarrow> b) of
       Inl err \<Rightarrow> leave_with 502 s
     | Inr proxyReq0 \<Rightarrow>
         (let proxyReq = proxyReq0\<lparr>hq_header := add_headers (hq_header proxyReq0)
                (r_header (f_request (sv_flow s)))\<rparr>;
              s1 = s\<lparr>sv_conn := initHttpServerConn (sv_conn s)\<rparr>
          in seq (client_Do V (length as) proxyReq)
               (\<lambda>r s2. case r of
                  Inl err \<Rightarrow> leave_with 502 s2
                | Inr proxyRes \<Rightarrow> (Go proxyRes, s2\<lparr>sv_open_bodies := Suc (sv_open_bodies s2)\<rparr>)) s1))"
    (is "keeps Q ?m")
    unfolding keeps_def
  proof (intro allI impI)
    fix s :: "'s serve" assume q: "Q s"
    show "Q (snd (?m s))"
    proof (cases "new_request (sv_env V) (r_method (f_request (sv_flow s)))
        (url_string (r_url (f_request (sv_flow s)))) (case x of None \<Rightarrow> bytes_reader [] | Some b \<Rightarrow> b)")
      case (Inl e)
      with q show ?thesis by (simp add: leave_kept)
    next
      case (Inr proxyReq0)
      with keeps_seq [OF client_kept got, unfolded keeps_def, rule_format, OF prepared_kept [OF q]]
      show ?thesis by (simp add: Let_def)
    qed
  qed
qed

lemma hooks_then_go_kept:
  "Q s \<Longrightarrow> Q (snd (seq (run_hooks HResponse on_Response never_stop 0 as) (\<lambda>_ s4. (Go r, s4)) s))"
  using keeps_seq [OF response_kept go_keeps, of "\<lambda>_ _. Go r"] by (simp add: keeps_def)

lemma response_stage_keeps: "keeps Q (response_stage V as res)"
proof -
  have body: "keeps Q (\<lambda>s3.
     if f_stream (sv_flow s3) then (Go (Some (hp_body res)), s3)
     else (case readerToBuffer (hp_body res) (sv_limit V) of
             Inl err \<Rightarrow> leave_with 502 s3
           | Inr (None, r) \<Rightarrow> (Go r, s3\<lparr>sv_flow := (sv_flow s3)\<lparr>f_stream := True\<rparr>\<rparr>)
           | Inr (Some resBuf, r) \<Rightarrow>
               (case f_response (sv_flow s3) of
                  None \<Rightarrow> (Raise NilDeref, s3)
                | Some response \<Rightarrow>
                    seq (run_hooks HResponse on_Response never_stop 0 as) (\<lambda>_ s4. (Go r, s4))
                      (s3\<lparr>sv_flow := (sv_flow s3)\<lparr>f_response := Some (response\<lparr>s_body := Some resBuf\<rparr>)\<rparr>\<rparr>))))"
    unfolding keeps_def
    by (simp add: leave_kept hooks_then_go_kept flow_kept split: sum.split option.split prod.split)
  show ?thesis
    unfolding response_stage_def Let_def
    by (rule keeps_from [OF keeps_seq [OF responseheaders_kept body]]) (simp add: last_kept flow_kept)
qed

lemma reply_stage_keeps: "keeps Q (reply_stage as b)"
  unfolding reply_stage_def
proof (rule keeps_seq [OF stream_response_kept])
  fix x
  show "keeps Q (\<lambda>s. case f_response (sv_flow s) of None \<Rightarrow> (Raise NilDeref, s)
      | Some response \<Rightarrow> leave_reply response x s)"
    by (auto simp: keeps_def leave_kept split: option.split)
qed

lemma answer_keeps:
  "keeps Q (seq (forward_stage V as b)
     (\<lambda>proxyRes. seq (response_stage V as proxyRes) (\<lambda>resBody. reply_stage as resBody)))"
  by (intro keeps_seq forward_stage_keeps response_stage_keeps reply_stage_keeps)

lemma start_flow_keeps: "Q s \<Longrightarrow> Q (start_flow req s)"
  by (simp add: start_flow_def flow_kept)

lemma serve_deferred_keeps: "Q (snd x) \<Longrightarrow> Q (snd (serve_deferred x))"
  using flow_kept bodies_kept by (auto simp: serve_deferred_def split: prod.split)

end

locale handler_property = answer_property +
  assumes request_kept: "keeps Q (run_hooks HRequest on_Request stop_on_response 0 as)"
begin

lemma request_stage_keeps: "keeps Q (request_stage V as body)"
proof -
  have run: "Q s \<Longrightarrow> Q (snd (seq (run_hooks HRequest on_Request stop_on_response 0 as)
      (\<lambda>_ s2. (Go (Some (bytes_reader (r_body (f_request (sv_flow s2))))), s2)) s))" for s
    using keeps_seq [OF request_kept go_keeps, of "\<lambda>_ s2. Go (Some (bytes_reader (r_body (f_request (sv_flow s2)))))"]
    by (simp add: keeps_def)
  show ?thesis
    unfolding request_stage_def keeps_def
    by (simp add: leave_kept run flow_kept split: sum.split option.split prod.split)
qed

lemma serve_body_keeps: "keeps Q (serve_body V as req)"
  unfolding serve_body_def
  by (rule keeps_from, intro keeps_seq requestheaders_kept request_stage_keeps forward_stage_keeps
      response_stage_keeps reply_stage_keeps) (rule counted_kept)

lemma ServeHTTP_keeps:
  assumes "in_method req \<noteq> ''CONNECT''" and "Q s"
  shows "Q (snd (ServeHTTP V as req s))"
proof (cases "url_is_abs (in_url req) \<and> u_host (in_url req) \<noteq> []")
  case True
  have "Q (snd (serve_body V as req (start_flow req s)))"
    using serve_body_keeps [of req] start_flow_keeps [OF assms(2)] by (simp add: keeps_def)
  with True assms(1) show ?thesis by (simp add: ServeHTTP_def ServeHTTP_plain_def serve_deferred_keeps)
next
  case False
  obtain r s1 where 1: "(leave_with 400 s :: unit ctl \<times> 'a serve) = (r, s1)" by force
  have "Q (snd (leave_with 400 s :: unit ctl \<times> 'a serve))" by (rule leave_kept(1) [OF assms(2)])
  with 1 have "Q s1" by simp
  with False assms(1) 1 show ?thesis
    by (auto simp: ServeHTTP_def ServeHTTP_plain_def writer_kept)
qed

end

section \<open>Properties of the connection context\<close>

abbreviation keeps_conn :: "(ConnContext \<Rightarrow> bool) \<Rightarrow> ('s serve \<Rightarrow> 'a ctl \<times> 's serve) \<Rightarrow> bool" where
  "keeps_conn P \<equiv> keeps (\<lambda>s. P (sv_conn s))"

lemma leave_conn:
  "sv_conn (snd (leave_with code s)) = sv_conn s" "sv_conn (snd (leave_reply rp b s)) = sv_conn s"
  by (simp_all add: leave_with_def leave_reply_def split: prod.splits outcome.splits)

lemma run_hooks_conn: "sv_conn (snd (run_hooks name sel stop i as s)) = sv_conn s"
proof (induction as arbitrary: i s)
  case (Cons a as)
  obtain r1 s1 where 1: "run_hook name i (sel a) s = (r1, s1)" by force
  then have "sv_conn s1 = sv_conn s" by (auto simp: run_hook_def split: prod.splits)
  with 1 Cons.IH [of "Suc i" s1] show ?case
    by (auto simp: leave_conn split: outcome.split option.split)
qed simp

lemma run_modifiers_conn: "sv_conn (snd (run_modifiers name sel i as x s)) = sv_conn s"
proof (induction as arbitrary: i x s)
  case (Cons a as)
  obtain r1 f st where 1: "sel a (sv_flow s) x (sv_addons s) = (r1, f, st)" by (metis prod_cases3)
  with Cons.IH show ?case by (simp add: Let_def split: outcome.split)
qed simp

locale conn_property =
  fixes as :: "'s addon_ops list" and P :: "ConnContext \<Rightarrow> bool"
  assumes counted: "P c \<Longrightarrow> P (c\<lparr>FlowCount := FlowCount c + 1\<rparr>)"
    and prepared: "P c \<Longrightarrow> P (initHttpServerConn c)"
    and dialled: "P c \<Longrightarrow> server_conn c = Some sc \<Longrightarrow> sc_client sc = Some PlainClient \<Longrightarrow>
      P (snd (plain_dial (length as) d addr c))"
    and last_response: "P c \<Longrightarrow> P (c\<lparr>closeAfterResponse := True\<rparr>)"
begin

lemma client_Do_keeps: "keeps_conn P (client_Do V (length as) q)"
proof -
  have d: "P c'" if "plain_dial (length as) d addr c = (r, c')" "P c" "server_conn c = Some sc"
    "sc_client sc = Some PlainClient" for d addr c r c' sc
    using dialled [OF that(2-4), of d addr] that(1) by simp
  have ex: "sv_conn (snd (exchange V q s)) = sv_conn s" for s
    by (simp add: exchange_def Let_def split: sum.split)
  show ?thesis
    unfolding keeps_def client_Do_def
    by (auto simp: ex split: option.split http_client.split outcome.split prod.split intro: d)
qed

end

sublocale conn_property \<subseteq> handler: handler_property "\<lambda>s. P (sv_conn s)" V as for V
  by unfold_locales
    (simp_all add: keeps_def run_hooks_conn run_modifiers_conn client_Do_keeps [unfolded keeps_def]
      counted prepared last_response)

interpretation reachable_conn: conn_property as "conn_reachable N (length as)" for N as
  by unfold_locales (blast intro: conn_reachable.intros)+

text \<open>The handshake with the server of an intercepted connection is done.\<close>

definition tls_ready :: "ConnContext \<Rightarrow> bool" where
  "tls_ready c \<longleftrightarrow>
     (\<exists>sc. server_conn c = Some sc \<and> sc_client sc = Some TlsClient \<and> sc_tls sc = Handshaked)"

interpretation ready_conn: conn_property as tls_ready for as
  by unfold_locales (auto simp: tls_ready_def initHttpServerConn_def)

end
