(* ===== verification/Interceptor_Props.thy ===== *)
theory Interceptor_Props
  imports Interceptor Proxy_Keeps
begin

text \<open>
  Properties of the interceptor and of its interplay with connections, handlers and certificates.
  The life of an intercepted connection is a step relation over the calls that the proxy, the
  listener and the decrypting server make.
\<close>

section \<open>The life of an intercepted connection\<close>

text \<open>
  The phases of an intercepted CONNECT: \<open>dial\<close> returned and the goroutine runs \<open>intercept\<close>; the
  pipe waits for the listener; the decrypting server makes the handshake; it serves requests; it
  has served a CONNECT inside the tunnel, which replaces the server connection of the context
  whatever becomes of it; it is over. A tunnel that such a CONNECT opens begins as \<open>Tunnelled\<close>.
\<close>

datatype phase = Tunnelled | Queued | Shaking | Serving | Nested | Over

inductive tls_life ::
  "net_env \<Rightarrow> 's addon_ops list \<Rightarrow> 'c lru_ops \<Rightarrow> phase \<Rightarrow> ConnContext \<Rightarrow> bool" for N addons U where
  tunnelled: "conn_reachable N (length addons) c0 \<Longrightarrow> middle_dial (length addons) None req c0 = (Ret None, c) \<Longrightarrow> tls_life N addons U Tunnelled c"
| classified: "tls_life N addons U Tunnelled c \<Longrightarrow> intercept dials r p c = (Ret (ToListener p), c') \<Longrightarrow>
    tls_life N addons U Queued c'"
| given_up: "tls_life N addons U Tunnelled c \<Longrightarrow> intercept dials r p c = (Ret x, c') \<Longrightarrow> x \<noteq> ToListener p \<Longrightarrow>
    tls_life N addons U Over c'"
| accepted: "tls_life N addons U Queued c \<Longrightarrow> listener_accept l (Inr p) l' \<Longrightarrow> tls_life N addons U Shaking c"
| certified: "tls_life N addons U Shaking c \<Longrightarrow>
    GetCertificate X U a shake ins (length addons) h (c, cache, t) = (Ret (Inr cert), c', cache', t') \<Longrightarrow>
    tls_life N addons U Serving c'"
| refused: "tls_life N addons U Shaking c \<Longrightarrow>
    GetCertificate X U a shake ins (length addons) h (c, cache, t) = (Ret (Inl err), c', cache', t') \<Longrightarrow>
    tls_life N addons U Over c'"
| served: "tls_life N addons U Serving c \<Longrightarrow> in_method req \<noteq> ''CONNECT'' \<Longrightarrow> sv_conn s = c \<Longrightarrow>
    tls_life N addons U Serving (sv_conn (snd (ServeHTTP V addons req s)))"
| nested: "tls_life N addons U f c \<Longrightarrow> f = Serving \<and> in_method req = ''CONNECT'' \<or> f = Nested \<Longrightarrow>
    sv_conn s = c \<Longrightarrow> sv_net V = N \<Longrightarrow>
    tls_life N addons U Nested (sv_conn (snd (ServeHTTP V addons req s)))"
| server_gone: "tls_life N addons U f c \<Longrightarrow> tls_life N addons U f (snd (server_close N (length addons) k c))"
| client_gone: "tls_life N addons U f c \<Longrightarrow> tls_life N addons U Over (snd (client_close N (length addons) c))"

text \<open>What holds in each phase.\<close>

fun life_ok :: "phase \<Rightarrow> ConnContext \<Rightarrow> bool" where
  "life_ok Tunnelled c = (pipe_conn c \<noteq> None \<and> (\<exists>sc. server_conn c = Some sc \<and> sc_tls sc = Pending))"
| "life_ok Queued c = (\<exists>sc. server_conn c = Some sc \<and> sc_client sc = Some TlsClient \<and> sc_tls sc = Pending)"
| "life_ok Shaking c = (\<exists>sc. server_conn c = Some sc \<and> sc_client sc = Some TlsClient \<and> sc_tls sc = Pending)"
| "life_ok Serving c = tls_ready c"
| "life_ok Nested c = True"
| "life_ok Over c = True"

lemma middle_dial_ok:
  assumes "middle_dial n None req c0 = (Ret None, c)" and "conn_reachable N n c0"
  shows "conn_reachable N n c \<and> life_ok Tunnelled c"
proof
  have c: "c = snd (initServerTcpConn n None (newPipes req c0))"
    using assms(1) by (auto simp: middle_dial_def split: prod.splits outcome.splits option.splits)
  show "conn_reachable N n c"
    unfolding c newPipes_def by (intro conn_reachable.connected conn_reachable.piped assms(2))
  show "life_ok Tunnelled c"
    by (simp add: c newPipes_def initServerTcpConn_def attach_conn_def newServerConn_def Let_def)
qed

lemma intercept_ok:
  assumes "intercept dials r p c = (Ret x, c')" and "conn_reachable N n c" and "life_ok Tunnelled c"
  shows "conn_reachable N n c' \<and> (x = ToListener p \<longrightarrow> life_ok Queued c')"
proof -
  have closed: "conn_reachable N n (close_pipe_conn c)"
  proof -
    from assms(3) obtain q where q: "pipe_conn c = Some q" by auto
    have "conn_reachable N n (c\<lparr>pipe_conn := Some (pipe_close q)\<rparr>)"
      by (intro conn_reachable.piped assms(2))
    then show ?thesis by (simp add: close_pipe_conn_def q)
  qed
  have "conn_reachable N n (snd (initHttpsServerConn (c\<lparr>Tls := True\<rparr>)))"
    using assms(2,3) by (intro conn_reachable.tls) auto
  with assms(1,3) closed show ?thesis
    by (auto simp: intercept_def initHttpsServerConn_def split: sum.splits if_splits)
qed

lemma tlsHandshake_ready:
  assumes "tlsHandshake shake ins h c = (Ret None, c')" and "life_ok Shaking c"
  shows "tls_ready c'"
  using assms by (auto simp: tlsHandshake_def tls_ready_def Let_def split: if_splits)

lemma GetCertificate_conn:
  assumes "GetCertificate X U a shake ins n h (c, cache, t) = (x, c', cache', t')"
    and "conn_reachable N n c"
  shows "conn_reachable N n c' \<and>
    (case x of Ret (Inr cert) \<Rightarrow> life_ok Shaking c \<longrightarrow> tls_ready c' | _ \<Rightarrow> True)"
proof -
  obtain r c1 where 1: "tlsHandshake shake ins h c = (r, c1)" by force
  have c1: "conn_reachable N n c1" using conn_reachable.shaken [OF assms(2), of shake ins h] 1 by simp
  have "tls_ready (run_conn_hook n TlsEstablishedServer c1) = tls_ready c1" by (simp add: tls_ready_def)
  with assms(1) 1 c1 conn_reachable.established [OF c1] tlsHandshake_ready [of shake ins h c c1]
  show ?thesis
    by (auto simp: GetCertificate_def split: outcome.splits option.splits prod.splits sum.splits)
qed

lemma server_close_conn:
  "life_ok f c \<Longrightarrow> life_ok f (snd (server_close N n k c))"
  by (cases f) (auto simp: server_close_def mark_server_closed_def run_conn_hook_def tls_ready_def Let_def
      split: option.splits)

text \<open>A CONNECT keeps the context within its reachable states, whatever it does to the server connection.\<close>

lemma middle_dial_reachable:
  "conn_reachable N n c \<Longrightarrow> conn_reachable N n (snd (middle_dial n d req c))"
proof -
  assume c: "conn_reachable N n c"
  have i: "conn_reachable N n (snd (initServerTcpConn n d (newPipes req c)))"
    unfolding newPipes_def by (intro conn_reachable.connected conn_reachable.piped c)
  have "conn_reachable N n (close_pipe_conn c1)" if "conn_reachable N n c1" for c1
  proof (cases "pipe_conn c1")
    case None
    then have "close_pipe_conn c1 = c1" by (simp add: close_pipe_conn_def)
    with that show ?thesis by simp
  next
    case (Some q)
    with conn_reachable.piped [OF that, of "pipe_close q"] show ?thesis by (simp add: close_pipe_conn_def)
  qed
  with i show ?thesis
    by (auto simp: middle_dial_def split: prod.split outcome.split option.split)
qed

lemma leave_with_conn: "leave_with code s = (x, s1) \<Longrightarrow> sv_conn s1 = sv_conn s"
  by (auto simp: leave_with_def split: prod.splits outcome.splits)

lemma connect_tunnel_reachable:
  assumes "connect_tunnel V addons b s = (r, cn)" and "conn_reachable N (length addons) (sv_conn s)"
    and "sv_net V = N"
  shows "conn_reachable N (length addons) (sv_conn (cn_serve cn))"
proof (cases "hijack_err V")
  case (Some e)
  obtain x s1 where "(leave_with 502 s :: unit ctl \<times> 'a serve) = (x, s1)" by force
  with leave_with_conn [OF this] Some assms show ?thesis
    by (auto simp: connect_tunnel_def Let_def split: prod.splits)
next
  case None
  let ?cn = "\<lparr>cn_serve = s, tunnel_end_open = True, intercepting = b, tunnel_ran = False\<rparr>"
  obtain r5 cn5 where 5: "established_tunnel V addons ?cn = (r5, cn5)" by force
  with established_tunnel_hooks [OF 5] have "sv_conn (cn_serve cn5) = sv_conn s" by simp
  with conn_reachable.client_closed [OF assms(2)] None assms 5 show ?thesis
    by (auto simp: connect_tunnel_def close_both_def)
qed

lemma handleConnect_reachable:
  assumes "conn_reachable N (length addons) (sv_conn s)" and "sv_net V = N"
  shows "conn_reachable N (length addons) (sv_conn (cn_serve (snd (handleConnect V addons req s))))"
proof -
  define b where "b = (case intercept_rule V of None \<Rightarrow> True | Some rule \<Rightarrow> rule (in_host req))"
  define s2 where "s2 = (start_flow req s)\<lparr>sv_conn := (sv_conn (start_flow req s))\<lparr>Intercept := b\<rparr>\<rparr>"
  have 2: "conn_reachable N (length addons) (sv_conn s2)"
    using conn_reachable.intercepted [OF assms(1)] by (simp add: s2_def flow_simps)
  obtain r3 s3 where 3: "run_hooks HRequestheaders on_Requestheaders never_stop 0 addons s2 = (r3, s3)"
    by force
  with run_hooks_never [OF 3] 2 have c3: "conn_reachable N (length addons) (sv_conn s3)" by simp
  obtain r4 s4 where 4: "connect_dialled V addons req b s3 = (r4, s4)" by force
  have c4: "conn_reachable N (length addons) (sv_conn s4)"
    using 4 c3 middle_dial_reachable [OF c3, of "connect_dial V" req]
    by (auto simp: connect_dialled_def split: if_splits prod.splits)
  have l: "conn_reachable N (length addons) (sv_conn s5)" if "leave_with 502 s4 = (x :: unit ctl, s5)" for x s5
    using leave_with_conn [OF that] c4 by simp
  show ?thesis
    using 3 4 c3 c4 connect_tunnel_reachable [OF _ c4 assms(2), of b] unfolding s2_def
    by (auto simp: handleConnect_def b_def [symmetric] s2_def [symmetric] finish_connect_def Let_def
        dest: l split: ctl.split outcome.split option.split prod.split)
qed

lemma ServeHTTP_reachable:
  assumes "conn_reachable N (length addons) (sv_conn s)" and "sv_net V = N"
  shows "conn_reachable N (length addons) (sv_conn (snd (ServeHTTP V addons req s)))"
proof (cases "in_method req = ''CONNECT''")
  case True
  obtain r cn where "handleConnect V addons req s = (r, cn)" by force
  with True handleConnect_reachable [OF assms, of req] show ?thesis by (simp add: ServeHTTP_def)
next
  case False
  with reachable_conn.handler.ServeHTTP_keeps [OF False, of N addons s V] assms(1) show ?thesis by simp
qed

lemma tls_life_ok: "tls_life N addons U f c \<Longrightarrow> conn_reachable N (length addons) c \<and> life_ok f c"
proof (induction rule: tls_life.induct)
  case (tunnelled c0 req c)
  then show ?case using middle_dial_ok by blast
next
  case (classified c dials r p c')
  then show ?case using intercept_ok by blast
next
  case (given_up c dials r p x c')
  then show ?case using intercept_ok by simp
next
  case (accepted c l p l')
  then show ?case by simp
next
  case (certified c X a shake ins h cache t cert c' cache' t')
  with GetCertificate_conn [OF certified.hyps(2), of N] show ?case by simp
next
  case (refused c X a shake ins h cache t err c' cache' t')
  with GetCertificate_conn [OF refused.hyps(2), of N] show ?case by simp
next
  case (served c req s V)
  then show ?case
    using reachable_conn.handler.ServeHTTP_keeps [of req N addons s V] ready_conn.handler.ServeHTTP_keeps [of req s V addons]
    by simp
next
  case (nested f c req s V)
  then show ?case using ServeHTTP_reachable [of N addons s V req] by auto
next
  case (server_gone f c k)
  then show ?case by (simp add: conn_reachable.server_closed server_close_conn)
next
  case (client_gone f c)
  then show ?case by (simp add: conn_reachable.client_closed)
qed

lemma tls_ready_usable: "tls_ready c \<Longrightarrow> usable_conn V c"
  by (auto simp: tls_ready_def usable_conn_def initHttpServerConn_def)

lemma tls_ready_handshaked: "tls_ready c \<Longrightarrow> handshaked c"
  by (auto simp: tls_ready_def handshaked_def)

lemma tls_life_serving:
  assumes "tls_life N addons U Serving (sv_conn s)" and "proxied req" and "sv_rw s = new_rw"
  shows "\<exists>s'. ServeHTTP V addons req s = (Leave, s') \<and> f_done (sv_flow s') = 1 \<and>
    tls_life N addons U Serving (sv_conn s') \<and> usable_conn V (sv_conn s')"
proof -
  obtain r s' where run: "ServeHTTP V addons req s = (r, s')" by force
  from tls_life_ok [OF assms(1)] have "handshaked (sv_conn s)" by (simp add: tls_ready_handshaked)
  from ServeHTTP_ordered [OF run assms(2,3) this] have "r = Leave" "f_done (sv_flow s') = 1" by simp_all
  moreover have "tls_life N addons U Serving (sv_conn s')"
    using tls_life.served [OF assms(1), of req s V] assms(2) run by (simp add: proxied_def)
  moreover from tls_life_ok [OF this] have "usable_conn V (sv_conn s')" by (simp add: tls_ready_usable)
  ultimately show ?thesis using run by simp
qed

text \<open>
  C6: an intercepted connection whose client got its certificate, and on which no CONNECT was sent
  inside the tunnel since, can serve: the handshake with the server is done, so a proxied
  request never waits for it; its handler returns and finishes its flow; and the connection is
  then again in that state, ready for the next request, with the hooks of connects and
  disconnects balanced. (A CONNECT inside the tunnel leads to the phase \<open>Nested\<close>, of which only the
  balance of the hooks and that closing returns are known.)
\<close>

theorem intercepted_connection_serves:
  assumes "tls_life N addons U Serving (sv_conn s)" and "proxied req" and "sv_rw s = new_rw"
  shows "\<exists>s'. ServeHTTP V addons req s = (Leave, s') \<and> f_done (sv_flow s') = 1 \<and>
    tls_life N addons U Serving (sv_conn s') \<and> usable_conn V (sv_conn s') \<and>
    hooks_balanced (length addons) (sv_conn s')"
  using tls_life_serving [OF assms, of V] tls_life_ok [of N addons U Serving] conn_reachable_conn_inv
  by (metis conn_inv_def)

text \<open>Outside \<open>ServeHTTP\<close> nothing recovers a panic: one there would end the whole program.\<close>

lemma intercept_returns:
  assumes "life_ok Tunnelled c"
  shows "\<exists>x. fst (intercept dials r p c) = Ret x"
  using assms by (auto simp: intercept_def initHttpsServerConn_def split: sum.split)

lemma GetCertificate_returns:
  assumes "life_ok Shaking c"
  shows "\<exists>x. fst (GetCertificate X U a shake ins n h (c, cache, t)) = Ret x"
  using assms
  by (auto simp: GetCertificate_def tlsHandshake_def Let_def split: option.split prod.split)

lemma phase_closes:
  assumes "tls_life N addons U f c"
  shows "\<exists>e. fst (client_close N (length addons) c) = Ret e"
  using conn_inv_client_close [OF conn_reachable_conn_inv] tls_life_ok [OF assms] by blast

text \<open>
  C7: interception cannot crash the program. Whatever bytes a client sends through a tunnel,
  \<open>intercept\<close> returns; when the client then shakes hands, the certificate callback returns: the
  server connection is there and its channel is closed for the first time; and in every phase
  of such a connection closing the client returns.
\<close>

theorem interception_never_panics:
  assumes "tls_life N addons U f c"
  shows "(f = Tunnelled \<longrightarrow> (\<exists>x. fst (intercept dials r p c) = Ret x)) \<and>
    (f = Shaking \<longrightarrow>
       (\<exists>x. fst (GetCertificate X U a shake ins (length addons) h (c, cache, t)) = Ret x)) \<and>
    (\<exists>e. fst (client_close N (length addons) c) = Ret e)"
  using tls_life_ok [OF assms] intercept_returns [of c] GetCertificate_returns [of c] phase_closes [OF assms]
  by auto

section \<open>The certificate for the client\<close>

lemma GetCertificate_value:
  assumes "lru_laws U entries" and "cache_ok X a (entries cache)"
    and "GetCertificate X U a shake ins n h (c, cache, t) = (Ret r, c', cache', t')"
  shows "cache_ok X a (entries cache') \<and>
    (case r of
       Inr cert \<Rightarrow> signed_for X a (ch_server_name h) cert \<and> shake (handshake_config ins h) = None
     | Inl err \<Rightarrow> entries cache' = entries cache) \<and>
    hooks_run c' = hooks_run c @
      (if shake (handshake_config ins h) = None then map (Pair TlsEstablishedServer) [0..<n] else [])"
proof -
  obtain sc where sc: "server_conn c = Some sc" "sc_tls sc = Pending"
    using assms(3)
    by (cases "server_conn c") (auto simp: GetCertificate_def tlsHandshake_def Let_def split: if_splits)
  show ?thesis
  proof (cases "shake (handshake_config ins h)")
    case (Some e)
    with assms sc show ?thesis by (auto simp: GetCertificate_def tlsHandshake_def)
  next
    case None
    obtain g cache1 t1 where g: "GetCert X U a (ch_server_name h) cache t = (g, cache1, t1)"
      by (metis prod_cases3)
    note s = GetCert_signed [OF assms(1,2) g]
    from assms(3) sc None g have "r = g" "cache' = cache1"
      "c' = run_conn_hook n TlsEstablishedServer (snd (tlsHandshake shake ins h c))"
      by (auto simp: GetCertificate_def tlsHandshake_def)
    with s sc None show ?thesis
      by (auto simp: tlsHandshake_def run_conn_hook_def split: sum.split)
  qed
qed

text \<open>
  C8: the client of an intercepted connection gets a certificate only after the handshake with
  the real server succeeded, and it is one that this CA signed for the name the client asked
  for; each addon is then told once that the server's TLS is established. When the handshake
  or the signature fails the client gets the error and nothing is cached.
\<close>

theorem GetCertificate_correct:
  assumes "lru_laws U entries" and "cache_ok X a (entries cache)"
    and "GetCertificate X U a shake ins n h (c, cache, t) = (Ret r, c', cache', t')"
  shows "cache_ok X a (entries cache') \<and>
    (case r of
       Inr cert \<Rightarrow> signed_for X a (ch_server_name h) cert \<and> shake (handshake_config ins h) = None
     | Inl err \<Rightarrow> entries cache' = entries cache) \<and>
    hooks_run c' = hooks_run c @
      (if shake (handshake_config ins h) = None then map (Pair TlsEstablishedServer) [0..<n] else [])"
  using GetCertificate_value [OF assms] .

section \<open>Decrypted requests\<close>

lemma middle_request_proxied:
  assumes "in_method req \<noteq> ''CONNECT''" and "in_host req \<noteq> []"
  shows "proxied (middle_request req)"
  using assms by (simp add: proxied_def middle_request_def url_is_abs_def Let_def)

lemma middle_ServeHTTP_plain:
  assumes "\<not> is_wss (in_header req)"
  shows "middle_ServeHTTP upgrade V addons req s =
    (case ServeHTTP V addons (middle_request req) s of (x, s1) \<Rightarrow> (x, s1, []))"
  using assms by (simp add: middle_ServeHTTP_def)

lemma middle_serves:
  assumes "in_method req \<noteq> ''CONNECT''" and "in_host req \<noteq> []" and "\<not> is_wss (in_header req)"
    and "list_all quiet_addon addons" and "server_answers V (middle_request req) s res" and "sv_rw s = new_rw"
  shows "\<exists>s' q. middle_ServeHTTP upgrade V addons req s = (Leave, s', []) \<and>
    sv_sent s' = sv_sent s @ [q] \<and>
    sends (in_method req) (url_string (in_url (middle_request req))) (in_header req) (in_body req) q \<and>
    answer_kept res (sv_rw s')"
proof -
  have "in_body (middle_request req) = in_body req" "in_header (middle_request req) = in_header req"
    "in_method (middle_request req) = in_method req" by (simp_all add: middle_request_def Let_def)
  with ServeHTTP_transparent [OF assms(4) middle_request_proxied [OF assms(1,2)] assms(5,6)]
  show ?thesis by (auto simp: middle_ServeHTTP_plain [OF assms(3)])
qed

text \<open>
  C9: with addons that only observe, a decrypted request, whose URL has only a path, is sent on to
  \<open>https://\<close> with the client's \<open>Host\<close> and this path, with the method, the body and under every
  header name the values of the client, and is answered with the server's status, body and
  header values; a request with a \<open>Host\<close> is never refused as one that is not meant for a proxy.
\<close>

theorem decrypted_request_forwarded:
  assumes "in_method req \<noteq> ''CONNECT''" and "in_host req \<noteq> []" and "\<not> is_wss (in_header req)"
    and "u_scheme (in_url req) = []" and "u_host (in_url req) = []"
    and "list_all quiet_addon addons" and "server_answers V (middle_request req) s res" and "sv_rw s = new_rw"
  shows "\<exists>s' q. middle_ServeHTTP upgrade V addons req s = (Leave, s', []) \<and>
    sv_sent s' = sv_sent s @ [q] \<and>
    sends (in_method req) (''https://'' @ in_host req @ u_rest (in_url req)) (in_header req) (in_body req) q \<and>
    answer_kept res (sv_rw s')"
proof -
  have "url_string (in_url (middle_request req)) = ''https://'' @ in_host req @ u_rest (in_url req)"
    using assms(2,4,5) by (simp add: middle_request_def url_string_def Let_def)
  with middle_serves [OF assms(1-3,6-8), of upgrade] show ?thesis by simp
qed

section \<open>A CONNECT that fails\<close>

text \<open>A server connection without a client.\<close>

definition no_client :: "ConnContext \<Rightarrow> bool" where
  "no_client c \<longleftrightarrow> (\<exists>sc. server_conn c = Some sc \<and> sc_client sc = None)"

lemma middle_dial_failed: "no_client (snd (middle_dial n (Some err) req c))"
  by (simp add: middle_dial_def initServerTcpConn_def newPipes_def close_pipe_conn_def newServerConn_def
      no_client_def Let_def)

lemma failed_connect:
  assumes "list_all quiet_addon as" and "connect_dial V = Some err" and "intercept_rule V = None"
    and "in_method creq = ''CONNECT''" and "sv_rw s = new_rw"
  shows "\<exists>s'. ServeHTTP V as creq s = (Leave, s') \<and> no_client (sv_conn s') \<and> rw_status (sv_rw s') = Some 502"
proof -
  define s2 where "s2 = (start_flow creq s)\<lparr>sv_conn := (sv_conn (start_flow creq s))\<lparr>Intercept := True\<rparr>\<rparr>"
  define s3 where "s3 = s2\<lparr>sv_addons := hook_state on_Requestheaders (sv_flow s2) as (sv_addons s2),
      sv_trace := sv_trace s2 @ map (Pair HRequestheaders) [0..<length as]\<rparr>"
  have 3: "run_hooks HRequestheaders on_Requestheaders never_stop 0 as s2 = (Go (), s3)"
    using run_hooks_quiet [OF quiet_addons(1) [OF assms(1)], of never_stop s2 HRequestheaders 0]
    by (simp add: s3_def never_stop_def)
  obtain r c where d: "middle_dial (length as) (Some err) creq (sv_conn s3) = (r, c)" by force
  have r: "r = Ret (Some err)" using middle_dial_value [of "length as" "Some err" creq "sv_conn s3"] d by simp
  have rw: "sv_rw s3 = new_rw" using assms(5) by (simp add: s3_def s2_def flow_simps)
  have "handleConnect V as creq s = finish_connect (Leave,
      \<lparr>cn_serve = s3\<lparr>sv_conn := c, sv_rw := new_rw\<lparr>rw_status := Some 502, rw_sent := []\<rparr>\<rparr>,
       tunnel_end_open = False, intercepting = True, tunnel_ran = False\<rparr>)"
    using 3 d r rw assms(2,3) unfolding s2_def
    by (simp add: handleConnect_def s2_def [symmetric] connect_dialled_def leave_with_def WriteHeader_def)
  then show ?thesis
    using assms(4) middle_dial_failed [of "length as" err creq "sv_conn s3"] d
    by (simp add: ServeHTTP_def finish_connect_def)
qed

lemma forward_stage_no_client:
  assumes "quiet_modifier StreamRequestModifier as" and "no_client (sv_conn s)"
    and "\<not> UseSeparateClient (sv_flow s)"
    and "bad_request (sv_env V) (r_method (f_request (sv_flow s)))
      (url_string (r_url (f_request (sv_flow s)))) = None"
  shows "\<exists>s'. forward_stage V as (Some body) s = (Raise NilDeref, s') \<and> sv_sent s' = sv_sent s"
  using assms
  by (auto simp: forward_stage_def seq_def run_modifiers_quiet new_request_def client_Do_def
      initHttpServerConn_def no_client_def Let_def)

lemma no_client_raises:
  assumes q: "list_all quiet_addon as" and "no_client (sv_conn s)" and "sv_rw s = new_rw"
    and "rend (in_body req) = None" and "0 < sv_limit V"
    and "bad_request (sv_env V) (in_method req) (url_string (in_url req)) = None"
  shows "\<exists>s'. serve_body V as req (start_flow req s) = (Raise NilDeref, s') \<and> sv_sent s' = sv_sent s"
proof -
  note Q = quiet_addons [OF q]
  define s0 where "s0 = (start_flow req s)\<lparr>sv_conn :=
    (sv_conn (start_flow req s))\<lparr>FlowCount := FlowCount (sv_conn (start_flow req s)) + 1\<rparr>\<rparr>"
  have s0: "sv_flow s0 = newFlow (newRequest (in_method req) (in_url req) (in_proto req) (in_header req))"
    "sv_sent s0 = sv_sent s" "no_client (sv_conn s0)"
    using assms(2) by (simp_all add: s0_def start_flow_def no_client_def)
  define s1 where "s1 = s0\<lparr>sv_addons := hook_state on_Requestheaders (sv_flow s0) as (sv_addons s0),
      sv_trace := sv_trace s0 @ map (Pair HRequestheaders) [0..<length as]\<rparr>"
  have 1: "run_hooks HRequestheaders on_Requestheaders stop_on_response 0 as s0 = (Go (), s1)"
    using run_hooks_quiet [OF Q(1), of stop_on_response s0 HRequestheaders 0] s0
    by (simp add: s1_def stop_on_response_def newFlow_def)
  have n: "\<not> f_stream (sv_flow s1)" "f_response (sv_flow s1) = None"
    by (simp_all add: s1_def s0 newFlow_def)
  define s2 where "s2 = snd (request_stage V as (in_body req) s1)"
  note rs = request_stage_quiet [OF Q(2) assms(4,5) n]
  then have 2: "request_stage V as (in_body req) s1 = (Go (Some (in_body req)), s2)" by (simp add: s2_def)
  have s2: "sv_conn s2 = sv_conn s0" "sv_sent s2 = sv_sent s" "\<not> UseSeparateClient (sv_flow s2)"
    "r_method (f_request (sv_flow s2)) = in_method req" "r_url (f_request (sv_flow s2)) = in_url req"
    using rs s0 by (simp_all add: s2_def s1_def newFlow_def newRequest_def Let_def)
  from forward_stage_no_client [OF Q(5), of s2 V "in_body req"] s0(3) s2 assms(6)
  obtain s3 where "forward_stage V as (Some (in_body req)) s2 = (Raise NilDeref, s3)" "sv_sent s3 = sv_sent s"
    by auto
  with 1 2 show ?thesis unfolding serve_body_def s0_def [symmetric] by (simp add: seq_def)
qed

lemma no_client_answer:
  assumes "list_all quiet_addon as" and "no_client (sv_conn s)" and "sv_rw s = new_rw" and "proxied req"
    and "rend (in_body req) = None" and "0 < sv_limit V"
    and "bad_request (sv_env V) (in_method req) (url_string (in_url req)) = None"
  shows "\<exists>s'. ServeHTTP V as req s = (Leave, s') \<and> sv_sent s' = sv_sent s \<and>
    rw_status (rw_finish (sv_rw s')) = Some 200 \<and> rw_body (rw_finish (sv_rw s')) = []"
proof -
  from no_client_raises [OF assms(1-3,5-7)] obtain s1 where
    1: "serve_body V as req (start_flow req s) = (Raise NilDeref, s1)" "sv_sent s1 = sv_sent s" by blast
  have "handshaked (sv_conn s)" using assms(2) by (auto simp: no_client_def handshaked_def)
  from ServeHTTP_raised [OF 1(1) assms(4,3) this] 1(2) show ?thesis by auto
qed

text \<open>
  C12: a CONNECT whose server cannot be dialled is answered with 502, but it leaves a server
  connection without a client in the connection context. The next request on the same client
  connection, however harmless, dereferences nil; nothing is sent to its server, and the
  client gets an empty answer with status 200.
\<close>

theorem failed_connect_poisons:
  assumes "list_all quiet_addon addons" and "connect_dial V = Some err" and "intercept_rule V = None"
    and "in_method creq = ''CONNECT''" and "sv_rw s = new_rw" and "proxied req"
    and "rend (in_body req) = None" and "0 < sv_limit V"
    and "bad_request (sv_env V) (in_method req) (url_string (in_url req)) = None"
  shows "\<exists>s1 s2. ServeHTTP V addons creq s = (Leave, s1) \<and> rw_status (sv_rw s1) = Some 502 \<and>
    ServeHTTP V addons req (s1\<lparr>sv_rw := new_rw\<rparr>) = (Leave, s2) \<and> sv_sent s2 = sv_sent s1 \<and>
    rw_status (rw_finish (sv_rw s2)) = Some 200 \<and> rw_body (rw_finish (sv_rw s2)) = []"
proof -
  from failed_connect [OF assms(1-5)] obtain s1 where 1: "ServeHTTP V addons creq s = (Leave, s1)"
    "no_client (sv_conn s1)" "rw_status (sv_rw s1) = Some 502" by blast
  then show ?thesis using no_client_answer [OF assms(1), of "s1\<lparr>sv_rw := new_rw\<rparr>" req V] assms(6-9) by simp
qed

section \<open>Closing the proxy\<close>

text \<open>
  closing the proxy returns the error of its server and makes every later \<open>Accept\<close> of the
  decrypting server able to return; but closing it a second time, or shutting it down and then
  closing it, closes a closed channel, which is a panic.
\<close>

theorem Proxy_Close_once:
  assumes "\<not> doneChan_closed (listener p)"
  shows "\<exists>p'. Proxy_Close e p = (Ret e, p') \<and> Proxy_Shutdown e p = (Ret e, p') \<and>
    listener_accept (listener p') (Inl errServerClosed) (listener p') \<and>
    Proxy_Close e2 p' = (Panicked ClosedChannel, p')"
  using assms
  by (auto simp: Proxy_Close_def Proxy_Shutdown_def middle_close_def intro: listener_accept.done_closed)

section \<open>Web sockets\<close>

text \<open>
  an upgrade is either answered with 502 without touching a socket, or it takes over the
  client connection and closes it last and once, having dialled a host with a port, closed the
  server connection once if it was opened, and copied only after the client's upgrade request
  was written to the server.
\<close>

theorem wss_sockets_closed:
  "case wss dump hijack dials wrote h new_rw of (x, r, es) \<Rightarrow>
     x = Ret () \<and>
     (if is_err dump \<or> (\<exists>err. hijack = Some err) then rw_status r = Some 502 \<and> es = []
      else r = new_rw \<and> hd es = WsDial (wss_host h) \<and> contains (wss_host h) '':'' \<and>
        last es = WsCloseClient \<and> count_list es WsCloseClient = 1 \<and>
        count_list es WsCloseServer = (if dials (wss_host h) = None then 1 else 0) \<and>
        (case dump of Inl err \<Rightarrow> True
         | Inr b \<Rightarrow> (WsTransfer \<in> set es) = (\<exists>xs. es = WsDial (wss_host h) # WsUpgrade b # WsTransfer # xs)))"
proof -
  have c: "contains (s @ '':443'') '':''" for s
  proof (induction s)
    case Nil
    show ?case by code_simp
  qed simp
  then have "contains (wss_host h) '':''" by (simp add: wss_host_def)
  then show ?thesis
    by (auto simp: wss_def WriteHeader_def Let_def split: sum.splits option.splits)
qed

section \<open>Closed instances\<close>

text \<open>An intercepted connection of one addon, step by step.\<close>

definition life_addons :: "unit addon_ops list" where
  "life_addons = [BaseAddon]"

definition tunnel_conn :: ConnContext where
  "tunnel_conn = snd (middle_dial 1 None sample_incoming (newConnContext 1 fresh_conn))"

definition tls_bytes :: reader where
  "tls_bytes = bytes_reader [CHR 0x16, CHR 0x03, CHR 0x01, CHR 0x02]"

definition sample_pipe :: pipeConn where
  "sample_pipe = \<lparr>pipe_host = ''a:443'', pipe_remoteAddr = ''c:1'', pipe_closed = False\<rparr>"

definition queued_conn :: ConnContext where
  "queued_conn = snd (intercept (\<lambda>_. None) tls_bytes sample_pipe tunnel_conn)"

definition sample_hello :: client_hello where
  "sample_hello = \<lparr>ch_server_name = ''a'', ch_versions = [0x0303, 0x0304], ch_ciphers = []\<rparr>"

definition sample_ca :: CA where
  "sample_ca = \<lparr>PrivateKey = ''key'', RootCert = \<lparr>Raw = ''mitmproxy''\<rparr>, StorePath = ''/ca''\<rparr>"

definition certified_state :: "(gerr + tls_certificate) outcome \<times> ConnContext \<times> (string \<times> tls_certificate) list \<times> nat" where
  "certified_state =
     GetCertificate sample_crypto list_lru sample_ca (\<lambda>_. None) False 1 sample_hello (queued_conn, [], 0)"

lemma certified_run:
  "\<exists>cert c' cache' t'. certified_state = (Ret (Inr cert), c', cache', t')"
proof -
  obtain x c' cache' t' where s: "certified_state = (x, c', cache', t')" by (metis prod_cases4)
  have "(case fst certified_state of Ret (Inr _) \<Rightarrow> True | _ \<Rightarrow> False)" by code_simp
  then have "case x of Ret (Inr _) \<Rightarrow> True | _ \<Rightarrow> False" by (simp add: s)
  then obtain cert where "x = Ret (Inr cert)" by (auto split: outcome.splits sum.splits)
  with s show ?thesis by blast
qed

lemma sample_phases:
  "tls_life sample_net life_addons list_lru Tunnelled tunnel_conn"
  "tls_life sample_net life_addons list_lru Shaking queued_conn"
  "\<exists>c. tls_life sample_net life_addons list_lru Serving c"
proof -
  have n: "length life_addons = 1" by (simp add: life_addons_def)
  have r: "conn_reachable sample_net (length life_addons) (newConnContext 1 fresh_conn)"
    unfolding n by (intro conn_reachable.accepted) (simp add: Accept_def fresh_conn_def)
  have "fst (middle_dial 1 None sample_incoming (newConnContext 1 fresh_conn)) = Ret None" by code_simp
  then have "middle_dial (length life_addons) None sample_incoming (newConnContext 1 fresh_conn) =
      (Ret None, tunnel_conn)"
    by (simp add: n tunnel_conn_def prod_eq_iff)
  from tls_life.tunnelled [OF r this] have 1: "tls_life sample_net life_addons list_lru Tunnelled tunnel_conn" .
  have "fst (intercept (\<lambda>_. None) tls_bytes sample_pipe tunnel_conn) = Ret (ToListener sample_pipe)"
    by code_simp
  then have "intercept (\<lambda>_. None) tls_bytes sample_pipe tunnel_conn = (Ret (ToListener sample_pipe), queued_conn)"
    by (simp add: queued_conn_def prod_eq_iff)
  from tls_life.classified [OF 1 this] have 2: "tls_life sample_net life_addons list_lru Queued queued_conn" .
  let ?l = "\<lparr>connChan = [sample_pipe], doneChan_closed = False\<rparr>"
  have "listener_accept ?l (Inr sample_pipe) (?l\<lparr>connChan := [] @ []\<rparr>)"
    by (rule listener_accept.conn) simp
  from tls_life.accepted [OF 2 this] have 3: "tls_life sample_net life_addons list_lru Shaking queued_conn" .
  from certified_run obtain cert c' cache' t' where
    "GetCertificate sample_crypto list_lru sample_ca (\<lambda>_. None) False (length life_addons) sample_hello
       (queued_conn, [], 0) = (Ret (Inr cert), c', cache', t')"
    by (auto simp: certified_state_def n)
  from tls_life.certified [OF 3 this] show "\<exists>c. tls_life sample_net life_addons list_lru Serving c" by blast
  show "tls_life sample_net life_addons list_lru Tunnelled tunnel_conn" by (rule 1)
  show "tls_life sample_net life_addons list_lru Shaking queued_conn" by (rule 3)
qed

theorem interception_never_panics_witness:
  "(\<exists>x. fst (intercept (\<lambda>_. None) (bytes_reader ''GET'') sample_pipe tunnel_conn) = Ret x) \<and>
   (\<exists>x. fst (GetCertificate sample_crypto list_lru sample_ca (\<lambda>_. Some (EMsg ''EOF'')) False (length life_addons)
      sample_hello (queued_conn, [], 0)) = Ret x)"
  using interception_never_panics [OF sample_phases(1), of "\<lambda>_. None" "bytes_reader ''GET''" sample_pipe]
    interception_never_panics [OF sample_phases(2), where X = sample_crypto and a = sample_ca and
      shake = "\<lambda>_. Some (EMsg ''EOF'')" and ins = False and h = sample_hello and cache = "[]" and t = 0]
  by blast

theorem intercepted_connection_serves_witness:
  "\<exists>c s'. tls_life sample_net life_addons list_lru Serving c \<and>
     ServeHTTP sample_serve_env life_addons sample_incoming ((sample_serve ())\<lparr>sv_conn := c\<rparr>) = (Leave, s') \<and>
     f_done (sv_flow s') = 1 \<and> hooks_balanced 1 (sv_conn s')"
proof -
  from sample_phases(3) obtain c where c: "tls_life sample_net life_addons list_lru Serving c" by blast
  then have "tls_life sample_net life_addons list_lru Serving (sv_conn ((sample_serve ())\<lparr>sv_conn := c\<rparr>))"
    by simp
  moreover have "sv_rw ((sample_serve ())\<lparr>sv_conn := c\<rparr>) = new_rw" by (simp add: flow_simps)
  moreover have "length life_addons = 1" by (simp add: life_addons_def)
  ultimately show ?thesis
    using intercepted_connection_serves [of sample_net life_addons list_lru "(sample_serve ())\<lparr>sv_conn := c\<rparr>"
        sample_incoming sample_serve_env] sample_proxied c by auto
qed

theorem GetCertificate_correct_witness:
  "\<exists>cert c' cache' t'. certified_state = (Ret (Inr cert), c', cache', t') \<and>
     signed_for sample_crypto sample_ca ''a'' cert \<and>
     (TlsEstablishedServer, 0) \<in> set (hooks_run c')"
proof -
  from certified_run obtain cert c' cache' t' where s: "certified_state = (Ret (Inr cert), c', cache', t')"
    by blast
  have "cache_ok sample_crypto sample_ca {(k, v). map_of [] k = Some v}" by (simp add: cache_ok_def)
  from GetCertificate_correct [OF list_lru_laws this s [unfolded certified_state_def]]
  have "signed_for sample_crypto sample_ca ''a'' cert" "(TlsEstablishedServer, 0) \<in> set (hooks_run c')"
    by (simp_all add: sample_hello_def)
  with s show ?thesis by blast
qed

text \<open>A decrypted request for \<open>/x\<close> with \<open>Host: a\<close>.\<close>

definition decrypted :: incoming where
  "decrypted = sample_incoming\<lparr>in_url := \<lparr>u_scheme = [], u_host = [], u_rest = ''/x''\<rparr>\<rparr>"

theorem decrypted_request_forwarded_witness:
  "\<exists>s'. middle_ServeHTTP (\<lambda>r. (Ret (), r, [])) sample_serve_env [LogAddon] decrypted (sample_serve []) =
       (Leave, s', []) \<and> map hq_url (sv_sent s') = [''https://a/x'']"
proof -
  have a: "server_answers sample_serve_env (middle_request decrypted) (sample_serve ([] :: Flow list)) ipa_response"
    using sample_server_answers [of "[] :: Flow list"]
    by (simp add: server_answers_def sample_serve_env_def calm_env_def middle_request_def decrypted_def Let_def)
  have q: "list_all quiet_addon [LogAddon]" by (simp add: log_addon.quiet_addon_axioms)
  have d: "in_method decrypted \<noteq> ''CONNECT''" "in_host decrypted \<noteq> []" "\<not> is_wss (in_header decrypted)"
    "u_scheme (in_url decrypted) = []" "u_host (in_url decrypted) = []"
    "''https://'' @ in_host decrypted @ u_rest (in_url decrypted) = ''https://a/x''"
    by code_simp+
  from decrypted_request_forwarded [OF d(1-5) q a, of "\<lambda>r. (Ret (), r, [])"] d(6)
  show ?thesis by (auto simp: flow_simps sends_def)
qed

theorem failed_connect_poisons_witness:
  "let V = sample_serve_env\<lparr>connect_dial := Some (EMsg ''connect: connection refused'')\<rparr>
   in \<exists>s1 s2. ServeHTTP V [BaseAddon] (sample_incoming\<lparr>in_method := ''CONNECT''\<rparr>) (sample_serve ()) = (Leave, s1) \<and>
        ServeHTTP V [BaseAddon] sample_incoming (s1\<lparr>sv_rw := new_rw\<rparr>) = (Leave, s2) \<and>
        rw_status (rw_finish (sv_rw s2)) = Some 200 \<and> rw_body (rw_finish (sv_rw s2)) = []"
proof -
  let ?V = "sample_serve_env\<lparr>connect_dial := Some (EMsg ''connect: connection refused'')\<rparr>"
  have q: "list_all quiet_addon [BaseAddon :: unit addon_ops]" by (simp add: base_addon.quiet_addon_axioms)
  have v: "connect_dial ?V = Some (EMsg ''connect: connection refused'')" "intercept_rule ?V = None"
    "0 < sv_limit ?V" "bad_request (sv_env ?V) m u = None" for m u
    using stream_limit_positive [of sample_options] by (simp_all add: sample_serve_env_def calm_env_def)
  have i: "in_method (sample_incoming\<lparr>in_method := ''CONNECT''\<rparr>) = ''CONNECT''"
    "rend (in_body sample_incoming) = None" by (simp_all add: sample_incoming_def)
  from failed_connect_poisons [OF q v(1,2) i(1) _ sample_proxied i(2) v(3,4), of "sample_serve ()"]
  show ?thesis by (auto simp: flow_simps Let_def)
qed

theorem Proxy_Close_once_witness:
  "let p = \<lparr>Opts = sample_options, Addons = [BaseAddon :: unit addon_ops], middle_ca = sample_ca,
            listener = \<lparr>connChan = [], doneChan_closed = False\<rparr>, shouldIntercept = None\<rparr>
   in fst (Proxy_Close None (snd (Proxy_Close None p))) = Panicked ClosedChannel"
  using Proxy_Close_once [of "\<lparr>Opts = sample_options, Addons = [BaseAddon :: unit addon_ops],
      middle_ca = sample_ca, listener = \<lparr>connChan = [], doneChan_closed = False\<rparr>,
      shouldIntercept = None\<rparr>" None None]
  by (auto simp: Let_def)

end
