(* ===== verification/Program.thy ===== *)
theory Program
  imports Addon_Threads Interceptor_Props
begin

text \<open>
  The program as a whole. Whatever servers and clients do, the proxy changes the state of its
  addon exactly when a request is delivered to the \<open>Request\<close> hook (\<open>addon_sees\<close>); so all the traffic
  of a run acts on the addon as the list of the requests delivered does, which is what \<open>main\<close> is
  modelled on, and this in turn as the first purchase among them.
\<close>

section \<open>The addon behind the handler\<close>

interpretation addon_idle: answer_property "\<lambda>s. sv_addons s = st" W "[ipaversion_addon L E]" for st W L E
proof unfold_locales
  show "keeps (\<lambda>s. sv_addons s = st) (client_Do W (length [ipaversion_addon L E]) q)" for q
    by (auto simp: keeps_def client_Do_def exchange_def Let_def
        split: sum.split option.split http_client.split outcome.split prod.split)
qed (auto simp: keeps_def run_hook_def ipaversion_addon_def BaseAddon_def no_hook_def no_modifier_def
    leave_reply_def Let_def split: outcome.split option.split prod.split)

text \<open>The request that the addon gets: proxied, with a body that is read without an error below the limit.\<close>

definition addon_sees :: "serve_env \<Rightarrow> incoming \<Rightarrow> Request option" where
  "addon_sees W req =
     (if proxied req \<and> buffered W (in_body req) \<and> rend (in_body req) = None
      then Some ((newRequest (in_method req) (in_url req) (in_proto req) (in_header req))
                   \<lparr>r_body := rdata (in_body req)\<rparr>)
      else None)"

definition shown :: "plist_lib \<Rightarrow> env \<Rightarrow> Request option \<Rightarrow> Addon \<times> world \<Rightarrow> Addon \<times> world" where
  "shown L E r st = (case r of None \<Rightarrow> st | Some q \<Rightarrow> Addon_Request L E q (fst st) (snd st))"

lemma headers_then:
  "run_hooks HRequestheaders on_Requestheaders stop 0 [ipaversion_addon L E] s =
     (case stop (sv_flow s) of
        Panicked p \<Rightarrow> (Raise p, s\<lparr>sv_trace := sv_trace s @ [(HRequestheaders, 0)]\<rparr>)
      | Ret (Some rp) \<Rightarrow> leave_reply rp None (s\<lparr>sv_trace := sv_trace s @ [(HRequestheaders, 0)]\<rparr>)
      | Ret None \<Rightarrow> (Go (), s\<lparr>sv_trace := sv_trace s @ [(HRequestheaders, 0)]\<rparr>))"
  by (simp add: run_hook_def ipaversion_addon_def BaseAddon_def no_hook_def split: outcome.split option.split)

lemma request_stage_shown:
  assumes "proxied req" and "0 \<le> sv_limit W" and "\<not> f_stream (sv_flow s)" and "f_response (sv_flow s) = None"
    and "f_request (sv_flow s) = newRequest (in_method req) (in_url req) (in_proto req) (in_header req)"
  shows "sv_addons (snd (request_stage W [ipaversion_addon L E] (in_body req) s)) =
    shown L E (addon_sees W req) (sv_addons s)"
proof (cases "buffered W (in_body req)")
  case False
  with assms readerToBuffer_large [of "sv_limit W" "in_body req"] show ?thesis
    by (simp add: request_stage_def buffered_def addon_sees_def shown_def)
next
  case True
  show ?thesis
  proof (cases "rend (in_body req)")
    case None
    obtain c w where st: "sv_addons s = (c, w)" by force
    have h: "on_Request (ipaversion_addon L E) f (c, w) = (Ret (), f, Addon_Request L E (f_request f) c w)" for f
      by (simp add: ipaversion_addon_def)
    from True None assms readerToBuffer_small [of "in_body req" "sv_limit W"] show ?thesis
      by (simp add: request_stage_def buffered_def addon_sees_def shown_def seq_def run_hook_def
          stop_on_response_def st h)
  next
    case (Some e)
    with True readerToBuffer_error [of "in_body req" "sv_limit W" e] assms(3) show ?thesis
      by (simp add: request_stage_def buffered_def addon_sees_def shown_def leave_with_def
          split: prod.split outcome.split)
  qed
qed

lemma serve_body_shown:
  assumes "proxied req" and "0 \<le> sv_limit W"
  shows "sv_addons (snd (serve_body W [ipaversion_addon L E] req (start_flow req s))) =
    shown L E (addon_sees W req) (sv_addons s)"
proof -
  let ?as = "[ipaversion_addon L E]"
  let ?s = "start_flow req s"
  let ?s1 = "?s\<lparr>sv_conn := (sv_conn ?s)\<lparr>FlowCount := FlowCount (sv_conn ?s) + 1\<rparr>,
    sv_trace := sv_trace ?s @ [(HRequestheaders, 0)]\<rparr>"
  have 1: "serve_body W ?as req ?s =
      seq (request_stage W ?as (in_body req))
        (\<lambda>b. seq (forward_stage W ?as b) (\<lambda>r. seq (response_stage W ?as r) (\<lambda>x. reply_stage ?as x))) ?s1"
    unfolding serve_body_def
    by (subst seq_def, subst headers_then) (simp add: stop_on_response_def start_flow_def newFlow_def)
  obtain r s2 where 2: "request_stage W ?as (in_body req) ?s1 = (r, s2)" by force
  have "sv_addons s2 = shown L E (addon_sees W req) (sv_addons ?s1)"
    using request_stage_shown [OF assms, of ?s1 L E] 2 by (simp add: start_flow_def newFlow_def)
  then have a: "sv_addons s2 = shown L E (addon_sees W req) (sv_addons s)" by (simp add: start_flow_def)
  show ?thesis
  proof (cases r)
    case (Go b)
    from addon_idle.answer_keeps [of "sv_addons s2" W L E b, unfolded keeps_def] a show ?thesis
      unfolding 1 by (subst seq_def) (simp add: 2 Go)
  qed (simp_all add: 1 seq_def 2 a)
qed

text \<open>A CONNECT never reaches the addon's state: no \<open>Request\<close> hook runs for it.\<close>

lemma leave_with_addons: "leave_with code s = (r, s1) \<Longrightarrow> sv_addons s1 = sv_addons s"
  by (auto simp: leave_with_def split: prod.splits outcome.splits)

lemma connect_tunnel_addons:
  assumes "connect_tunnel W [ipaversion_addon L E] b s = (r, cn)"
  shows "sv_addons (cn_serve cn) = sv_addons s"
proof (cases "hijack_err W")
  case (Some e)
  with assms show ?thesis
    by (auto simp: connect_tunnel_def Let_def dest: leave_with_addons split: prod.splits)
next
  case None
  let ?cn = "\<lparr>cn_serve = s, tunnel_end_open = True, intercepting = b, tunnel_ran = False\<rparr>"
  have "sv_addons (cn_serve (snd (established_tunnel W [ipaversion_addon L E] ?cn))) = sv_addons s"
    by (simp add: established_tunnel_def run_hook_def ipaversion_addon_def BaseAddon_def no_hook_def
        never_stop_def Let_def split: option.split)
  with None assms show ?thesis
    by (auto simp: connect_tunnel_def close_both_def Let_def split: prod.splits)
qed

lemma connect_keeps_addon:
  "sv_addons (cn_serve (snd (handleConnect W [ipaversion_addon L E] req s))) = sv_addons s"
proof -
  have cd: "sv_addons s1 = sv_addons s" if "connect_dialled W [ipaversion_addon L E] req b s = (r, s1)" for b s s1 r
    using that by (auto simp: connect_dialled_def split: prod.splits if_splits)
  show ?thesis
    by (auto simp: handleConnect_def finish_connect_def Let_def start_flow_def headers_then never_stop_def
        split: prod.split outcome.split option.split
        dest!: cd leave_with_addons connect_tunnel_addons simp del: run_hooks.simps)
qed

text \<open>One request of any kind.\<close>

lemma ServeHTTP_shown:
  assumes "0 \<le> sv_limit W"
  shows "sv_addons (snd (ServeHTTP W [ipaversion_addon L E] req s)) =
    shown L E (addon_sees W req) (sv_addons s)"
proof (cases "proxied req")
  case True
  with serve_body_shown [OF True assms, of L E s] show ?thesis
    by (simp add: ServeHTTP_proxied addon_idle.serve_deferred_keeps)
next
  case False
  then have n: "addon_sees W req = None" by (simp add: addon_sees_def)
  show ?thesis
  proof (cases "in_method req = ''CONNECT''")
    case True
    obtain r cn where "handleConnect W [ipaversion_addon L E] req s = (r, cn)" by force
    with True n connect_keeps_addon [of W L E req s] show ?thesis
      by (simp add: ServeHTTP_def shown_def)
  next
    case c: False
    obtain r s1 where 1: "(leave_with 400 s :: unit ctl \<times> (Addon \<times> world) serve) = (r, s1)" by force
    with False c n leave_with_addons [OF 1] show ?thesis
      by (auto simp: ServeHTTP_def ServeHTTP_plain_def proxied_def shown_def)
  qed
qed

section \<open>The traffic of a run\<close>

text \<open>The proxy of \<open>main\<close>: the one \<open>NewProxy\<close> made, with the program's addon.\<close>

definition main_proxy :: "plist_lib \<Rightarrow> env \<Rightarrow> (Addon \<times> world) Proxy \<Rightarrow> (Addon \<times> world) Proxy" where
  "main_proxy L E p = Proxy_AddAddon p (ipaversion_addon L E)"

text \<open>
  A call of a handler: by the server of the proxy, or by the server of the interceptor for a
  decrypted request (with the result of its web socket upgrade). The environment and the state
  of the handler, but for the addons and the settings of the proxy, are arbitrary.
\<close>

datatype arrival =
    ToProxy serve_env incoming "(Addon \<times> world) serve"
  | ToMiddle "rw \<Rightarrow> unit outcome \<times> rw \<times> ws_event list" serve_env incoming "(Addon \<times> world) serve"

definition handler_env :: "'s Proxy \<Rightarrow> serve_env \<Rightarrow> serve_env" where
  "handler_env p W = W\<lparr>sv_limit := stream_limit (Opts p), intercept_rule := shouldIntercept p\<rparr>"

fun arrive :: "(Addon \<times> world) Proxy \<Rightarrow> arrival \<Rightarrow> Addon \<times> world \<Rightarrow> Addon \<times> world" where
  "arrive p (ToProxy W req s) st =
     sv_addons (snd (ServeHTTP (handler_env p W) (Addons p) req (s\<lparr>sv_addons := st\<rparr>)))"
| "arrive p (ToMiddle upgrade W req s) st =
     sv_addons (fst (snd (middle_ServeHTTP upgrade (handler_env p W) (Addons p) req (s\<lparr>sv_addons := st\<rparr>))))"

fun seen :: "'s Proxy \<Rightarrow> arrival \<Rightarrow> Request option" where
  "seen p (ToProxy W req s) = addon_sees (handler_env p W) req"
| "seen p (ToMiddle upgrade W req s) =
     (if is_wss (in_header req) then None else addon_sees (handler_env p W) (middle_request req))"

lemma first_purchase:
  "\<not> locked c \<Longrightarrow> Addon_Requests L E qs c w =
     (case find is_purchase qs of
        None \<Rightarrow> (c, w) | Some q \<Rightarrow> handleBuyRequest L E q (c\<lparr>locked := True\<rparr>) w)"
  using Addon_Requests_first [of L E qs c w] by (simp add: is_purchase_def [abs_def])

lemma arrive_shown:
  assumes "Addons p = [ipaversion_addon L E]" and "0 \<le> stream_limit (Opts p)"
  shows "arrive p x st = shown L E (seen p x) st"
proof (cases x)
  case (ToProxy W req s)
  with assms ServeHTTP_shown [of "handler_env p W" L E req "s\<lparr>sv_addons := st\<rparr>"] show ?thesis
    by (simp add: handler_env_def)
next
  case (ToMiddle upgrade W req s)
  obtain r s1 where "ServeHTTP (handler_env p W) (Addons p) (middle_request req) (s\<lparr>sv_addons := st\<rparr>) = (r, s1)"
    by force
  with ToMiddle assms ServeHTTP_shown [of "handler_env p W" L E "middle_request req" "s\<lparr>sv_addons := st\<rparr>"]
  show ?thesis
    by (simp add: handler_env_def middle_ServeHTTP_def shown_def split: prod.split outcome.split)
qed

lemma traffic_requests:
  assumes "Addons p = [ipaversion_addon L E]" and "0 \<le> stream_limit (Opts p)"
  shows "fold (arrive p) xs (c, w) = Addon_Requests L E (List.map_filter (seen p) xs) c w"
proof (induction xs arbitrary: c w)
  case Nil
  then show ?case by (simp add: List.map_filter_def)
next
  case (Cons x xs)
  obtain c1 w1 where 1: "arrive p x (c, w) = (c1, w1)" by force
  then have "shown L E (seen p x) (c, w) = (c1, w1)" using arrive_shown [OF assms] by simp
  with 1 Cons.IH [of c1 w1] show ?case
    by (simp add: List.map_filter_simps shown_def split: option.splits prod.splits)
qed

lemma main_proxy_fields:
  assumes "NewProxy X E0 homeDir getwd main_options w0 = (Inr p, w1)"
  shows "Addons (main_proxy L E p) = [ipaversion_addon L E]"
    and "stream_limit (Opts (main_proxy L E p)) = 1024 * 1024 * 5"
proof -
  have "Opts p = NewProxy_options main_options" "Addons p = []"
    using assms by (auto simp: NewProxy_def Let_def split: prod.splits sum.splits)
  then show "Addons (main_proxy L E p) = [ipaversion_addon L E]"
    "stream_limit (Opts (main_proxy L E p)) = 1024 * 1024 * 5"
    by (simp_all add: main_proxy_def Proxy_AddAddon_def AddAddon_def NewProxy_options_def main_options_def
        stream_limit_def)
qed

text \<open>
  C2: however much traffic there is, plain, tunnelled or decrypted, whatever the servers answer and
  whichever requests fail, it acts on the state of the program as the requests delivered to the
  addon do one after the other, which is what \<open>main\<close> is modelled on; and these act as the first
  purchase among them does, which is handled alone.
\<close>

theorem traffic_is_first_purchase:
  assumes "NewProxy X E0 homeDir getwd main_options w0 = (Inr p, w1)"
  shows "fold (arrive (main_proxy L E p)) xs (new_main_addon f, w) =
      Addon_Requests L E (List.map_filter (seen (main_proxy L E p)) xs) (new_main_addon f) w \<and>
    fold (arrive (main_proxy L E p)) xs (new_main_addon f, w) =
      (case find is_purchase (List.map_filter (seen (main_proxy L E p)) xs) of
         None \<Rightarrow> (new_main_addon f, w)
       | Some q \<Rightarrow> handleBuyRequest L E q ((new_main_addon f)\<lparr>locked := True\<rparr>) w)"
proof -
  have "fold (arrive (main_proxy L E p)) xs (new_main_addon f, w) =
      Addon_Requests L E (List.map_filter (seen (main_proxy L E p)) xs) (new_main_addon f) w"
    by (rule traffic_requests) (simp_all add: main_proxy_fields [OF assms])
  moreover have "\<not> locked (new_main_addon f)" by (simp add: new_main_addon_def)
  ultimately show ?thesis by (simp add: first_purchase)
qed

section \<open>From the purchase to the package\<close>



















section \<open>Closed instances\<close>

text \<open>A first start of the program, which makes its certificate authority.\<close>

definition first_start :: "(gerr + (Addon \<times> world) Proxy) \<times> world" where
  "first_start = NewProxy sample_crypto (failing_env 100) (Inr ''/ca'') (Inl (EMsg [])) main_options store_world"

lemma first_start_ok: "\<exists>p w1. first_start = (Inr p, w1)"
proof -
  have "(case fst (NewCA sample_crypto (failing_env 100) (Inr ''/ca'') (Inl (EMsg [])) [] store_world) of
      Inl e \<Rightarrow> False | Inr ca \<Rightarrow> True)"
    by code_simp
  then obtain ca w1 where
    "NewCA sample_crypto (failing_env 100) (Inr ''/ca'') (Inl (EMsg [])) [] store_world = (Inr ca, w1)"
    by (auto split: sum.splits) (metis prod.collapse)
  then show ?thesis
    by (simp add: first_start_def NewProxy_def newMiddle_def NewProxy_options_def main_options_def Let_def)
qed

text \<open>The purchase arrives twice, and is handled once.\<close>

lemma purchase_seen:
  assumes "stream_limit (Opts p) = 1024 * 1024 * 5"
  shows "seen p (ToProxy sample_serve_env purchase_incoming s) = Some buy_request"
proof -
  have "proxied purchase_incoming" by code_simp
  moreover have "length (rdata (in_body purchase_incoming)) < 100" by code_simp
  moreover have "rend (in_body purchase_incoming) = None" by (simp add: purchase_incoming_def)
  ultimately show ?thesis
    using assms
    by (simp add: addon_sees_def handler_env_def buffered_def)
      (simp add: purchase_incoming_def newRequest_def)
qed

definition bought_twice :: "arrival list" where
  "bought_twice = replicate 2
     (ToProxy sample_serve_env purchase_incoming (sample_serve (new_addon, empty_world)))"

theorem traffic_is_first_purchase_witness:
  "\<exists>p w1. first_start = (Inr p, w1) \<and>
     done_sent (fst (fold (arrive (main_proxy two_versions_lib (store_env False) p)) bought_twice
       (new_main_addon plain_flags, empty_world))) = [True]"
proof -
  let ?L = "two_versions_lib" and ?E = "store_env False"
  let ?c = "(new_main_addon plain_flags)\<lparr>locked := True\<rparr>"
  from first_start_ok obtain p w1 where fs: "first_start = (Inr p, w1)" by blast
  then have new: "NewProxy sample_crypto (failing_env 100) (Inr ''/ca'') (Inl (EMsg [])) main_options store_world =
      (Inr p, w1)"
    by (simp add: first_start_def)
  have "List.map_filter (seen (main_proxy ?L ?E p)) bought_twice = [buy_request, buy_request]"
    using purchase_seen [OF main_proxy_fields(2) [OF new]]
    by (simp add: bought_twice_def numeral_2_eq_2 List.map_filter_simps del: seen.simps)
  then have "fold (arrive (main_proxy ?L ?E p)) bought_twice (new_main_addon plain_flags, empty_world) =
      handleBuyRequest ?L ?E buy_request ?c empty_world"
    using conjunct2 [OF traffic_is_first_purchase [OF new, of ?L ?E bought_twice plain_flags empty_world]]
      buy_request_is_purchase
    by simp
  moreover have "handled True ?c (fst (handleBuyRequest ?L ?E buy_request ?c empty_world))"
    using handleBuyRequest_handled [of ?L ?E buy_request empty_world ?c] buy_reply_sample(1)
    by (simp add: empty_world_def)
  from handled_fields [OF this] have "done_sent (fst (handleBuyRequest ?L ?E buy_request ?c empty_world)) = [True]"
    by (simp add: new_main_addon_def)
  ultimately show ?thesis using fs by auto
qed









end
