(* ===== verification/Json_Forms.thy ===== *)
theory Json_Forms
  imports Conn_Props
begin

text \<open>
  The JSON forms of flows and connections (\<open>flow.go\<close>, \<open>connection.go\<close>), as values of the type \<open>json\<close>
  of \<open>Flow\<close>, and waiting for the TLS state of a server connection. Identifiers and the addresses
  of sockets come from outside and are arguments. A request can be read back from the form of
  its flow, also when it went through an intercepted connection.
\<close>

section \<open>Flows\<close>

text \<open>
  \<open>Response\<close> has no method of its own: \<open>encoding/json\<close> takes the exported fields and their tags. What
  it makes of a reader depends on the type of the reader.
\<close>

definition Response_json :: "(reader \<Rightarrow> json) \<Rightarrow> Response \<Rightarrow> json" where
  "Response_json reader_json r =
     JObj [(''statusCode'', JNum (StatusCode r)),
           (''header'', case s_header r of None \<Rightarrow> JNull | Some h \<Rightarrow> header_json h),
           (''BodyReader'', case BodyReader r of None \<Rightarrow> JNull | Some b \<Rightarrow> reader_json b)]"

definition Flow_MarshalJSON :: "(reader \<Rightarrow> json) \<Rightarrow> string \<Rightarrow> Flow \<Rightarrow> json" where
  "Flow_MarshalJSON reader_json ident f =
     JObj [(''id'', JStr ident), (''request'', Request_MarshalJSON (f_request f)),
           (''response'', case f_response f of None \<Rightarrow> JNull | Some r \<Rightarrow> Response_json reader_json r)]"

section \<open>Connections\<close>

definition ClientConn_MarshalJSON :: "string \<Rightarrow> string \<Rightarrow> bool \<Rightarrow> json" where
  "ClientConn_MarshalJSON ident remote tls =
     JObj [(''id'', JStr ident), (''tls'', JBool tls), (''address'', JStr remote)]"

definition ServerConn_MarshalJSON :: "(nat \<Rightarrow> string) \<Rightarrow> string \<Rightarrow> ServerConn \<Rightarrow> json" where
  "ServerConn_MarshalJSON remote ident sc =
     JObj [(''id'', JStr ident), (''address'', JStr (Address sc)),
           (''peername'', JStr (case sc_conn sc of None \<Rightarrow> [] | Some k \<Rightarrow> remote k))]"

text \<open>The tags of \<open>ConnContext\<close>; \<open>FlowCount\<close> is left out of its form.\<close>

definition ConnContext_json :: "(nat option \<Rightarrow> string) \<Rightarrow> string \<Rightarrow> string \<Rightarrow> ConnContext \<Rightarrow> json" where
  "ConnContext_json remote cid sid c =
     JObj [(''clientConn'', ClientConn_MarshalJSON cid (remote None) (Tls c)),
           (''serverConn'', case server_conn c of
              None \<Rightarrow> JNull | Some sc \<Rightarrow> ServerConn_MarshalJSON (\<lambda>k. remote (Some k)) sid sc),
           (''intercept'', JBool (Intercept c))]"

text \<open>
  \<open>TlsState\<close> waits for the handshake (\<open>None\<close>); a failed handshake leaves the state nil. \<open>state\<close> is
  the state of the connection after a handshake.
\<close>

definition TlsState :: "'st \<Rightarrow> ServerConn \<Rightarrow> 'st option option" where
  "TlsState state sc =
     (case sc_tls sc of
        Pending \<Rightarrow> None | HandshakeFailed e \<Rightarrow> Some None | Handshaked \<Rightarrow> Some (Some state))"

section \<open>Properties\<close>

text \<open>
  The request of a flow can be read back from the JSON form of the flow, but for its body, under
  the conditions under which it can be read back from its own form.
\<close>

theorem Flow_JSON_request:
  assumes "parse (url_string (r_url (f_request f))) = Inr (r_url (f_request f))"
    and "valid_utf8 (r_method (f_request f))" and "valid_utf8 (url_string (r_url (f_request f)))"
    and "valid_utf8 (r_proto (f_request f))" and "valid_header (r_header (f_request f))"
  shows "map_option (Request_UnmarshalJSON parse)
      (json_member ''request'' (json_text (Flow_MarshalJSON reader_json ident f))) =
    Some (Ret (Inr ((f_request f)\<lparr>r_header := sort_key fst (r_header (f_request f)), r_body := []\<rparr>)))"
proof -
  let ?ms = "[(''id'', JStr ident), (''request'', Request_MarshalJSON (f_request f)),
    (''response'', case f_response f of None \<Rightarrow> JNull | Some r \<Rightarrow> Response_json reader_json r)]"
  have "wf_alist ?ms" "\<forall>k \<in> fst ` set ?ms. valid_utf8 k"
    by (auto simp: wf_alist_def ascii_def byte_in_def intro!: ascii_valid)
  from json_text_member [OF this, of "''request''"] Request_read_back [of parse "f_request f"] assms show ?thesis
    by (simp add: Flow_MarshalJSON_def del: json_text.simps)
qed

text \<open>
  \<open>TlsState\<close> waits exactly as long as the intercepting client does, and then gives a state exactly
  when that client can use the connection.
\<close>

lemma TlsState_tls_dial:
  "TlsState state sc = map_option (\<lambda>e. if e = None then Some state else None) (tls_dial sc)"
  by (simp add: TlsState_def tls_dial_def split: handshake.split)

text \<open>A finished handshake is never waited for again, whatever its result.\<close>

lemma tlsHandshake_ends_wait:
  assumes "tlsHandshake shake insecure h c = (Ret r, c1)"
  shows "\<exists>sc. server_conn c1 = Some sc \<and> TlsState state sc = Some (if r = None then Some state else None)"
  using assms
  by (auto simp: tlsHandshake_def TlsState_def Let_def split: option.splits if_splits)

end
